(* ===== verification/Prelude.thy ===== *)
theory Prelude
  imports Complex_Main "HOL-Library.Word" "HOL-Library.AList" "HOL-Library.List_Lexorder"
    "HOL-Library.Char_ord" "HOL-Library.Sublist"
begin

section \<open>Shared types, machine integers and hash maps\<close>

text \<open>
  What every component of the development uses: the Rust integer types, wrapping \<open>i64\<close>
  arithmetic (the shipped binary is a release build, whose arithmetic wraps), the model of
  \<open>HashMap<String, V>\<close> as an association list in iteration order, and the collections of
  facts the component proofs share.
\<close>

named_theorems json_simps \<open>accessors of JSON values applied to constructed values\<close>
named_theorems store_defs \<open>definitions of the store operations\<close>
named_theorems engine_defs \<open>definitions of the engine's handlers\<close>

subsection \<open>Unsigned 64-bit integers\<close>

text \<open>\<open>u64\<close> is the word type: \<open>fetch_add\<close> on an \<open>AtomicU64\<close> and \<open>+= 1\<close> on a version wrap.\<close>

type_synonym u64 = "64 word"

lemma unat_u64_bound: "unat (x :: u64) < 2 ^ 64"
  using unsigned_less [of x] by simp

lemma unat_u64_Suc:
  assumes "unat (x :: u64) < 2 ^ 64 - 1"
  shows "unat (x + 1) = Suc (unat x)"
proof -
  have "unat (x + 1) = (unat x + 1) mod 2 ^ 64"
    by (simp add: unat_word_ariths)
  with assms show ?thesis by simp
qed

lemma u64_Suc_neq [simp]: "(x :: u64) + 1 \<noteq> x"
  by simp

subsection \<open>Signed 64-bit integers\<close>

text \<open>
  An \<open>i64\<close> is an \<open>int\<close> in range; the operations wrap as two's complement does in a release
  build (the profile does not set \<open>overflow-checks\<close>).
\<close>

definition i64_max :: int where
  "i64_max = 9223372036854775807"

definition i64_min :: int where
  "i64_min = -9223372036854775808"

definition in_i64 :: "int \<Rightarrow> bool" where
  "in_i64 x \<longleftrightarrow> i64_min \<le> x \<and> x \<le> i64_max"

definition wrap_i64 :: "int \<Rightarrow> int" where
  "wrap_i64 x = (x + 9223372036854775808) mod 18446744073709551616 - 9223372036854775808"

definition i64_add :: "int \<Rightarrow> int \<Rightarrow> int" where
  "i64_add a b = wrap_i64 (a + b)"

definition i64_sub :: "int \<Rightarrow> int \<Rightarrow> int" where
  "i64_sub a b = wrap_i64 (a - b)"

definition i64_mul :: "int \<Rightarrow> int \<Rightarrow> int" where
  "i64_mul a b = wrap_i64 (a * b)"

lemma wrap_i64_in [simp]: "in_i64 (wrap_i64 x)"
proof -
  have "0 \<le> (x + 9223372036854775808) mod 18446744073709551616"
    and "(x + 9223372036854775808) mod 18446744073709551616 < 18446744073709551616"
    by simp_all
  then show ?thesis
    by (simp add: in_i64_def i64_min_def i64_max_def wrap_i64_def)
qed

lemma wrap_i64_id: "in_i64 x \<Longrightarrow> wrap_i64 x = x"
  by (simp add: in_i64_def i64_min_def i64_max_def wrap_i64_def)

lemma i64_add_id: "in_i64 (a + b) \<Longrightarrow> i64_add a b = a + b"
  by (simp add: i64_add_def wrap_i64_id)

lemma i64_add_in [simp]: "in_i64 (i64_add a b)"
  by (simp add: i64_add_def)

lemma i64_sub_id: "in_i64 (a - b) \<Longrightarrow> i64_sub a b = a - b"
  by (simp add: i64_sub_def wrap_i64_id)

lemma i64_mul_id: "in_i64 (a * b) \<Longrightarrow> i64_mul a b = a * b"
  by (simp add: i64_mul_def wrap_i64_id)

text \<open>The cast \<open>v as u64\<close> of an \<open>i64\<close> and \<open>v as i64\<close> of a \<open>u64\<close> reinterpret the bits.\<close>

definition i64_as_u64 :: "int \<Rightarrow> u64" where
  "i64_as_u64 x = word_of_int x"

definition u64_as_i64 :: "u64 \<Rightarrow> int" where
  "u64_as_i64 w = sint w"

lemma unat_i64_as_u64: "in_i64 x \<Longrightarrow> 0 \<le> x \<Longrightarrow> unat (i64_as_u64 x) = nat x"
  by (simp add: i64_as_u64_def in_i64_def i64_max_def i64_min_def unat_eq_nat_uint
      uint_word_of_int)

subsection \<open>Hash maps keyed by strings\<close>

text \<open>
  \<open>HashMap<String, V>\<close> is an association list with distinct keys. Its order stands for the
  iteration order, which Rust leaves unspecified: every theorem holds for every order.
\<close>

type_synonym 'v hmap = "(string \<times> 'v) list"

definition hm_get :: "'v hmap \<Rightarrow> string \<Rightarrow> 'v option" where
  "hm_get m k = map_of m k"

definition hm_put :: "string \<Rightarrow> 'v \<Rightarrow> 'v hmap \<Rightarrow> 'v hmap" where
  "hm_put k v m = AList.update k v m"

definition hm_del :: "string \<Rightarrow> 'v hmap \<Rightarrow> 'v hmap" where
  "hm_del k m = AList.delete k m"

definition hm_retain :: "('v \<Rightarrow> bool) \<Rightarrow> 'v hmap \<Rightarrow> 'v hmap" where
  "hm_retain P m = filter (\<lambda>kv. P (snd kv)) m"

definition hm_wf :: "'v hmap \<Rightarrow> bool" where
  "hm_wf m \<longleftrightarrow> distinct (map fst m)"

lemma hm_wf_Nil [simp]: "hm_wf []"
  by (simp add: hm_wf_def)

lemma hm_wf_put [simp]: "hm_wf m \<Longrightarrow> hm_wf (hm_put k v m)"
  by (simp add: hm_wf_def hm_put_def distinct_update)

lemma hm_wf_del [simp]: "hm_wf m \<Longrightarrow> hm_wf (hm_del k m)"
  by (simp add: hm_wf_def hm_del_def distinct_delete)

lemma hm_wf_retain [simp]: "hm_wf m \<Longrightarrow> hm_wf (hm_retain P m)"
  by (auto simp: hm_wf_def hm_retain_def distinct_map intro: inj_on_subset)

lemma hm_get_Nil [simp]: "hm_get [] k = None"
  by (simp add: hm_get_def)

lemma hm_get_put: "hm_get (hm_put k v m) k' = (if k' = k then Some v else hm_get m k')"
  by (simp add: hm_get_def hm_put_def update_conv)

lemma hm_get_put_same [simp]: "hm_get (hm_put k v m) k = Some v"
  by (simp add: hm_get_put)

lemma hm_get_put_other [simp]: "k' \<noteq> k \<Longrightarrow> hm_get (hm_put k v m) k' = hm_get m k'"
  by (simp add: hm_get_put)

lemma hm_get_del: "hm_get (hm_del k m) k' = (if k' = k then None else hm_get m k')"
  by (simp add: hm_get_def hm_del_def delete_conv)

lemma hm_get_mem: "hm_wf m \<Longrightarrow> (k, v) \<in> set m \<longleftrightarrow> hm_get m k = Some v"
  by (auto simp: hm_wf_def hm_get_def)

lemma hm_get_SomeD: "hm_get m k = Some v \<Longrightarrow> (k, v) \<in> set m"
  by (simp add: hm_get_def map_of_SomeD)

lemma hm_get_retain:
  assumes "hm_wf m"
  shows "hm_get (hm_retain P m) k =
    (case hm_get m k of None \<Rightarrow> None | Some v \<Rightarrow> if P v then Some v else None)"
  using assms
  by (induction m) (auto simp: hm_wf_def hm_get_def hm_retain_def map_of_eq_None_iff
      split: option.splits dest: map_of_SomeD intro: rev_image_eqI)

text \<open>The interface the clients of a hash map rely on, and the lemmas they share.\<close>

locale string_map =
  fixes get :: "'m \<Rightarrow> string \<Rightarrow> 'v option"
    and put :: "string \<Rightarrow> 'v \<Rightarrow> 'm \<Rightarrow> 'm"
    and del :: "string \<Rightarrow> 'm \<Rightarrow> 'm"
    and wf :: "'m \<Rightarrow> bool"
  assumes get_put_law: "get (put k v m) k' = (if k' = k then Some v else get m k')"
    and get_del_law: "get (del k m) k' = (if k' = k then None else get m k')"
    and wf_put_law: "wf m \<Longrightarrow> wf (put k v m)"
    and wf_del_law: "wf m \<Longrightarrow> wf (del k m)"
begin

lemma put_frame: "k' \<noteq> k \<Longrightarrow> get (put k v m) k' = get m k'"
  by (simp add: get_put_law)

lemma put_put: "get (put k v (put k w m)) = get (put k v m)"
  by (rule ext) (simp add: get_put_law)

lemma put_comm: "k \<noteq> k' \<Longrightarrow> get (put k v (put k' w m)) = get (put k' w (put k v m))"
  by (rule ext) (simp add: get_put_law)

lemma del_put: "get m k = None \<Longrightarrow> get (del k (put k v m)) = get m"
  by (rule ext) (simp add: get_put_law get_del_law)

lemma wf_foldr_put: "wf m \<Longrightarrow> wf (foldr (\<lambda>kv. put (fst kv) (snd kv)) kvs m)"
  by (induction kvs) (simp_all add: wf_put_law)

end

interpretation hm: string_map hm_get hm_put hm_del hm_wf
  by unfold_locales (simp_all add: hm_get_put hm_get_del)

subsection \<open>Lists\<close>

lemma filter_snoc: "filter P (xs @ [x]) = filter P xs @ (if P x then [x] else [])"
  by simp

lemma take_sort_subset: "set (take n (sort xs)) \<subseteq> set xs"
  using set_take_subset [of n "sort xs"] by simp

text \<open>The first element of a list that satisfies a predicate, with its position (\<open>iter().enumerate()\<close>).\<close>

fun find_pos :: "('a \<Rightarrow> bool) \<Rightarrow> nat \<Rightarrow> 'a list \<Rightarrow> (nat \<times> 'a) option" where
  "find_pos P n [] = None"
| "find_pos P n (x # xs) = (if P x then Some (n, x) else find_pos P (Suc n) xs)"

lemma find_pos_Some:
  "find_pos P n xs = Some (i, x) \<Longrightarrow>
     n \<le> i \<and> i - n < length xs \<and> xs ! (i - n) = x \<and> P x \<and> (\<forall>y \<in> set (take (i - n) xs). \<not> P y)"
proof (induction xs arbitrary: n)
  case Nil
  then show ?case by simp
next
  case (Cons a xs)
  show ?case
  proof (cases "P a")
    case True
    with Cons.prems show ?thesis by auto
  next
    case False
    with Cons.prems have "find_pos P (Suc n) xs = Some (i, x)" by simp
    from Cons.IH [OF this] obtain h: "Suc n \<le> i" "i - Suc n < length xs" "xs ! (i - Suc n) = x"
      "P x" "\<forall>y \<in> set (take (i - Suc n) xs). \<not> P y" by blast
    then have "i - n = Suc (i - Suc n)" by simp
    with h False show ?thesis by simp
  qed
qed

lemma find_pos_None: "find_pos P n xs = None \<longleftrightarrow> (\<forall>x \<in> set xs. \<not> P x)"
  by (induction xs arbitrary: n) auto

text \<open>\<open>Vec::remove(i)\<close> for an index in range.\<close>

definition remove_nth :: "nat \<Rightarrow> 'a list \<Rightarrow> 'a list" where
  "remove_nth i xs = take i xs @ drop (Suc i) xs"

lemma length_remove_nth: "i < length xs \<Longrightarrow> length (remove_nth i xs) = length xs - 1"
  by (simp add: remove_nth_def)

end
