(* ===== verification/Rust_Text.thy ===== *)
theory Rust_Text
  imports Prelude
begin

section \<open>Rust strings as UTF-8 byte lists\<close>

text \<open>
  A Rust \<open>str\<close> is valid UTF-8, and \<open>len()\<close> counts its bytes. The model is the byte list:
  a \<open>string\<close>, whose \<open>char\<close>s are bytes. The operations of the standard library that the
  source uses are written for this representation. Where Rust decodes code points
  (\<open>char::is_whitespace\<close>, \<open>char::is_control\<close>) the byte sequences of those code points are
  listed, which is exact on valid UTF-8.
\<close>

subsection \<open>Bytes and ASCII classes\<close>

definition byte :: "char \<Rightarrow> nat" where
  "byte c = of_char c"

definition is_ascii_digit :: "char \<Rightarrow> bool" where
  "is_ascii_digit c \<longleftrightarrow> 48 \<le> byte c \<and> byte c \<le> 57"

definition is_ascii_lower :: "char \<Rightarrow> bool" where
  "is_ascii_lower c \<longleftrightarrow> 97 \<le> byte c \<and> byte c \<le> 122"

definition is_ascii_upper :: "char \<Rightarrow> bool" where
  "is_ascii_upper c \<longleftrightarrow> 65 \<le> byte c \<and> byte c \<le> 90"

definition is_ascii_alphanumeric :: "char \<Rightarrow> bool" where
  "is_ascii_alphanumeric c \<longleftrightarrow> is_ascii_digit c \<or> is_ascii_lower c \<or> is_ascii_upper c"

definition is_ascii_hexdigit :: "char \<Rightarrow> bool" where
  "is_ascii_hexdigit c \<longleftrightarrow>
     is_ascii_digit c \<or> (97 \<le> byte c \<and> byte c \<le> 102) \<or> (65 \<le> byte c \<and> byte c \<le> 70)"

lemmas ascii_class_defs = is_ascii_digit_def is_ascii_lower_def is_ascii_upper_def
  is_ascii_alphanumeric_def is_ascii_hexdigit_def byte_def

definition ascii_lower :: "char \<Rightarrow> char" where
  "ascii_lower c = (if is_ascii_upper c then char_of (byte c + 32) else c)"

definition to_ascii_lowercase :: "string \<Rightarrow> string" where
  "to_ascii_lowercase s = map ascii_lower s"

subsection \<open>Whitespace and trimming\<close>

text \<open>The UTF-8 encodings of the code points with the Unicode property \<open>White_Space\<close>.\<close>

definition whitespace :: "string list" where
  "whitespace =
     [[CHR 0x09], [CHR 0x0A], [CHR 0x0B], [CHR 0x0C], [CHR 0x0D], [CHR 0x20],
      [CHR 0xC2, CHR 0x85], [CHR 0xC2, CHR 0xA0],
      [CHR 0xE1, CHR 0x9A, CHR 0x80], [CHR 0xE2, CHR 0x80, CHR 0x80],
      [CHR 0xE2, CHR 0x80, CHR 0x81], [CHR 0xE2, CHR 0x80, CHR 0x82],
      [CHR 0xE2, CHR 0x80, CHR 0x83], [CHR 0xE2, CHR 0x80, CHR 0x84],
      [CHR 0xE2, CHR 0x80, CHR 0x85], [CHR 0xE2, CHR 0x80, CHR 0x86],
      [CHR 0xE2, CHR 0x80, CHR 0x87], [CHR 0xE2, CHR 0x80, CHR 0x88],
      [CHR 0xE2, CHR 0x80, CHR 0x89], [CHR 0xE2, CHR 0x80, CHR 0x8A],
      [CHR 0xE2, CHR 0x80, CHR 0xA8], [CHR 0xE2, CHR 0x80, CHR 0xA9],
      [CHR 0xE2, CHR 0x80, CHR 0xAF], [CHR 0xE2, CHR 0x81, CHR 0x9F],
      [CHR 0xE3, CHR 0x80, CHR 0x80]]"

definition strip_one :: "string list \<Rightarrow> string \<Rightarrow> string option" where
  "strip_one pats s =
     map_option (\<lambda>p. drop (length p) s) (find (\<lambda>p. p \<noteq> [] \<and> prefix p s) pats)"

lemma strip_one_SomeE:
  assumes "strip_one pats s = Some r"
  obtains p where "p \<in> set pats" "p \<noteq> []" "s = p @ r"
proof -
  from assms obtain p where p: "find (\<lambda>p. p \<noteq> [] \<and> prefix p s) pats = Some p"
    and r: "r = drop (length p) s"
    by (auto simp: strip_one_def)
  from p have "p \<in> set pats" "p \<noteq> []" "prefix p s"
    by (auto simp: find_Some_iff)
  with r show ?thesis by (intro that [of p]) (auto simp: prefix_def)
qed

lemma strip_one_length: "strip_one pats s = Some r \<Longrightarrow> length r < length s"
  by (elim strip_one_SomeE) simp

function strip_all :: "string list \<Rightarrow> string \<Rightarrow> string" where
  "strip_all pats s = (case strip_one pats s of None \<Rightarrow> s | Some r \<Rightarrow> strip_all pats r)"
  by pat_completeness auto
termination
  by (relation "measure (\<lambda>(pats, s). length s)") (auto dest: strip_one_length)

declare strip_all.simps [simp del]

definition trim_start :: "string \<Rightarrow> string" where
  "trim_start s = strip_all whitespace s"

definition trim_end :: "string \<Rightarrow> string" where
  "trim_end s = rev (strip_all (map rev whitespace) (rev s))"

definition trim :: "string \<Rightarrow> string" where
  "trim s = trim_end (trim_start s)"

lemma strip_all_suffix: "suffix (strip_all pats s) s"
proof (induction pats s rule: strip_all.induct)
  case (1 pats s)
  show ?case
  proof (cases "strip_one pats s")
    case None
    then show ?thesis by (simp add: strip_all.simps [of pats s])
  next
    case (Some r)
    then have "suffix r s"
      by (auto simp: strip_one_def suffix_drop)
    with "1.IH" [OF Some] Some show ?thesis
      by (auto simp: strip_all.simps [of pats s] intro: suffix_order.trans)
  qed
qed

lemma strip_all_fixed: "strip_one pats (strip_all pats s) = None"
proof (induction pats s rule: strip_all.induct)
  case (1 pats s)
  then show ?case
    by (cases "strip_one pats s") (simp_all add: strip_all.simps [of pats s])
qed

lemma strip_all_idem: "strip_all pats (strip_all pats s) = strip_all pats s"
  by (subst strip_all.simps) (simp add: strip_all_fixed)

lemma strip_all_other:
  assumes "list_all (\<lambda>p. p = [] \<or> hd p \<noteq> c) pats"
  shows "strip_all pats (c # r) = c # r"
proof -
  have "strip_one pats (c # r) = None"
    using assms by (auto simp: strip_one_def find_None_iff list_all_iff prefix_Cons)
  then show ?thesis by (simp add: strip_all.simps [of pats "c # r"])
qed

lemma trim_start_other:
  "list_all (\<lambda>p. p = [] \<or> hd p \<noteq> c) whitespace \<Longrightarrow> trim_start (c # r) = c # r"
  by (simp add: trim_start_def strip_all_other)

text \<open>A byte that neither starts nor ends a whitespace character: visible ASCII, for example.\<close>

definition edge_char :: "char \<Rightarrow> bool" where
  "edge_char c \<longleftrightarrow> 33 \<le> byte c \<and> byte c \<le> 126"

lemma edge_char_whitespace:
  assumes "edge_char c"
  shows "list_all (\<lambda>p. p = [] \<or> hd p \<noteq> c) whitespace"
    and "list_all (\<lambda>p. p = [] \<or> hd p \<noteq> c) (map rev whitespace)"
  using assms by (auto simp: whitespace_def edge_char_def byte_def)

lemma trim_edges:
  assumes "s \<noteq> []" "edge_char (hd s)" "edge_char (last s)"
  shows "trim s = s"
proof -
  obtain c r where s: "s = c # r" using assms(1) by (cases s) auto
  have "trim_start s = s" using trim_start_other edge_char_whitespace(1) assms(2) s by simp
  moreover obtain d q where "rev s = d # q" "d = last s"
    using assms(1) by (metis hd_rev list.exhaust_sel rev_is_Nil_conv)
  then have "trim_end s = rev (rev s)"
    using strip_all_other [OF edge_char_whitespace(2), of d q] assms(3)
    by (simp only: trim_end_def)
  ultimately show ?thesis by (simp add: trim_def)
qed

lemma strip_one_prefix_None:
  assumes "prefix t s" "strip_one pats s = None"
  shows "strip_one pats t = None"
  using assms by (auto simp: strip_one_def find_None_iff intro: prefix_order.trans)

lemma strip_all_None: "strip_one pats s = None \<Longrightarrow> strip_all pats s = s"
  by (simp add: strip_all.simps [of pats s])

lemma trim_idem: "trim (trim s) = trim s"
proof -
  have "strip_one whitespace (trim_start s) = None"
    unfolding trim_start_def by (rule strip_all_fixed)
  moreover have "prefix (trim s) (trim_start s)"
    using strip_all_suffix [of "map rev whitespace" "rev (trim_start s)"]
    by (simp add: trim_def trim_end_def suffix_to_prefix)
  ultimately have "strip_one whitespace (trim s) = None"
    using strip_one_prefix_None by blast
  then have "trim_start (trim s) = trim s" by (simp add: trim_start_def strip_all_None)
  moreover have "trim_end (trim s) = trim s"
    by (simp add: trim_def trim_end_def strip_all_idem)
  ultimately show ?thesis by (simp add: trim_def [of "trim s"])
qed

lemma trim_start_space: "trim_start (CHR '' '' # r) = trim_start r"
proof -
  have heads: "list_all (\<lambda>p. p \<noteq> [] \<and> hd p = CHR '' '' \<longrightarrow> p = '' '') whitespace"
    and mem: "'' '' \<in> set whitespace" by (simp_all add: whitespace_def)
  let ?P = "\<lambda>p. p \<noteq> [] \<and> prefix p (CHR '' '' # r)"
  have "find ?P whitespace \<noteq> None"
    using mem by (auto simp: find_None_iff)
  then obtain p where p: "find ?P whitespace = Some p" by blast
  then have "p \<in> set whitespace" "?P p" by (auto simp: find_Some_iff)
  with heads have "p = '' ''" by (cases p) (auto simp: list_all_iff)
  with p have "strip_one whitespace (CHR '' '' # r) = Some r" by (simp add: strip_one_def)
  then show ?thesis by (simp add: trim_start_def strip_all.simps [of whitespace "CHR '' '' # r"])
qed

lemma set_trim: "set (trim s) \<subseteq> set s"
  using set_mono_suffix [OF strip_all_suffix, of "map rev whitespace" "rev (trim_start s)"]
    set_mono_suffix [OF strip_all_suffix, of whitespace s]
  by (auto simp: trim_def trim_end_def trim_start_def)

lemma length_trim: "length (trim s) \<le> length s"
  using suffix_length_le [OF strip_all_suffix, of "map rev whitespace" "rev (trim_start s)"]
    suffix_length_le [OF strip_all_suffix, of whitespace s]
  by (simp add: trim_def trim_end_def trim_start_def)

lemma trim_Nil [simp]: "trim [] = []"
  using length_trim [of "[]"] by simp

subsection \<open>UTF-8\<close>

text \<open>\<open>core::str::from_utf8(bytes).is_ok()\<close>: the table of well-formed byte sequences.\<close>

definition byte_in :: "nat \<Rightarrow> nat \<Rightarrow> char \<Rightarrow> bool" where
  "byte_in lo hi c \<longleftrightarrow> lo \<le> byte c \<and> byte c \<le> hi"

fun utf8_valid :: "string \<Rightarrow> bool" where
  "utf8_valid [] = True"
| "utf8_valid (a # s) =
     (if byte a < 128 then utf8_valid s
      else
        (case s of
           [] \<Rightarrow> False
         | b # s1 \<Rightarrow>
             if byte_in 194 223 a then byte_in 128 191 b \<and> utf8_valid s1
             else
               (case s1 of
                  [] \<Rightarrow> False
                | c # s2 \<Rightarrow>
                    if byte a = 224 then byte_in 160 191 b \<and> byte_in 128 191 c \<and> utf8_valid s2
                    else if byte a = 237 then byte_in 128 159 b \<and> byte_in 128 191 c \<and> utf8_valid s2
                    else if byte_in 225 239 a then
                      byte_in 128 191 b \<and> byte_in 128 191 c \<and> utf8_valid s2
                    else
                      (case s2 of
                         [] \<Rightarrow> False
                       | d # s3 \<Rightarrow>
                           (if byte a = 240 then byte_in 144 191 b
                            else if byte a = 244 then byte_in 128 143 b
                            else byte_in 241 243 a \<and> byte_in 128 191 b) \<and>
                           byte_in 128 191 c \<and> byte_in 128 191 d \<and> utf8_valid s3))))"

definition ascii :: "string \<Rightarrow> bool" where
  "ascii s = list_all (\<lambda>c. byte c < 128) s"

lemma utf8_valid_ascii: "ascii s \<Longrightarrow> utf8_valid s"
  by (induction s) (simp_all add: ascii_def)

lemma utf8_valid_ascii_append: "ascii s \<Longrightarrow> utf8_valid (s @ t) = utf8_valid t"
  by (induction s) (simp_all add: ascii_def)

subsection \<open>Searching\<close>

text \<open>\<open>contains_any pats s\<close>: some byte sequence of \<open>pats\<close> occurs in \<open>s\<close>.\<close>

fun contains_any :: "string list \<Rightarrow> string \<Rightarrow> bool" where
  "contains_any pats [] = (\<exists>p \<in> set pats. p = [])"
| "contains_any pats (c # s) = ((\<exists>p \<in> set pats. prefix p (c # s)) \<or> contains_any pats s)"

definition str_contains :: "string \<Rightarrow> string \<Rightarrow> bool" where
  "str_contains s p = contains_any [p] s"

definition has_whitespace :: "string \<Rightarrow> bool" where
  "has_whitespace s = contains_any whitespace s"

text \<open>\<open>char::is_control\<close>: U+0000..U+001F, U+007F..U+009F; the last range is two bytes long.\<close>

fun has_control :: "string \<Rightarrow> bool" where
  "has_control [] = False"
| "has_control (c # s) =
     (byte c < 32 \<or> byte c = 127 \<or>
      (byte c = 194 \<and> (case s of [] \<Rightarrow> False | d # _ \<Rightarrow> 128 \<le> byte d \<and> byte d \<le> 159)) \<or>
      has_control s)"

lemma str_contains_iff: "str_contains s p \<longleftrightarrow> sublist p s"
proof -
  have "contains_any [p] s \<longleftrightarrow> sublist p s"
    by (induction s) (auto simp: sublist_Cons_right)
  then show ?thesis by (simp add: str_contains_def)
qed

lemma str_contains_self_append: "str_contains (xs @ p @ ys) p"
  by (simp add: str_contains_iff)

subsection \<open>Replacing and splitting\<close>

text \<open>\<open>str::replace\<close>: non-overlapping matches from left to right (the pattern is not empty).\<close>

function str_replace :: "string \<Rightarrow> string \<Rightarrow> string \<Rightarrow> string" where
  "str_replace p r s =
     (case s of [] \<Rightarrow> []
      | c # cs \<Rightarrow> if p \<noteq> [] \<and> prefix p s then r @ str_replace p r (drop (length p) s)
                 else c # str_replace p r cs)"
  by pat_completeness auto
termination
  by (relation "measure (\<lambda>(p, r, s). length s)") auto

declare str_replace.simps [simp del]

lemma str_replace_Nil [simp]: "str_replace p r [] = []"
  by (simp add: str_replace.simps)

lemma str_replace_match: "p \<noteq> [] \<Longrightarrow> str_replace p r (p @ s) = r @ str_replace p r s"
proof -
  assume "p \<noteq> []"
  then obtain c cs where "p @ s = c # cs" by (cases p) auto
  with \<open>p \<noteq> []\<close> have "str_replace p r (p @ s) = r @ str_replace p r (drop (length p) (p @ s))"
    by (subst str_replace.simps) (simp split: list.splits, metis prefixI)
  then show ?thesis by simp
qed

lemma str_replace_skip: "\<not> prefix p (c # s) \<Longrightarrow> str_replace p r (c # s) = c # str_replace p r s"
  by (subst str_replace.simps) simp

lemma str_replace_single:
  "str_replace [a] r s = concat (map (\<lambda>c. if c = a then r else [c]) s)"
proof (induction s)
  case Nil
  then show ?case by simp
next
  case (Cons c s)
  then show ?case by (subst str_replace.simps) auto
qed

text \<open>\<open>str::split(c)\<close> for one ASCII character: always at least one piece.\<close>

fun split_on :: "char \<Rightarrow> string \<Rightarrow> string list" where
  "split_on c [] = [[]]"
| "split_on c (x # xs) =
     (if x = c then [] # split_on c xs
      else (case split_on c xs of [] \<Rightarrow> [[x]] | p # ps \<Rightarrow> (x # p) # ps))"

lemma split_on_nonempty [simp]: "split_on c s \<noteq> []"
  by (induction s) (auto split: list.splits)

subsection \<open>Decimal numbers\<close>

definition digit_char :: "nat \<Rightarrow> char" where
  "digit_char d = char_of (48 + d)"

fun show_nat :: "nat \<Rightarrow> string" where
  "show_nat n = (if n < 10 then [digit_char n] else show_nat (n div 10) @ [digit_char (n mod 10)])"

declare show_nat.simps [simp del]

definition show_int :: "int \<Rightarrow> string" where
  "show_int i = (if i < 0 then CHR ''-'' # show_nat (nat (- i)) else show_nat (nat i))"

definition digits_value :: "string \<Rightarrow> nat" where
  "digits_value s = foldl (\<lambda>acc c. acc * 10 + (byte c - 48)) 0 s"

text \<open>\<open>str::parse::<i64>\<close> and \<open>str::parse::<u64>\<close>: an optional sign, then digits, in range.\<close>

definition parse_digits :: "string \<Rightarrow> nat option" where
  "parse_digits s = (if s \<noteq> [] \<and> list_all is_ascii_digit s then Some (digits_value s) else None)"

definition parse_i64 :: "string \<Rightarrow> int option" where
  "parse_i64 s =
     (let v = (case s of
         [] \<Rightarrow> None
       | c # cs \<Rightarrow> if c = CHR ''-'' then map_option (\<lambda>n. - int n) (parse_digits cs)
                  else if c = CHR ''+'' then map_option int (parse_digits cs)
                  else map_option int (parse_digits s))
      in case v of Some i \<Rightarrow> if in_i64 i then Some i else None | None \<Rightarrow> None)"

lemma byte_digit_char: "d < 10 \<Longrightarrow> byte (digit_char d) = 48 + d"
  by (simp add: byte_def digit_char_def)

lemma show_nat_nonempty [simp]: "show_nat n \<noteq> []"
  by (subst show_nat.simps) simp

lemma show_nat_digits: "list_all is_ascii_digit (show_nat n)"
proof (induction n rule: show_nat.induct)
  case (1 n)
  then show ?case
    by (subst show_nat.simps)
      (auto simp: is_ascii_digit_def [of "digit_char _"] byte_digit_char simp flip: less_Suc_eq_le)
qed

lemma digits_value_snoc: "digits_value (s @ [c]) = digits_value s * 10 + (byte c - 48)"
  by (simp add: digits_value_def)

lemma digits_value_show_nat: "digits_value (show_nat n) = n"
proof (induction n rule: show_nat.induct)
  case (1 n)
  show ?case
  proof (cases "n < 10")
    case True
    then show ?thesis by (subst show_nat.simps) (simp add: digits_value_def byte_digit_char)
  next
    case False
    with "1.IH" show ?thesis
      by (subst show_nat.simps) (simp add: digits_value_snoc byte_digit_char)
  qed
qed

lemma parse_digits_show_nat [simp]: "parse_digits (show_nat n) = Some n"
  by (simp add: parse_digits_def show_nat_digits digits_value_show_nat)

lemma show_nat_inj: "show_nat m = show_nat n \<longleftrightarrow> m = n"
  using digits_value_show_nat by metis

end
