(* ===== verification/Json.thy ===== *)
theory Json
  imports Rust_Text
begin

section \<open>JSON values and floating point\<close>

text \<open>
  The data type \<open>serde_json::Value\<close> and the accessors the source uses on it. An object is an
  association list sorted by key (\<open>serde_json\<close> is built without \<open>preserve_order\<close>, so its map
  is a \<open>BTreeMap\<close>). The parser and the printer of \<open>serde_json\<close> are not under src/: they are
  the two fields of the record \<open>serde\<close>, an argument of every definition that uses them.
\<close>

subsection \<open>Binary64 numbers\<close>

text \<open>
  A finite \<open>f64\<close> is its exact rational value (the sign of zero plays no part in the source).
  Rounding and \<open>powf\<close>, whose precision the standard library leaves to the platform, are the
  fields of \<open>f64_ops\<close>.
\<close>

datatype f64 = Fin rat | PInf | NInf | NaN

record f64_ops =
  f_round :: "rat \<Rightarrow> f64"
  f_powf :: "f64 \<Rightarrow> f64 \<Rightarrow> f64"

fun f64_sign :: "f64 \<Rightarrow> int" where
  "f64_sign (Fin q) = (if 0 < q then 1 else if q < 0 then -1 else 0)"
| "f64_sign PInf = 1"
| "f64_sign NInf = -1"
| "f64_sign NaN = 0"

definition f64_mul :: "f64_ops \<Rightarrow> f64 \<Rightarrow> f64 \<Rightarrow> f64" where
  "f64_mul ops x y =
     (case (x, y) of
        (Fin a, Fin b) \<Rightarrow> f_round ops (a * b)
      | _ \<Rightarrow>
        (if x = NaN \<or> y = NaN then NaN
         else if f64_sign x * f64_sign y = 0 then NaN
         else if f64_sign x * f64_sign y = 1 then PInf else NInf))"

fun f64_le :: "f64 \<Rightarrow> f64 \<Rightarrow> bool" where
  "f64_le (Fin a) (Fin b) = (a \<le> b)"
| "f64_le NInf y = (y \<noteq> NaN)"
| "f64_le x PInf = (x \<noteq> NaN)"
| "f64_le _ _ = False"

text \<open>\<open>f64::max\<close> and \<open>f64::min\<close>: a NaN operand is ignored.\<close>

definition f64_max :: "f64 \<Rightarrow> f64 \<Rightarrow> f64" where
  "f64_max x y = (if x = NaN then y else if y = NaN then x else if f64_le x y then y else x)"

definition f64_min :: "f64 \<Rightarrow> f64 \<Rightarrow> f64" where
  "f64_min x y = (if x = NaN then y else if y = NaN then x else if f64_le x y then x else y)"

text \<open>The cast \<open>x as i64\<close> truncates towards zero and saturates; NaN becomes 0.\<close>

fun f64_to_i64 :: "f64 \<Rightarrow> int" where
  "f64_to_i64 (Fin q) =
     (let t = (if 0 \<le> q then \<lfloor>q\<rfloor> else \<lceil>q\<rceil>) in max i64_min (min i64_max t))"
| "f64_to_i64 PInf = i64_max"
| "f64_to_i64 NInf = i64_min"
| "f64_to_i64 NaN = 0"

definition f64_of_i64 :: "f64_ops \<Rightarrow> int \<Rightarrow> f64" where
  "f64_of_i64 ops i = f_round ops (of_int i)"

lemma f64_to_i64_in [simp]: "in_i64 (f64_to_i64 x)"
  by (cases x) (auto simp: in_i64_def Let_def i64_max_def i64_min_def)

lemma f64_to_i64_nonneg: "f64_le (Fin 0) x \<Longrightarrow> 0 \<le> f64_to_i64 x"
  by (cases x) (auto simp: Let_def i64_max_def i64_min_def)

subsection \<open>Values\<close>

datatype jnumber = PosInt nat | NegInt int | Float f64

datatype json =
    JNull
  | JBool bool
  | JNum jnumber
  | JStr string
  | JArr "json list"
  | JObj "(string \<times> json) list"

type_synonym jobject = "(string \<times> json) list"

record serde =
  sj_parse :: "string \<Rightarrow> string + json"
  sj_print :: "json \<Rightarrow> string"

text \<open>\<open>Map::insert\<close> and \<open>Map::remove\<close> on the sorted association list.\<close>

fun obj_insert :: "string \<Rightarrow> json \<Rightarrow> jobject \<Rightarrow> jobject" where
  "obj_insert k v [] = [(k, v)]"
| "obj_insert k v ((k', v') # m) =
     (if k < k' then (k, v) # (k', v') # m
      else if k = k' then (k, v) # m
      else (k', v') # obj_insert k v m)"

definition obj_remove :: "string \<Rightarrow> jobject \<Rightarrow> jobject" where
  "obj_remove k m = filter (\<lambda>kv. fst kv \<noteq> k) m"

definition obj_get :: "jobject \<Rightarrow> string \<Rightarrow> json option" where
  "obj_get m k = map_of m k"

text \<open>The object a \<open>json!\<close> literal builds: its entries are inserted one after the other.\<close>

definition obj_of :: "(string \<times> json) list \<Rightarrow> jobject" where
  "obj_of kvs = fold (\<lambda>kv. obj_insert (fst kv) (snd kv)) kvs []"

lemma obj_get_insert: "obj_get (obj_insert k v m) k' = (if k' = k then Some v else obj_get m k')"
  by (induction k v m rule: obj_insert.induct) (auto simp: obj_get_def)

lemma obj_get_remove: "obj_get (obj_remove k m) k' = (if k' = k then None else obj_get m k')"
  by (induction m) (auto simp: obj_get_def obj_remove_def)

lemma obj_get_fold_insert:
  "obj_get (fold (\<lambda>kv. obj_insert (fst kv) (snd kv)) kvs m) k =
     (case map_of (rev kvs) k of None \<Rightarrow> obj_get m k | Some v \<Rightarrow> Some v)"
  by (induction kvs arbitrary: m)
    (auto simp: obj_get_insert map_add_def split: option.splits)

lemma obj_get_obj_of [json_simps]: "obj_get (obj_of kvs) k = map_of (rev kvs) k"
proof -
  have "obj_get (obj_of kvs) k = (case map_of (rev kvs) k of None \<Rightarrow> obj_get [] k | Some v \<Rightarrow> Some v)"
    unfolding obj_of_def by (rule obj_get_fold_insert)
  then show ?thesis by (simp add: obj_get_def split: option.splits)
qed

definition obj_sorted :: "jobject \<Rightarrow> bool" where
  "obj_sorted m \<longleftrightarrow> sorted_wrt (<) (map fst m)"

lemma set_obj_insert: "fst ` set (obj_insert k v m) = insert k (fst ` set m)"
  by (induction k v m rule: obj_insert.induct) auto

lemma obj_sorted_insert: "obj_sorted m \<Longrightarrow> obj_sorted (obj_insert k v m)"
proof (induction k v m rule: obj_insert.induct)
  case (1 k v)
  then show ?case by (simp add: obj_sorted_def)
next
  case (2 k v k' v' m)
  have keys: "set (map fst (obj_insert k v m)) = insert k (set (map fst m))"
    using set_obj_insert [of k v m] by simp
  show ?case
  proof (cases "k < k' \<or> k = k'")
    case True
    with "2.prems" show ?thesis by (auto simp: obj_sorted_def)
  next
    case False
    then have "k' < k" by auto
    with False "2.IH" "2.prems" keys show ?thesis by (auto simp: obj_sorted_def)
  qed
qed

lemma obj_sorted_obj_of: "obj_sorted (obj_of kvs)"
proof -
  have "obj_sorted m \<Longrightarrow> obj_sorted (fold (\<lambda>kv. obj_insert (fst kv) (snd kv)) kvs m)" for m
    by (induction kvs arbitrary: m) (simp_all add: obj_sorted_insert)
  then show ?thesis by (simp add: obj_of_def obj_sorted_def)
qed

text \<open>The map interface of the prelude also fits JSON objects.\<close>

interpretation jo: string_map obj_get obj_insert obj_remove obj_sorted
proof
  show "obj_sorted (obj_remove k m)" if "obj_sorted m" for k m
    using that by (simp add: obj_sorted_def obj_remove_def sorted_wrt_map sorted_wrt_filter)
qed (simp_all add: obj_get_insert obj_get_remove obj_sorted_insert)

subsection \<open>Accessors\<close>

text \<open>\<open>Value::get\<close> by key: \<open>None\<close> on anything but an object.\<close>

fun jget :: "json \<Rightarrow> string \<Rightarrow> json option" where
  "jget (JObj m) k = obj_get m k"
| "jget _ k = None"

text \<open>Indexing \<open>v["k"]\<close>: a missing key reads as \<open>null\<close>.\<close>

definition jix :: "json \<Rightarrow> string \<Rightarrow> json" where
  "jix v k = (case jget v k of None \<Rightarrow> JNull | Some x \<Rightarrow> x)"

fun as_str :: "json \<Rightarrow> string option" where
  "as_str (JStr s) = Some s"
| "as_str _ = None"

fun as_bool :: "json \<Rightarrow> bool option" where
  "as_bool (JBool b) = Some b"
| "as_bool _ = None"

fun as_array :: "json \<Rightarrow> json list option" where
  "as_array (JArr xs) = Some xs"
| "as_array _ = None"

fun as_object :: "json \<Rightarrow> jobject option" where
  "as_object (JObj m) = Some m"
| "as_object _ = None"

fun as_i64 :: "json \<Rightarrow> int option" where
  "as_i64 (JNum (PosInt n)) = (if int n \<le> i64_max then Some (int n) else None)"
| "as_i64 (JNum (NegInt i)) = Some i"
| "as_i64 _ = None"

fun as_f64 :: "f64_ops \<Rightarrow> json \<Rightarrow> f64 option" where
  "as_f64 ops (JNum (PosInt n)) = Some (f_round ops (of_nat n))"
| "as_f64 ops (JNum (NegInt i)) = Some (f_round ops (of_int i))"
| "as_f64 ops (JNum (Float x)) = Some x"
| "as_f64 ops _ = None"

text \<open>\<open>Value::pointer\<close> for a path of non-numeric keys (an array has no such member).\<close>

fun jpointer :: "string list \<Rightarrow> json \<Rightarrow> json option" where
  "jpointer [] v = Some v"
| "jpointer (k # ks) v = (case jget v k of None \<Rightarrow> None | Some x \<Rightarrow> jpointer ks x)"

text \<open>\<open>json!\<close> of the Rust values the source stores.\<close>

definition j_i64 :: "int \<Rightarrow> json" where
  "j_i64 i = (if 0 \<le> i then JNum (PosInt (nat i)) else JNum (NegInt i))"

definition j_nat :: "nat \<Rightarrow> json" where
  "j_nat n = JNum (PosInt n)"

definition j_u64 :: "u64 \<Rightarrow> json" where
  "j_u64 w = JNum (PosInt (unat w))"

fun j_opt :: "('a \<Rightarrow> json) \<Rightarrow> 'a option \<Rightarrow> json" where
  "j_opt f None = JNull"
| "j_opt f (Some x) = f x"

lemma as_i64_j_i64 [json_simps]: "in_i64 i \<Longrightarrow> as_i64 (j_i64 i) = Some i"
  by (simp add: j_i64_def in_i64_def)

lemma as_i64_j_nat [json_simps]: "int n \<le> i64_max \<Longrightarrow> as_i64 (j_nat n) = Some (int n)"
  by (simp add: j_nat_def)

lemma j_nat_inj [simp]: "j_nat m = j_nat n \<longleftrightarrow> m = n"
  by (simp add: j_nat_def)

lemma jget_JObj_obj_of [json_simps]: "jget (JObj (obj_of kvs)) k = map_of (rev kvs) k"
  by (simp add: obj_get_obj_of)

lemma jix_JObj_obj_of [json_simps]:
  "jix (JObj (obj_of kvs)) k = (case map_of (rev kvs) k of None \<Rightarrow> JNull | Some x \<Rightarrow> x)"
  by (simp add: jix_def obj_get_obj_of)

lemma jget_JObj_insert [json_simps]:
  "jget (JObj (obj_insert k v m)) k' = (if k' = k then Some v else jget (JObj m) k')"
  by (simp add: obj_get_insert)

end
