(* ===== verification/Runtime.thy ===== *)
theory Runtime
  imports Json
begin

section \<open>Runtime policy: field extraction, validators, command resolution\<close>

text \<open>
  The model of \<open>src/runtime.rs\<close>. A definition is opaque JSON text from which a few scalar
  fields are read with regular expressions; the matchers below follow the patterns with the
  leftmost-first semantics of the \<open>regex\<close> crate. The process environment is the argument
  \<open>env\<close>, a partial map from names to values (\<open>std::env::var(name).ok()\<close>).
\<close>

type_synonym environ = "string \<Rightarrow> string option"

subsection \<open>Environment\<close>

definition env_binary :: "environ \<Rightarrow> string \<Rightarrow> string \<Rightarrow> string" where
  "env_binary env name dflt =
     (case env name of Some v \<Rightarrow> if v \<noteq> [] then v else dflt | None \<Rightarrow> dflt)"

definition env_bool :: "environ \<Rightarrow> string \<Rightarrow> bool \<Rightarrow> bool" where
  "env_bool env name dflt =
     (let v = env_binary env name ''''
      in if v = ''true'' \<or> v = ''1'' then True
         else if v = ''false'' \<or> v = ''0'' then False
         else dflt)"

definition canonical_runtime :: "string \<Rightarrow> string" where
  "canonical_runtime r =
     (if r \<in> {''javascript'', ''typescript'', ''node'', ''nodejs''} then ''nodejs''
      else if r \<in> {''browser-playwright'', ''playwright''} then ''playwright''
      else if r \<in> {''browser-puppeteer'', ''puppeteer''} then ''puppeteer''
      else if r \<in> {''python'', ''python3''} then ''python3''
      else if r \<in> {''shell'', ''bash''} then ''bash''
      else if r = ''ruby'' then ''ruby''
      else if r \<in> {''go'', ''golang''} then ''golang''
      else if r = ''dart'' then ''dart''
      else if r \<in> {''erl'', ''erlang''} then ''erlang''
      else if r \<in> {''ex'', ''elixir''} then ''elixir''
      else if r \<in> {''jvm'', ''java''} then ''java''
      else if r = '''' then ''nodejs''
      else r)"

definition supported_runtime :: "string \<Rightarrow> bool" where
  "supported_runtime r \<longleftrightarrow>
     r \<in> {''nodejs'', ''playwright'', ''puppeteer'', ''python3'', ''ruby'', ''bash'', ''golang'',
          ''dart'', ''erlang'', ''elixir'', ''java''}"

definition csv_env :: "environ \<Rightarrow> string \<Rightarrow> string \<Rightarrow> string list" where
  "csv_env env name dflt =
     map canonical_runtime
       (filter (\<lambda>t. t \<noteq> []) (map trim (split_on (CHR '','') (env_binary env name dflt))))"

subsection \<open>Field extraction\<close>

text \<open>The leftmost match of a matcher anchored at a position.\<close>

fun search :: "(string \<Rightarrow> 'a option) \<Rightarrow> string \<Rightarrow> 'a option" where
  "search m [] = m []"
| "search m (c # s) = (case m (c # s) of Some x \<Rightarrow> Some x | None \<Rightarrow> search m s)"

text \<open>The common prefix \<open>"field"\s*:\s*\<close> of the three patterns: the text after it.\<close>

definition after_key :: "string \<Rightarrow> string \<Rightarrow> string option" where
  "after_key field s =
     (let key = CHR 0x22 # field @ [CHR 0x22]
      in if prefix key s then
           (case trim_start (drop (length key) s) of
              [] \<Rightarrow> None
            | c # r \<Rightarrow> if c = CHR '':'' then Some (trim_start r) else None)
         else None)"

text \<open>
  The group and the closing quote of \<open>((?:\\.|[^"])*)"\<close>, with the pattern's preferences: an
  escaped character first, then any character but a quote (a backslash included), then the end.
\<close>

fun quoted_body :: "string \<Rightarrow> string option" where
  "quoted_body [] = None"
| "quoted_body (c # cs) =
     (case (if c = CHR 0x5C then
              (case cs of [] \<Rightarrow> None
               | d # ds \<Rightarrow> if d = CHR 0x0A then None
                          else map_option (\<lambda>g. c # d # g) (quoted_body ds))
            else None) of
        Some g \<Rightarrow> Some g
      | None \<Rightarrow>
        (if c = CHR 0x22 then Some [] else map_option (\<lambda>g. c # g) (quoted_body cs)))"

definition json_unescape :: "string \<Rightarrow> string" where
  "json_unescape v = str_replace [CHR 0x5C, CHR 0x5C] [CHR 0x5C]
     (str_replace [CHR 0x5C, CHR 0x22] [CHR 0x22] v)"

definition json_escape :: "string \<Rightarrow> string" where
  "json_escape v =
     str_replace [CHR 0x09] [CHR 0x5C, CHR ''t'']
      (str_replace [CHR 0x0D] [CHR 0x5C, CHR ''r'']
       (str_replace [CHR 0x0A] [CHR 0x5C, CHR ''n'']
        (str_replace [CHR 0x22] [CHR 0x5C, CHR 0x22]
         (str_replace [CHR 0x5C] [CHR 0x5C, CHR 0x5C] v))))"

definition string_field_at :: "string \<Rightarrow> string \<Rightarrow> string option" where
  "string_field_at field s =
     (case after_key field s of
        None \<Rightarrow> None
      | Some r \<Rightarrow> (case r of [] \<Rightarrow> None | c # cs \<Rightarrow> if c = CHR 0x22 then quoted_body cs else None))"

definition json_string_field :: "string \<Rightarrow> string \<Rightarrow> string" where
  "json_string_field json field =
     (case search (string_field_at field) json of None \<Rightarrow> [] | Some g \<Rightarrow> json_unescape g)"

definition bool_field_at :: "string \<Rightarrow> string \<Rightarrow> bool option" where
  "bool_field_at field s =
     (case after_key field s of
        None \<Rightarrow> None
      | Some r \<Rightarrow> if prefix ''true'' r then Some True
                 else if prefix ''false'' r then Some False else None)"

definition json_bool_field :: "string \<Rightarrow> string \<Rightarrow> bool \<Rightarrow> bool" where
  "json_bool_field json field dflt =
     (case search (bool_field_at field) json of None \<Rightarrow> dflt | Some b \<Rightarrow> b)"

definition int_field_at :: "string \<Rightarrow> string \<Rightarrow> string option" where
  "int_field_at field s =
     (case after_key field s of
        None \<Rightarrow> None
      | Some r \<Rightarrow> (let ds = takeWhile is_ascii_digit r in if ds = [] then None else Some ds))"

definition json_int_field :: "string \<Rightarrow> string \<Rightarrow> int \<Rightarrow> int" where
  "json_int_field json field dflt =
     (case search (int_field_at field) json of
        None \<Rightarrow> dflt
      | Some ds \<Rightarrow> (case parse_i64 ds of Some i \<Rightarrow> i | None \<Rightarrow> dflt))"

subsection \<open>Validators\<close>

definition in_class :: "string \<Rightarrow> char \<Rightarrow> bool" where
  "in_class extra c \<longleftrightarrow> is_ascii_alphanumeric c \<or> c \<in> set extra"

definition safe_reuse_key :: "string \<Rightarrow> bool" where
  "safe_reuse_key k =
     (case k of [] \<Rightarrow> False
      | c # cs \<Rightarrow> is_ascii_alphanumeric c \<and> length cs \<le> 119 \<and> list_all (in_class ''._:-'') cs)"

definition safe_container_image :: "string \<Rightarrow> bool" where
  "safe_container_image i =
     (case i of [] \<Rightarrow> False
      | c # cs \<Rightarrow> is_ascii_alphanumeric c \<and> length cs \<le> 511 \<and> list_all (in_class ''._:/@-'') cs)"

definition safe_pool_language :: "string \<Rightarrow> bool" where
  "safe_pool_language l \<longleftrightarrow> 1 \<le> length l \<and> length l \<le> 64 \<and> list_all (in_class ''_-'') l"

definition safe_pool_slug :: "string \<Rightarrow> bool" where
  "safe_pool_slug s \<longleftrightarrow> 1 \<le> length s \<and> length s \<le> 119 \<and> list_all (in_class ''._:-'') s"

definition safe_nats_subject :: "string \<Rightarrow> bool" where
  "safe_nats_subject s \<longleftrightarrow>
     list_all (\<lambda>p. p \<noteq> [] \<and> list_all (in_class ''_-'') p) (split_on (CHR ''.'') s)"

datatype identifier_kind = Uuid | Slug | Invalid

definition is_uuid :: "string \<Rightarrow> bool" where
  "is_uuid s \<longleftrightarrow> map length (split_on (CHR ''-'') s) = [8, 4, 4, 4, 12] \<and>
     list_all (list_all is_ascii_hexdigit) (split_on (CHR ''-'') s)"

definition slug_char :: "char \<Rightarrow> bool" where
  "slug_char c \<longleftrightarrow> is_ascii_lower c \<or> is_ascii_digit c"

definition is_slug :: "string \<Rightarrow> bool" where
  "is_slug s \<longleftrightarrow> 3 \<le> length s \<and> length s \<le> 120 \<and> slug_char (hd s) \<and> slug_char (last s) \<and>
     list_all (\<lambda>c. slug_char c \<or> c = CHR ''-'') s"

definition identifier_kind_of :: "string \<Rightarrow> identifier_kind" where
  "identifier_kind_of s = (if is_uuid s then Uuid else if is_slug s then Slug else Invalid)"

subsection \<open>Limits and worker keys\<close>

definition max_i :: "int \<Rightarrow> int \<Rightarrow> int" where
  "max_i v mn = (if mn \<le> v then v else mn)"

definition idle_ms_from_definition :: "string \<Rightarrow> u64 \<Rightarrow> u64" where
  "idle_ms_from_definition def fallback =
     (let seconds = json_int_field def ''idleTimeoutSeconds'' 0
      in if 0 < seconds then i64_as_u64 (max_i (i64_mul seconds 1000) 1000)
         else i64_as_u64 (max_i (u64_as_i64 fallback) 1000))"

definition timeout_ms_from_definition :: "string \<Rightarrow> u64 \<Rightarrow> u64" where
  "timeout_ms_from_definition def fallback =
     (let t = json_int_field def ''maxRunMs'' 0
      in if 0 < t then i64_as_u64 (max_i t 1000)
         else i64_as_u64 (max_i (u64_as_i64 fallback) 1000))"

definition runtime_from_definition :: "string \<Rightarrow> string" where
  "runtime_from_definition def = canonical_runtime (json_string_field def ''runtime'')"

definition worker_key :: "string \<Rightarrow> string \<Rightarrow> string \<Rightarrow> bool \<Rightarrow> string + string" where
  "worker_key identifier def rt containerized =
     (let reuse = json_string_field def ''reuseKey''
      in if reuse = [] then
           Inr (if containerized then ''pool:container:'' @ rt else ''pool:host:'' @ rt)
         else if safe_reuse_key reuse then Inr (''function:'' @ identifier @ '':'' @ reuse)
         else Inl ''reuseKey contains unsupported characters'')"

definition check_worker_key :: "string \<Rightarrow> bool \<Rightarrow> string" where
  "check_worker_key rt containerized =
     (if containerized then ''check:container:'' @ rt else ''check:host:'' @ rt)"

end
