(* ===== verification/Command.thy ===== *)
theory Command
  imports Runtime
begin

section \<open>Shell commands and payloads of an invocation\<close>

text \<open>
  The rest of \<open>src/runtime.rs\<close> (from \<open>shell_word\<close> to \<open>normalize_request_payload\<close>) and the
  two default host commands of \<open>src/config.rs\<close>.
\<close>

definition DEFAULT_NODEJS_HOST_COMMAND :: string where
  \<open>DEFAULT_NODEJS_HOST_COMMAND = ''env -i PATH="$PATH" NODE_ENV=production NODE_NO_WARNINGS=1 NATS_URL="${NATS_URL:-}" CONTAINER_POOL_NATS_URL="${CONTAINER_POOL_NATS_URL:-}" CONTAINER_POOL_NATS_SUBJECT_PREFIX="${CONTAINER_POOL_NATS_SUBJECT_PREFIX:-dd.remote.container_pool}" CONTAINER_POOL_NATS_TIMEOUT_MS="${CONTAINER_POOL_NATS_TIMEOUT_MS:-30000}" node --permission --allow-net child-runtimes/js-function-runner.mjs''\<close>

definition DEFAULT_BROWSER_HOST_COMMAND :: string where
  \<open>DEFAULT_BROWSER_HOST_COMMAND = ''env -i PATH="$PATH" HOME="${HOME:-/tmp}" NODE_ENV=production NODE_NO_WARNINGS=1 PLAYWRIGHT_BROWSERS_PATH="${PLAYWRIGHT_BROWSERS_PATH:-/ms-playwright}" PUPPETEER_EXECUTABLE_PATH="${PUPPETEER_EXECUTABLE_PATH:-}" LAMBDA_BROWSER_ALLOW_PRIVATE_NETWORKS="${LAMBDA_BROWSER_ALLOW_PRIVATE_NETWORKS:-false}" LAMBDA_BROWSER_ALLOWED_HOSTS="${LAMBDA_BROWSER_ALLOWED_HOSTS:-}" node --permission --allow-net --allow-child-process --allow-fs-read=/app --allow-fs-read=/ms-playwright --allow-fs-write=/tmp child-runtimes/browser-function-runner.mjs''\<close>

text \<open>Single quotes around a shell word; an embedded quote becomes \<open>'"'"'\<close>.\<close>

definition squote :: char where
  "squote = CHR 0x27"

definition dquote :: char where
  "dquote = CHR 0x22"

definition shell_word :: "string \<Rightarrow> string" where
  "shell_word v =
     [squote] @ str_replace [squote] [squote, dquote, squote, dquote, squote] v @ [squote]"

definition host_runtime_allowed :: "environ \<Rightarrow> string \<Rightarrow> bool" where
  "host_runtime_allowed env rt \<longleftrightarrow>
     rt \<in> set (csv_env env ''LAMBDA_ALLOW_HOST_RUNTIMES'' ''nodejs,playwright,puppeteer'')"

definition host_command :: "environ \<Rightarrow> string \<Rightarrow> string + string" where
  \<open>host_command env rt =
     (if rt = ''nodejs'' then
        Inr (env_binary env ''LAMBDA_NODEJS_HOST_COMMAND'' DEFAULT_NODEJS_HOST_COMMAND)
      else if rt = ''playwright'' \<or> rt = ''puppeteer'' then
        Inr (env_binary env ''LAMBDA_BROWSER_HOST_COMMAND'' DEFAULT_BROWSER_HOST_COMMAND)
      else if rt = ''python3'' then
        Inr (env_binary env ''LAMBDA_PYTHON3_HOST_COMMAND''
          ''env -i PATH="$PATH" PYTHONUNBUFFERED=1 python3 child-runtimes/python-function-runner.py'')
      else if rt = ''ruby'' then
        Inr (env_binary env ''LAMBDA_RUBY_HOST_COMMAND''
          ''env -i PATH="$PATH" ruby child-runtimes/ruby-function-runner.rb'')
      else if rt = ''bash'' then
        Inr (env_binary env ''LAMBDA_BASH_HOST_COMMAND''
          ''env -i PATH="$PATH" NODE_NO_WARNINGS=1 node --permission --allow-net --allow-child-process child-runtimes/bash-function-runner.mjs'')
      else Inl (''unsupported lambda runtime: '' @ rt))\<close>

definition default_container_image :: "environ \<Rightarrow> string \<Rightarrow> string" where
  "default_container_image env rt =
     (if rt = ''nodejs'' then
        env_binary env ''LAMBDA_NODEJS_CONTAINER_IMAGE'' ''docker.io/library/dd-lambda-nodejs-runtime:dev''
      else if rt = ''python3'' then
        env_binary env ''LAMBDA_PYTHON3_CONTAINER_IMAGE'' ''docker.io/library/dd-lambda-python3-runtime:dev''
      else if rt = ''ruby'' then
        env_binary env ''LAMBDA_RUBY_CONTAINER_IMAGE'' ''docker.io/library/dd-lambda-ruby-runtime:dev''
      else if rt = ''bash'' then
        env_binary env ''LAMBDA_BASH_CONTAINER_IMAGE'' ''docker.io/library/dd-lambda-bash-runtime:dev''
      else if rt = ''golang'' then
        env_binary env ''LAMBDA_GOLANG_CONTAINER_IMAGE'' ''docker.io/library/dd-lambda-golang-runtime:dev''
      else if rt = ''dart'' then
        env_binary env ''LAMBDA_DART_CONTAINER_IMAGE'' ''docker.io/library/dd-lambda-dart-runtime:dev''
      else if rt = ''erlang'' then
        env_binary env ''LAMBDA_ERLANG_CONTAINER_IMAGE'' ''docker.io/library/dd-lambda-erlang-runtime:dev''
      else if rt = ''elixir'' then
        env_binary env ''LAMBDA_ELIXIR_CONTAINER_IMAGE'' ''docker.io/library/dd-lambda-elixir-runtime:dev''
      else if rt = ''java'' then
        env_binary env ''LAMBDA_JAVA_CONTAINER_IMAGE'' ''docker.io/library/dd-lambda-java-runtime:dev''
      else [])"

definition safe_timeout_value :: "string \<Rightarrow> string option" where
  "safe_timeout_value v =
     (if 1 \<le> length v \<and> length v \<le> 5 \<and> list_all is_ascii_digit v then Some v else None)"

definition wrap_with_timeout :: "string \<Rightarrow> string \<Rightarrow> string" where
  "wrap_with_timeout seconds command =
     (case safe_timeout_value seconds of
        Some s \<Rightarrow> ''timeout --kill-after=10 '' @ s @ '' '' @ command
      | None \<Rightarrow> command)"

definition docker_compatible_run_args :: "string \<Rightarrow> string \<Rightarrow> string \<Rightarrow> string \<Rightarrow> string" where
  "docker_compatible_run_args network memory cpus img =
     '' run --rm -i --pull=never --read-only --tmpfs /tmp:rw,noexec,nosuid,size=16m --network '' @
     shell_word network @
     '' --user 10001:10001 --cap-drop ALL --security-opt no-new-privileges --pids-limit 64 --ulimit nofile=64:64 --memory '' @
     shell_word memory @ '' --cpus '' @ shell_word cpus @ '' '' @ shell_word img"

definition container_command :: "environ \<Rightarrow> string \<Rightarrow> string \<Rightarrow> string + string" where
  "container_command env rt def =
     (let image0 = (if json_string_field def ''containerBuildStatus'' = ''built''
                    then json_string_field def ''containerImage'' else []);
          img = (if image0 = [] then default_container_image env rt else image0)
      in if \<not> safe_container_image img then Inl ''containerImage contains unsupported characters''
         else
           let namespace = env_binary env ''LAMBDA_CONTAINER_NAMESPACE'' ''dd-lambda'';
               network = env_binary env ''LAMBDA_CONTAINER_NETWORK'' ''bridge'';
               memory = env_binary env ''LAMBDA_CONTAINER_MEMORY'' ''256m'';
               cpus = env_binary env ''LAMBDA_CONTAINER_CPUS'' ''0.50'';
               timeout_secs = env_binary env ''LAMBDA_CONTAINER_INVOKE_TIMEOUT_SECONDS'' ''120'';
               runner = env_binary env ''LAMBDA_CONTAINER_RUNNER'' ''nerdctl'';
               args = docker_compatible_run_args network memory cpus img
           in if runner = ''docker'' then
                Inr (wrap_with_timeout timeout_secs
                  (shell_word (env_binary env ''LAMBDA_CONTAINER_DOCKER'' ''/usr/bin/docker'') @ args))
              else if runner = ''podman'' then
                Inr (wrap_with_timeout timeout_secs
                  (shell_word (env_binary env ''LAMBDA_CONTAINER_PODMAN'' ''/usr/bin/podman'') @ args))
              else if runner = ''nerdctl'' then
                Inr (wrap_with_timeout timeout_secs
                  (shell_word (env_binary env ''LAMBDA_CONTAINER_NERDCTL'' ''/usr/local/bin/nerdctl'') @
                   '' -n '' @ shell_word namespace @ args))
              else Inl (''unsupported LAMBDA_CONTAINER_RUNNER (expected nerdctl|docker|podman): '' @ runner))"

definition command_for_definition :: "environ \<Rightarrow> string \<Rightarrow> string \<Rightarrow> string + string" where
  "command_for_definition env fallback_command def =
     (let rt = runtime_from_definition def
      in if \<not> supported_runtime rt then Inl (''unsupported lambda runtime: '' @ rt)
         else if json_bool_field def ''containerized'' False then container_command env rt def
         else if host_runtime_allowed env rt then
           Inr (case host_command env rt of Inr c \<Rightarrow> c | Inl _ \<Rightarrow> fallback_command)
         else Inl (''lambda runtime requires containerized=true for host execution: '' @ rt))"

definition invocation_payload :: "string \<Rightarrow> string \<Rightarrow> string \<Rightarrow> string" where
  \<open>invocation_payload slug def request =
     ''{"slug":"'' @ json_escape slug @ ''","definition":'' @ def @ '',"request":'' @ request @ ''}''\<close>

definition check_payload :: "string \<Rightarrow> string" where
  \<open>check_payload def =
     (let s = json_string_field def ''slug'';
          slug = (if s = [] then ''lambda-check'' else s)
      in ''{"slug":"'' @ json_escape slug @ ''","definition":'' @ def @
         '',"request":{},"checkOnly":true}'')\<close>

definition normalize_request_payload :: "string \<Rightarrow> string" where
  "normalize_request_payload payload = (let t = trim payload in if t = [] then ''null'' else t)"

end
