(* ===== verification/Definition.thy ===== *)
theory Definition
  imports Command
begin

section \<open>Loading function definitions through psql\<close>

text \<open>
  The model of \<open>src/definition.rs\<close>, with the two helpers of \<open>src/function_control.rs\<close> it
  calls (\<open>valid_org_id\<close>, \<open>sql_text\<close>). The \<open>psql\<close> process is an argument: a function from
  the database URL and the statement to what the process did. Its output is UTF-8, on which
  \<open>from_utf8_lossy\<close> is the identity.
\<close>

datatype psql_result =
    SpawnFailed string
  | WaitFailed string
  | QueryTimedOut
  | Exited "int option" string string

type_synonym psql = "string \<Rightarrow> string \<Rightarrow> psql_result"

definition run_psql :: "psql \<Rightarrow> string \<Rightarrow> string \<Rightarrow> nat \<Rightarrow> string + string" where
  "run_psql psql database_url sql max_output_bytes =
     (case psql database_url sql of
        SpawnFailed e \<Rightarrow> Inl (''psql executable not found: '' @ e)
      | WaitFailed e \<Rightarrow> Inl (''psql failed: '' @ e)
      | QueryTimedOut \<Rightarrow> Inl ''lambda definition query timed out''
      | Exited code out err \<Rightarrow>
          (if max_output_bytes < length out then Inl ''lambda definition query exceeded byte limit''
           else if code \<noteq> Some 0 then
             Inl (''psql exited with status '' @
                  show_int (case code of Some c \<Rightarrow> c | None \<Rightarrow> -1) @ '': '' @ trim err)
           else Inr out))"

definition org_char :: "char \<Rightarrow> bool" where
  "org_char c \<longleftrightarrow> is_ascii_alphanumeric c \<or> c \<in> set ''._:/-''"

definition valid_org_id :: "string \<Rightarrow> bool" where
  "valid_org_id v \<longleftrightarrow> v \<noteq> [] \<and> length v \<le> 128 \<and> is_ascii_alphanumeric (hd v) \<and>
     \<not> str_contains v ''..'' \<and> \<not> str_contains v ''//'' \<and> list_all org_char v"

definition hex_digit :: "nat \<Rightarrow> char" where
  "hex_digit n = ''0123456789abcdef'' ! n"

definition hex_encode :: "string \<Rightarrow> string" where
  "hex_encode s = concat (map (\<lambda>c. [hex_digit (byte c div 16), hex_digit (byte c mod 16)]) s)"

definition sql_text :: "string \<Rightarrow> string" where
  "sql_text v =
     ''convert_from(decode('' @ [squote] @ hex_encode v @ [squote] @ '','' @
     [squote] @ ''hex'' @ [squote] @ ''),'' @ [squote] @ ''UTF8'' @ [squote] @ '')''"

definition sql_lit :: "string \<Rightarrow> string" where
  "sql_lit v = [squote] @ v @ [squote]"

text \<open>The field list of the projection, with \<open>'\<close> written \<open>squote\<close>.\<close>

definition projection :: "string" where
  "projection = concat (map (\<lambda>kv. sql_lit (fst kv) @ '', '' @ snd kv)
     [(''id'', ''id,''),
      (''slug'', ''coalesce(meta_data->>'' @ sql_lit ''fiduciaCustomerSlug'' @ '', slug),''),
      (''functionBody'', ''function_body,''), (''runtime'', ''runtime,''),
      (''entryCommand'', ''entry_command,''), (''reuseKey'', ''reuse_key,''),
      (''idleTimeoutSeconds'', ''idle_timeout_seconds,''), (''maxRunMs'', ''max_run_ms,''),
      (''containerized'', ''containerized,''), (''containerImage'', ''container_image,''),
      (''containerBuildStatus'', ''container_build_status,''),
      (''containerBuildError'', ''container_build_error,''),
      (''containerBuiltAt'', ''container_built_at,''), (''status'', ''status,''),
      (''labels'', ''labels,''),
      (''metaData'', ''(meta_data - '' @ sql_lit ''fiduciaOrgId'' @ '' - '' @
         sql_lit ''fiduciaCustomerSlug'' @ '')'')])"

text \<open>\<open>unreachable!\<close> on an invalid identifier is the value \<open>None\<close>.\<close>

definition lambda_definition_sql :: "identifier_kind \<Rightarrow> string \<Rightarrow> string option \<Rightarrow> string option" where
  "lambda_definition_sql kind identifier org_id =
     (let tenant_clause = (case org_id of
            None \<Rightarrow> []
          | Some org \<Rightarrow> '' and meta_data->>'' @ sql_lit ''fiduciaOrgId'' @ '' = '' @ sql_text org @
              '' and status = '' @ sql_lit ''active'');
          stmt = (\<lambda>where_clause.
            ''select jsonb_build_object('' @ projection @
            '')::text from lambda_functions as lambda_function_row where '' @ where_clause @
            '' and is_soft_deleted = false'' @ tenant_clause @ '' limit 1'')
      in (case kind of
            Uuid \<Rightarrow> Some (stmt (''id = '' @ sql_lit identifier))
          | Slug \<Rightarrow> Some (stmt (''slug = '' @ sql_lit identifier))
          | Invalid \<Rightarrow> None))"

definition load_function_definition_inner ::
    "psql \<Rightarrow> string option \<Rightarrow> string \<Rightarrow> string option \<Rightarrow> string + string" where
  "load_function_definition_inner psql database_url identifier org_id =
     (case lambda_definition_sql (identifier_kind_of identifier) identifier org_id of
        None \<Rightarrow> Inl ''valid lambda function UUID or slug is required''
      | Some sql \<Rightarrow>
          (case database_url of
             None \<Rightarrow> Inl ''LAMBDA_DATABASE_URL is required''
           | Some url \<Rightarrow>
               (case run_psql psql url sql 1048576 of
                  Inl e \<Rightarrow> Inl e
                | Inr out \<Rightarrow>
                    (let trimmed = trim out
                     in if trimmed = [] then Inl (''lambda function not found: '' @ identifier)
                        else Inr trimmed))))"

definition load_function_definition :: "psql \<Rightarrow> string option \<Rightarrow> string \<Rightarrow> string + string" where
  "load_function_definition psql database_url identifier =
     load_function_definition_inner psql database_url identifier None"

definition load_function_definition_for_org ::
    "psql \<Rightarrow> string option \<Rightarrow> string \<Rightarrow> string \<Rightarrow> string + string" where
  "load_function_definition_for_org psql database_url identifier org_id =
     (if \<not> valid_org_id org_id then Inl ''valid fiducia organization is required''
      else load_function_definition_inner psql database_url identifier (Some org_id))"

end
