(* ===== verification/Store.thy ===== *)
theory Store
  imports Definition
begin

section \<open>The durable run store\<close>

text \<open>
  The model of \<open>src/workflow/store.rs\<close>. Every method holds the mutex for its whole body, so
  each is one function from the map of runs to the map and its result; \<open>create_run\<close>, which
  takes the mutex twice, is given in two parts. A clock reading (\<open>now_ms()\<close>) is an argument,
  one per call in the source's order. The status is a string, as in the source.
\<close>

definition MAX_PENDING_SIGNALS :: nat where
  "MAX_PENDING_SIGNALS = 1024"

datatype commit = Committed string | Conflict string | CommitErr string

record run =
  r_id :: string
  r_definition_ref :: string
  r_status :: string
  r_input :: json
  r_context :: jobject
  r_steps :: "json list"
  r_default_retry :: json
  r_current_step_index :: nat
  r_attempt :: int
  r_signals :: "json list"
  r_wait_deadline_ms :: "int option"
  r_next_run_at_ms :: int
  r_lease_until_ms :: int
  r_idempotency_key :: "string option"
  r_error :: "string option"
  r_step_runs :: "json list"
  r_created_at :: int
  r_updated_at :: int
  r_version :: u64

type_synonym store = "run hmap"

definition run_to_json :: "run \<Rightarrow> json" where
  "run_to_json r = JObj (obj_of
     [(''id'', JStr (r_id r)),
      (''definitionRef'', JStr (r_definition_ref r)),
      (''status'', JStr (r_status r)),
      (''input'', r_input r),
      (''context'', JObj (r_context r)),
      (''steps'', JArr (r_steps r)),
      (''defaultRetry'', r_default_retry r),
      (''currentStepIndex'', j_nat (r_current_step_index r)),
      (''attempt'', j_i64 (r_attempt r)),
      (''signals'', JArr (r_signals r)),
      (''waitDeadlineMs'', j_opt j_i64 (r_wait_deadline_ms r)),
      (''idempotencyKey'', j_opt JStr (r_idempotency_key r)),
      (''error'', j_opt JStr (r_error r)),
      (''createdAt'', j_i64 (r_created_at r)),
      (''updatedAt'', j_i64 (r_updated_at r))])"

record run_view =
  v_json :: json
  v_version :: u64

definition terminal_status :: "string \<Rightarrow> bool" where
  "terminal_status s \<longleftrightarrow> s \<in> {''completed'', ''failed'', ''canceled''}"

definition run_json :: "serde \<Rightarrow> run \<Rightarrow> string" where
  "run_json sj r = sj_print sj (run_to_json r)"

subsection \<open>Creation and the external API\<close>

definition run_for_idempotency_key :: "serde \<Rightarrow> store \<Rightarrow> string \<Rightarrow> string option" where
  "run_for_idempotency_key sj st key =
     map_option (run_json sj) (find (\<lambda>r. r_idempotency_key r = Some key) (map snd st))"

definition extract_steps :: "json \<Rightarrow> json list \<times> json" where
  "extract_steps obj =
     (let inner = (\<lambda>k. case jget obj ''definition'' of None \<Rightarrow> None | Some d \<Rightarrow> jget d k);
          pick = (\<lambda>k. case jget obj k of Some v \<Rightarrow> Some v | None \<Rightarrow> inner k);
          steps = (case pick ''steps'' of
              Some s \<Rightarrow> (case as_array s of Some xs \<Rightarrow> xs | None \<Rightarrow> [])
            | None \<Rightarrow> []);
          default_retry = (case pick ''defaultRetry'' of Some v \<Rightarrow> v | None \<Rightarrow> JObj [])
      in (steps, default_retry))"

definition parse_obj :: "serde \<Rightarrow> string \<Rightarrow> jobject" where
  "parse_obj sj s = (case sj_parse sj s of Inr (JObj m) \<Rightarrow> m | _ \<Rightarrow> [])"

definition parse_or_null :: "serde \<Rightarrow> string \<Rightarrow> json" where
  "parse_or_null sj s = (case sj_parse sj s of Inr v \<Rightarrow> v | Inl _ \<Rightarrow> JNull)"

definition workflow_definition_sql :: "string \<Rightarrow> string option" where
  "workflow_definition_sql identifier =
     (let stmt = (\<lambda>where_clause.
        ''select jsonb_build_object('' @ sql_lit ''id'' @ '', id, '' @ sql_lit ''slug'' @ '', slug, '' @
        sql_lit ''steps'' @ '', steps_json::jsonb, '' @ sql_lit ''defaultRetry'' @
        '', default_retry_json::jsonb)::text from workflow_definitions where '' @ where_clause @
        '' and is_soft_deleted = false limit 1'')
      in (case identifier_kind_of identifier of
            Uuid \<Rightarrow> Some (stmt (''id = '' @ sql_lit identifier))
          | Slug \<Rightarrow> Some (stmt (''slug = '' @ sql_lit identifier))
          | Invalid \<Rightarrow> None))"

definition load_workflow_definition :: "psql \<Rightarrow> string \<Rightarrow> string \<Rightarrow> string + string" where
  "load_workflow_definition psql database_url identifier =
     (case workflow_definition_sql identifier of
        None \<Rightarrow> Inl ''valid workflow definition UUID or slug is required''
      | Some sql \<Rightarrow>
          (case psql database_url sql of
             SpawnFailed e \<Rightarrow> Inl (''psql executable not found: '' @ e)
           | QueryTimedOut \<Rightarrow> Inl ''workflow definition query timed out''
           | WaitFailed e \<Rightarrow> Inl (''psql failed: '' @ e)
           | Exited code out err \<Rightarrow>
               (if code \<noteq> Some 0 then
                  Inl (''psql exited '' @ show_int (case code of Some c \<Rightarrow> c | None \<Rightarrow> -1) @
                       '': '' @ trim err)
                else if trim out = [] then Inl (''workflow definition not found: '' @ identifier)
                else Inr (trim out))))"

definition resolve_definition ::
    "serde \<Rightarrow> psql \<Rightarrow> string option \<Rightarrow> string \<Rightarrow> string + (json list \<times> json)" where
  "resolve_definition sj psql database_url def_ref =
     (let trimmed = trim def_ref
      in if prefix ''{'' trimmed then
           (case sj_parse sj trimmed of
              Inl e \<Rightarrow> Inl (''invalid inline definition: '' @ e)
            | Inr obj \<Rightarrow> Inr (extract_steps obj))
         else
           (case database_url of
              None \<Rightarrow> Inl ''LAMBDA_DATABASE_URL is required to resolve workflow definitions''
            | Some db \<Rightarrow>
                (case load_workflow_definition psql db trimmed of
                   Inl e \<Rightarrow> Inl e
                 | Inr text \<Rightarrow>
                     (case sj_parse sj text of
                        Inl e \<Rightarrow> Inl (''workflow definition is not valid JSON: '' @ e)
                      | Inr obj \<Rightarrow> Inr (extract_steps obj)))))"

definition new_run ::
    "string \<Rightarrow> int \<Rightarrow> string \<Rightarrow> json \<Rightarrow> json list \<Rightarrow> json \<Rightarrow> string \<Rightarrow> run" where
  "new_run uuid now def_ref inp steps default_retry idem =
     \<lparr> r_id = uuid, r_definition_ref = def_ref, r_status = ''pending'', r_input = inp,
       r_context = [], r_steps = steps, r_default_retry = default_retry,
       r_current_step_index = 0, r_attempt = 0, r_signals = [], r_wait_deadline_ms = None,
       r_next_run_at_ms = now, r_lease_until_ms = 0,
       r_idempotency_key = (if idem \<noteq> [] then Some idem else None), r_error = None,
       r_step_runs = [], r_created_at = now, r_updated_at = now, r_version = 0 \<rparr>"

text \<open>
  The first critical section (the definition resolved, an existing run with the key is
  returned) and the second (the insertion). \<open>Inr (Inl s)\<close> is the early return.
\<close>

definition create_run_check ::
    "serde \<Rightarrow> psql \<Rightarrow> string option \<Rightarrow> store \<Rightarrow> string \<Rightarrow> string \<Rightarrow>
     string + (string + (json list \<times> json))" where
  "create_run_check sj psql database_url st def_ref idem =
     (case resolve_definition sj psql database_url def_ref of
        Inl e \<Rightarrow> Inl e
      | Inr (steps, default_retry) \<Rightarrow>
          (if steps = [] then Inl ''workflow definition has no steps''
           else
             (case (if idem \<noteq> [] then run_for_idempotency_key sj st idem else None) of
                Some existing \<Rightarrow> Inr (Inl existing)
              | None \<Rightarrow> Inr (Inr (steps, default_retry)))))"

definition create_run_insert :: "serde \<Rightarrow> store \<Rightarrow> run \<Rightarrow> store \<times> string" where
  "create_run_insert sj st r = (hm_put (r_id r) r st, run_json sj r)"

definition create_run ::
    "serde \<Rightarrow> psql \<Rightarrow> string option \<Rightarrow> string \<Rightarrow> int \<Rightarrow> store \<Rightarrow> string \<Rightarrow> string \<Rightarrow> string \<Rightarrow>
     store \<times> (string + string)" where
  "create_run sj psql database_url uuid now st def_ref input_json idem =
     (case create_run_check sj psql database_url st def_ref idem of
        Inl e \<Rightarrow> (st, Inl e)
      | Inr (Inl existing) \<Rightarrow> (st, Inr existing)
      | Inr (Inr (steps, default_retry)) \<Rightarrow>
          (let (st', out) = create_run_insert sj st
             (new_run uuid now def_ref (parse_or_null sj input_json) steps default_retry idem)
           in (st', Inr out)))"

definition deliver_signal ::
    "serde \<Rightarrow> int \<Rightarrow> int \<Rightarrow> store \<Rightarrow> string \<Rightarrow> string \<Rightarrow> string \<Rightarrow> store \<times> (string + string)" where
  [store_defs]: "deliver_signal sj t1 t2 st run_id name_json payload_json =
     (case hm_get st run_id of
        None \<Rightarrow> (st, Inl ''workflow run not found'')
      | Some r \<Rightarrow>
          (if terminal_status (r_status r) then (st, Inl ''workflow run is not active'')
           else if MAX_PENDING_SIGNALS \<le> length (r_signals r) then
             (st, Inl ''workflow run has too many undelivered signals'')
           else
             (let r' = r\<lparr>r_signals := r_signals r @ [JObj (obj_of
                           [(''name'', parse_or_null sj name_json),
                            (''payload'', parse_or_null sj payload_json)])],
                         r_next_run_at_ms := t1, r_lease_until_ms := 0, r_updated_at := t2,
                         r_version := r_version r + 1\<rparr>
              in (hm_put run_id r' st, Inr (run_json sj r')))))"

definition cancel_run :: "serde \<Rightarrow> int \<Rightarrow> store \<Rightarrow> string \<Rightarrow> store \<times> commit" where
  [store_defs]: "cancel_run sj t st run_id =
     (case hm_get st run_id of
        None \<Rightarrow> (st, CommitErr ''workflow run not found'')
      | Some r \<Rightarrow>
          (if terminal_status (r_status r) then (st, Conflict run_id)
           else
             (let r' = r\<lparr>r_status := ''canceled'', r_updated_at := t, r_version := r_version r + 1\<rparr>
              in (hm_put run_id r' st, Committed (run_json sj r')))))"

definition get_run_with_steps :: "serde \<Rightarrow> store \<Rightarrow> string \<Rightarrow> string + string" where
  "get_run_with_steps sj st run_id =
     (case hm_get st run_id of
        None \<Rightarrow> Inl ''workflow run not found''
      | Some r \<Rightarrow> Inr (sj_print sj (JObj (obj_of
          [(''ok'', JBool True), (''run'', run_to_json r), (''steps'', JArr (r_step_runs r))]))))"

text \<open>\<open>sort_by_key\<close> is stable; \<open>Reverse\<close> of the creation time is its negation.\<close>

definition list_runs :: "serde \<Rightarrow> store \<Rightarrow> string \<Rightarrow> int \<Rightarrow> string + string" where
  "list_runs sj st def_ref limit =
     Inr (sj_print sj (JArr (map run_to_json (take (nat (max limit 0))
       (sort_key (\<lambda>r. - r_created_at r)
         (filter (\<lambda>r. def_ref = [] \<or> r_definition_ref r = def_ref) (map snd st)))))))"

definition gc_terminal :: "int \<Rightarrow> int \<Rightarrow> store \<Rightarrow> store \<times> nat" where
  [store_defs]: "gc_terminal t retain_ms st =
     (let cutoff = i64_sub t (max retain_ms 0);
          st' = hm_retain (\<lambda>r. \<not> (terminal_status (r_status r) \<and> r_updated_at r < cutoff)) st
      in (st', length st - length st'))"

subsection \<open>Claiming due runs\<close>

definition is_due :: "int \<Rightarrow> run \<Rightarrow> bool" where
  "is_due now r \<longleftrightarrow> \<not> terminal_status (r_status r) \<and> r_next_run_at_ms r \<le> now \<and>
     r_lease_until_ms r \<le> now"

definition due_ids :: "int \<Rightarrow> nat \<Rightarrow> store \<Rightarrow> string list" where
  "due_ids now limit st = take limit (sort (map r_id (filter (is_due now) (map snd st))))"

definition claim_one :: "int \<Rightarrow> int \<Rightarrow> run \<Rightarrow> run" where
  "claim_one now lease_ms r =
     r\<lparr>r_lease_until_ms := i64_add now lease_ms,
       r_status := (if r_status r = ''pending'' then ''running'' else r_status r),
       r_version := r_version r + 1\<rparr>"

definition view_of :: "int \<Rightarrow> run \<Rightarrow> run_view" where
  "view_of now r =
     \<lparr> v_json = (case run_to_json r of
          JObj m \<Rightarrow> JObj (obj_insert ''context'' (JObj (r_context r))
                            (obj_insert ''nowMs'' (j_i64 now) m))
        | j \<Rightarrow> j),
       v_version = r_version r \<rparr>"

fun claim_loop :: "int \<Rightarrow> int \<Rightarrow> string list \<Rightarrow> store \<Rightarrow> store \<times> run_view list" where
  "claim_loop now lease_ms [] st = (st, [])"
| "claim_loop now lease_ms (i # ids) st =
     (case hm_get st i of
        None \<Rightarrow> claim_loop now lease_ms ids st
      | Some r \<Rightarrow>
          (let r' = claim_one now lease_ms r;
               (st', views) = claim_loop now lease_ms ids (hm_put i r' st)
           in (st', view_of now r' # views)))"

definition claim_due :: "int \<Rightarrow> store \<Rightarrow> nat \<Rightarrow> int \<Rightarrow> store \<times> run_view list" where
  "claim_due now st limit lease_ms = claim_loop now lease_ms (due_ids now limit st) st"

subsection \<open>Commit operations\<close>

definition guard :: "store \<Rightarrow> string \<Rightarrow> u64 \<Rightarrow> commit + run" where
  "guard st run_id expected_version =
     (case hm_get st run_id of
        None \<Rightarrow> Inl (CommitErr ''workflow run not found'')
      | Some r \<Rightarrow>
          (if r_status r = ''canceled'' \<or> r_version r \<noteq> expected_version
           then Inl (Conflict run_id) else Inr r))"

text \<open>The shape the seven commits share: guard, update the run in place, print it.\<close>

definition commit_with ::
    "serde \<Rightarrow> (run \<Rightarrow> run) \<Rightarrow> store \<Rightarrow> string \<Rightarrow> u64 \<Rightarrow> store \<times> commit" where
  "commit_with sj upd st run_id version =
     (case guard st run_id version of
        Inl c \<Rightarrow> (st, c)
      | Inr r \<Rightarrow>
          (let r' = (upd r)\<lparr>r_version := r_version r + 1\<rparr>
           in (hm_put run_id r' st, Committed (run_json sj r'))))"

definition succeed_complete ::
    "serde \<Rightarrow> int \<Rightarrow> store \<Rightarrow> string \<Rightarrow> u64 \<Rightarrow> json option \<Rightarrow> string \<Rightarrow> string \<Rightarrow> store \<times> commit" where
  [store_defs]: "succeed_complete sj t st run_id version step_row output_json context_json =
     commit_with sj (\<lambda>r. r\<lparr>
       r_step_runs := (case step_row of Some row \<Rightarrow> r_step_runs r @ [row] | None \<Rightarrow> r_step_runs r),
       r_context := parse_obj sj context_json, r_status := ''completed'', r_error := None,
       r_lease_until_ms := 0, r_updated_at := t\<rparr>) st run_id version"

definition succeed_advance ::
    "serde \<Rightarrow> int \<Rightarrow> int \<Rightarrow> store \<Rightarrow> string \<Rightarrow> u64 \<Rightarrow> json \<Rightarrow> nat \<Rightarrow> string \<Rightarrow> store \<times> commit" where
  [store_defs]: "succeed_advance sj t1 t2 st run_id version step_row next_idx context_json =
     commit_with sj (\<lambda>r. r\<lparr>
       r_step_runs := r_step_runs r @ [step_row], r_context := parse_obj sj context_json,
       r_current_step_index := next_idx, r_attempt := 0, r_status := ''running'',
       r_next_run_at_ms := t1, r_lease_until_ms := 0, r_updated_at := t2\<rparr>) st run_id version"

definition fail_retry ::
    "serde \<Rightarrow> int \<Rightarrow> int \<Rightarrow> store \<Rightarrow> string \<Rightarrow> u64 \<Rightarrow> json \<Rightarrow> int \<Rightarrow> int \<Rightarrow> string \<Rightarrow>
     store \<times> commit" where
  [store_defs]: "fail_retry sj t1 t2 st run_id version step_row new_attempt backoff err =
     commit_with sj (\<lambda>r. r\<lparr>
       r_step_runs := r_step_runs r @ [step_row], r_attempt := new_attempt, r_error := Some err,
       r_status := ''running'', r_next_run_at_ms := i64_add t1 (max backoff 0),
       r_lease_until_ms := 0, r_updated_at := t2\<rparr>) st run_id version"

definition fail_terminal ::
    "serde \<Rightarrow> int \<Rightarrow> store \<Rightarrow> string \<Rightarrow> u64 \<Rightarrow> json \<Rightarrow> string \<Rightarrow> store \<times> commit" where
  [store_defs]: "fail_terminal sj t st run_id version step_row err =
     commit_with sj (\<lambda>r. r\<lparr>
       r_step_runs := r_step_runs r @ [step_row], r_status := ''failed'', r_error := Some err,
       r_lease_until_ms := 0, r_updated_at := t\<rparr>) st run_id version"

definition enter_sleep ::
    "serde \<Rightarrow> int \<Rightarrow> int \<Rightarrow> store \<Rightarrow> string \<Rightarrow> u64 \<Rightarrow> json \<Rightarrow> int \<Rightarrow> nat \<Rightarrow> store \<times> commit" where
  [store_defs]: "enter_sleep sj t1 t2 st run_id version step_row duration_ms next_idx =
     commit_with sj (\<lambda>r. r\<lparr>
       r_step_runs := r_step_runs r @ [step_row], r_current_step_index := next_idx,
       r_attempt := 0, r_status := ''running'',
       r_next_run_at_ms := i64_add t1 (max duration_ms 0), r_lease_until_ms := 0,
       r_updated_at := t2\<rparr>) st run_id version"

definition consume_signal ::
    "serde \<Rightarrow> int \<Rightarrow> int \<Rightarrow> store \<Rightarrow> string \<Rightarrow> u64 \<Rightarrow> json \<Rightarrow> nat \<Rightarrow> string \<Rightarrow> nat \<Rightarrow>
     store \<times> commit" where
  [store_defs]: "consume_signal sj t1 t2 st run_id version step_row next_idx context_json position =
     commit_with sj (\<lambda>r. r\<lparr>
       r_step_runs := r_step_runs r @ [step_row],
       r_signals := (if position < length (r_signals r)
                     then remove_nth position (r_signals r) else r_signals r),
       r_context := parse_obj sj context_json, r_current_step_index := next_idx,
       r_attempt := 0, r_status := ''running'', r_wait_deadline_ms := None,
       r_next_run_at_ms := t1, r_lease_until_ms := 0, r_updated_at := t2\<rparr>) st run_id version"

definition park_wait ::
    "serde \<Rightarrow> int \<Rightarrow> int \<Rightarrow> store \<Rightarrow> string \<Rightarrow> u64 \<Rightarrow> int option \<Rightarrow> store \<times> commit" where
  [store_defs]: "park_wait sj t1 t2 st run_id version deadline =
     commit_with sj (\<lambda>r.
       (let wd = map_option (\<lambda>d. i64_add t1 d) deadline
        in r\<lparr>r_status := ''waiting'', r_wait_deadline_ms := wd,
             r_next_run_at_ms := (case wd of Some d \<Rightarrow> d | None \<Rightarrow> i64_max),
             r_lease_until_ms := 0, r_updated_at := t2\<rparr>)) st run_id version"

definition repark_wait :: "serde \<Rightarrow> int \<Rightarrow> store \<Rightarrow> string \<Rightarrow> u64 \<Rightarrow> store \<times> commit" where
  [store_defs]: "repark_wait sj t st run_id version =
     commit_with sj (\<lambda>r. r\<lparr>r_status := ''waiting'',
       r_next_run_at_ms := (case r_wait_deadline_ms r of Some d \<Rightarrow> d | None \<Rightarrow> i64_max),
       r_lease_until_ms := 0, r_updated_at := t\<rparr>) st run_id version"

subsection \<open>What every mutation keeps, and the contract of a commit\<close>

text \<open>
  \<open>same_identity\<close>: the fields no operation on an existing run changes. \<open>successor\<close>: what a
  committed transition does besides the fields its own operation sets.
\<close>

definition same_identity :: "run \<Rightarrow> run \<Rightarrow> bool" where
  "same_identity r r' \<longleftrightarrow> r_id r' = r_id r \<and> r_definition_ref r' = r_definition_ref r \<and>
     r_input r' = r_input r \<and> r_steps r' = r_steps r \<and> r_default_retry r' = r_default_retry r \<and>
     r_idempotency_key r' = r_idempotency_key r \<and> r_created_at r' = r_created_at r"

definition successor :: "run \<Rightarrow> run \<Rightarrow> bool" where
  "successor r r' \<longleftrightarrow> same_identity r r' \<and> r_version r' = r_version r + 1 \<and>
     r_lease_until_ms r' = 0 \<and> prefix (r_step_runs r) (r_step_runs r')"

lemma successor_same: "successor r r' \<Longrightarrow> same_identity r r'"
  by (simp add: successor_def)

lemma successor_version [simp]: "successor r r' \<Longrightarrow> r_version r' = r_version r + 1"
  by (simp add: successor_def)

lemma commit_with_None:
  "hm_get st i = None \<Longrightarrow> commit_with sj upd st i v = (st, CommitErr ''workflow run not found'')"
  by (simp add: commit_with_def guard_def)

lemma commit_with_refused:
  "hm_get st i = Some r \<Longrightarrow> r_status r = ''canceled'' \<or> r_version r \<noteq> v \<Longrightarrow>
     commit_with sj upd st i v = (st, Conflict i)"
  by (auto simp: commit_with_def guard_def)

lemma commit_with_applied:
  "hm_get st i = Some r \<Longrightarrow> r_status r \<noteq> ''canceled'' \<Longrightarrow> r_version r = v \<Longrightarrow>
     commit_with sj upd st i v =
       (hm_put i ((upd r)\<lparr>r_version := r_version r + 1\<rparr>) st,
        Committed (run_json sj ((upd r)\<lparr>r_version := r_version r + 1\<rparr>)))"
  by (simp add: commit_with_def guard_def Let_def)

lemmas commit_with_simps = commit_with_None commit_with_refused commit_with_applied

text \<open>
  The contract the engine relies on. A commit addressed at an unknown run, at a canceled run or
  with a version that is not the current one changes nothing; otherwise it replaces that run
  by a successor, and no other run changes.
\<close>

locale optimistic_commit =
  fixes commit :: "store \<Rightarrow> string \<Rightarrow> u64 \<Rightarrow> store \<times> commit"
  assumes absent_law: "hm_get st i = None \<Longrightarrow>
      commit st i v = (st, CommitErr ''workflow run not found'')"
    and refused_law: "hm_get st i = Some r \<Longrightarrow> r_status r = ''canceled'' \<or> r_version r \<noteq> v \<Longrightarrow>
      commit st i v = (st, Conflict i)"
    and applied_law: "hm_get st i = Some r \<Longrightarrow> r_status r \<noteq> ''canceled'' \<Longrightarrow> r_version r = v \<Longrightarrow>
      \<exists>r' out. commit st i v = (hm_put i r' st, Committed out) \<and> successor r r'"
begin

lemma committed_cases:
  assumes "commit st i v = (st', Committed out)"
  obtains r r' where "hm_get st i = Some r" "r_status r \<noteq> ''canceled''" "r_version r = v"
    "st' = hm_put i r' st" "successor r r'"
proof (cases "hm_get st i")
  case None
  from assms absent_law [OF this, of v] show ?thesis by simp
next
  case (Some r)
  show ?thesis
  proof (cases "r_status r = ''canceled'' \<or> r_version r \<noteq> v")
    case True
    with assms refused_law [OF Some, of v] show ?thesis by simp
  next
    case False
    then have "r_status r \<noteq> ''canceled''" "r_version r = v" by simp_all
    from applied_law [OF Some this] obtain r' o' where
      "commit st i v = (hm_put i r' st, Committed o')" "successor r r'" by blast
    with assms Some False show ?thesis by (intro that [of r r']) simp_all
  qed
qed

lemma outcome:
  "commit st i v = (st, CommitErr ''workflow run not found'') \<or> commit st i v = (st, Conflict i) \<or>
   (\<exists>st' out. commit st i v = (st', Committed out))"
  using absent_law applied_law refused_law
  by (cases "hm_get st i") (blast+)

lemma unchanged:
  assumes "commit st i v = (st', c)" and "\<nexists>out. c = Committed out"
  shows "st' = st"
  using outcome [of st i v] assms by auto

lemma frame:
  assumes "commit st i v = (st', c)" and "j \<noteq> i"
  shows "hm_get st' j = hm_get st j"
proof (cases "\<exists>out. c = Committed out")
  case True
  with assms(1) obtain out where "commit st i v = (st', Committed out)" by blast
  from committed_cases [OF this] assms(2) show ?thesis by (metis hm_get_put_other)
next
  case False
  from unchanged [OF assms(1) False] show ?thesis by simp
qed

lemma keeps_wf: "commit st i v = (st', c) \<Longrightarrow> hm_wf st \<Longrightarrow> hm_wf st'"
  using unchanged committed_cases
  by (cases c) (metis hm_wf_put, blast+)

text \<open>A version is spent by the commit that uses it, whatever commit comes next.\<close>

lemma exclusive:
  assumes other: "optimistic_commit commit'"
    and "commit st i v = (st', Committed out)"
  shows "commit' st' i v = (st', Conflict i)"
proof -
  from assms(2) obtain r r' where v: "r_version r = v" and st': "st' = hm_put i r' st"
    and succ: "successor r r'" by (rule committed_cases)
  have "hm_get st' i = Some r'" by (simp add: st')
  moreover have "r_version r' \<noteq> v" using succ v by simp
  ultimately show ?thesis using optimistic_commit.refused_law [OF other] by blast
qed

end

text \<open>Every update that keeps the identity, clears the lease and extends the history qualifies.\<close>

lemma optimistic_commit_with:
  assumes "\<And>r. same_identity r (upd r)" and "\<And>r. r_lease_until_ms (upd r) = 0"
    and "\<And>r. prefix (r_step_runs r) (r_step_runs (upd r))"
  shows "optimistic_commit (commit_with sj upd)"
proof
  fix st :: store and i v and r :: run
  assume h: "hm_get st i = Some r" "r_status r \<noteq> ''canceled''" "r_version r = v"
  let ?r' = "(upd r)\<lparr>r_version := r_version r + 1\<rparr>"
  from assms(1) [of r] have "same_identity r ?r'"
    unfolding same_identity_def by simp
  then have "successor r ?r'"
    unfolding successor_def by (simp add: assms(2,3))
  with commit_with_applied [OF h, of sj upd]
  show "\<exists>r' out. commit_with sj upd st i v = (hm_put i r' st, Committed out) \<and> successor r r'"
    by (intro exI conjI)
qed (simp_all add: commit_with_None commit_with_refused)

interpretation complete_op: optimistic_commit
    "\<lambda>st i v. succeed_complete sj t st i v row out ctx" for sj t row out ctx
  unfolding succeed_complete_def
  by (rule optimistic_commit_with) (auto simp: same_identity_def split: option.splits)

interpretation advance_op: optimistic_commit
    "\<lambda>st i v. succeed_advance sj t1 t2 st i v row idx ctx" for sj t1 t2 row idx ctx
  unfolding succeed_advance_def by (rule optimistic_commit_with) (auto simp: same_identity_def)

interpretation retry_op: optimistic_commit
    "\<lambda>st i v. fail_retry sj t1 t2 st i v row attempt backoff err" for sj t1 t2 row attempt backoff err
  unfolding fail_retry_def by (rule optimistic_commit_with) (auto simp: same_identity_def)

interpretation fail_op: optimistic_commit
    "\<lambda>st i v. fail_terminal sj t st i v row err" for sj t row err
  unfolding fail_terminal_def by (rule optimistic_commit_with) (auto simp: same_identity_def)

interpretation sleep_op: optimistic_commit
    "\<lambda>st i v. enter_sleep sj t1 t2 st i v row duration idx" for sj t1 t2 row duration idx
  unfolding enter_sleep_def by (rule optimistic_commit_with) (auto simp: same_identity_def)

interpretation consume_op: optimistic_commit
    "\<lambda>st i v. consume_signal sj t1 t2 st i v row idx ctx position" for sj t1 t2 row idx ctx position
  unfolding consume_signal_def by (rule optimistic_commit_with) (auto simp: same_identity_def)

interpretation park_op: optimistic_commit
    "\<lambda>st i v. park_wait sj t1 t2 st i v deadline" for sj t1 t2 deadline
  unfolding park_wait_def Let_def by (rule optimistic_commit_with) (auto simp: same_identity_def)

interpretation repark_op: optimistic_commit
    "\<lambda>st i v. repark_wait sj t st i v" for sj t
  unfolding repark_wait_def by (rule optimistic_commit_with) (auto simp: same_identity_def)

end
