(* ===== verification/Coord.thy ===== *)
theory Coord
  imports Json
begin

section \<open>Coordination through fiducia-node\<close>

text \<open>
  The model of \<open>src/coord.rs\<close>. The blocking client, and the decoders of the generated
  response types, are not under src/: they are the fields of the record \<open>client\<close>, an argument
  of each operation (the behaviour of the node at the moment of the call). A call runs on the
  blocking pool, so its outcome has three forms.
\<close>

subsection \<open>Constants and data\<close>

definition RUN_LEASE_TTL_MS :: u64 where
  "RUN_LEASE_TTL_MS = 60000"

definition MAX_RENEWAL_INTERVAL_MS :: u64 where
  "MAX_RENEWAL_INTERVAL_MS = 20000"

definition SERVICE_NAME :: string where
  "SERVICE_NAME = ''fiducia-lambda-service''"

definition SERVICE_REGISTRATION_TTL_MS :: u64 where
  "SERVICE_REGISTRATION_TTL_MS = 30000"

definition SERVICE_HEARTBEAT_INTERVAL_MS :: u64 where
  "SERVICE_HEARTBEAT_INTERVAL_MS = SERVICE_REGISTRATION_TTL_MS div 3"

definition SERVICE_REREGISTRATION_RETRY_MS :: u64 where
  "SERVICE_REREGISTRATION_RETRY_MS = 2000"

datatype 'a call = TaskFailed string | RequestFailed string | Returned 'a

record lock_handle =
  lh_keys :: "string list"
  lh_holder :: string
  lh_fencing_token :: u64
  lh_lease_expires_ms :: "u64 option"
  lh_ttl_ms :: u64

record service_instance =
  si_instance_id :: string
  si_address :: string
  si_lease_expires_ms :: int

record lock_renew_response =
  lr_renewed :: bool
  lr_reason :: string
  lr_holder :: "string option"
  lr_fencing_token :: "int option"
  lr_keys :: "string list option"
  lr_lease_expires_ms :: "int option"

record lock_release_response =
  ll_released :: bool
  ll_reason :: string
  ll_keys :: "string list option"

record client =
  cl_service_register :: "string \<Rightarrow> string \<Rightarrow> string \<Rightarrow> u64 \<Rightarrow> json call"
  cl_service_heartbeat :: "string \<Rightarrow> string \<Rightarrow> u64 \<Rightarrow> json call"
  cl_service_deregister :: "string \<Rightarrow> string \<Rightarrow> json call"
  cl_idempotency_claim :: "string \<Rightarrow> string \<Rightarrow> u64 \<Rightarrow> json call"
  cl_try_lock :: "string list \<Rightarrow> u64 \<Rightarrow> string \<Rightarrow> lock_handle option call"
  cl_renew_lock :: "lock_handle \<Rightarrow> u64 \<Rightarrow> json call"
  cl_release_lock :: "lock_handle \<Rightarrow> json call"
  cl_service_instance :: "json \<Rightarrow> string + service_instance"
  cl_lock_renew_response :: "json \<Rightarrow> string + lock_renew_response"
  cl_lock_release_response :: "json \<Rightarrow> string + lock_release_response"

record run_lease =
  rl_key :: string
  rl_holder :: string
  rl_fencing_token :: u64
  rl_lease_expires_ms :: "u64 option"
  rl_ttl_ms :: u64
  rl_authoritative :: bool

definition as_lock_handle :: "run_lease \<Rightarrow> lock_handle" where
  "as_lock_handle l =
     \<lparr> lh_keys = [rl_key l], lh_holder = rl_holder l, lh_fencing_token = rl_fencing_token l,
       lh_lease_expires_ms = rl_lease_expires_ms l, lh_ttl_ms = rl_ttl_ms l \<rparr>"

text \<open>
  The client's presence (\<open>inner.is_some()\<close>) with the base URL, secret and organization it was
  built from, the five atomics, and \<open>c_sent\<close>: the calls about the registration of this instance
  that have been handed to the client, in order.
\<close>

datatype node_call =
    SentRegister string string
  | SentHeartbeat string
  | SentDeregister string

record coordinator =
  c_client :: "(string \<times> string \<times> string) option"
  c_instance_id :: string
  c_service_address :: string
  c_healthy :: bool
  c_heartbeat_failures :: u64
  c_rereg_attempts :: u64
  c_rereg_failures :: u64
  c_recoveries :: u64
  c_sent :: "node_call list"

definition sends :: "node_call \<Rightarrow> coordinator \<Rightarrow> coordinator" where
  "sends call c = c\<lparr>c_sent := c_sent c @ [call]\<rparr>"

definition fresh_coordinator ::
    "(string \<times> string \<times> string) option \<Rightarrow> string \<Rightarrow> string \<Rightarrow> coordinator" where
  "fresh_coordinator cl instance_id address =
     \<lparr> c_client = cl, c_instance_id = instance_id, c_service_address = address,
       c_healthy = False, c_heartbeat_failures = 0, c_rereg_attempts = 0, c_rereg_failures = 0,
       c_recoveries = 0, c_sent = [] \<rparr>"

text \<open>\<open>map(str::trim).filter(|s| !s.is_empty())\<close>\<close>

definition trimmed :: "string option \<Rightarrow> string option" where
  "trimmed v = (case v of None \<Rightarrow> None | Some s \<Rightarrow> if trim s = [] then None else Some (trim s))"

definition coordinator_new ::
    "string option \<Rightarrow> string option \<Rightarrow> string \<Rightarrow> string option \<Rightarrow> string \<Rightarrow> bool \<Rightarrow>
     string + coordinator" where
  "coordinator_new base_url internal_secret org_id service_address instance_id allow_local =
     (case base_url of
        None \<Rightarrow>
          (if allow_local then Inr (fresh_coordinator None instance_id [])
           else Inl ''fiducia-node is required unless explicit local coordination is enabled'')
      | Some url \<Rightarrow>
          (case trimmed internal_secret of
             None \<Rightarrow> Inl ''fiducia-node coordination requires an internal secret''
           | Some secret \<Rightarrow>
               (let org = trim org_id
                in if org = [] \<or> 128 < length org \<or> has_whitespace org \<or> has_control org then
                     Inl ''fiducia-node coordination requires a valid org scope''
                   else
                     (case trimmed service_address of
                        None \<Rightarrow> Inl ''fiducia-node coordination requires a service address''
                      | Some address \<Rightarrow>
                          Inr (fresh_coordinator (Some (trim url, secret, org)) instance_id address)))))"

definition enabled :: "coordinator \<Rightarrow> bool" where
  "enabled c \<longleftrightarrow> c_client c \<noteq> None"

record registration_status =
  rs_configured :: bool
  rs_healthy :: bool
  rs_heartbeat_failures :: u64
  rs_rereg_attempts :: u64
  rs_rereg_failures :: u64
  rs_recoveries :: u64

definition registration_status_of :: "coordinator \<Rightarrow> registration_status" where
  "registration_status_of c =
     \<lparr> rs_configured = enabled c, rs_healthy = c_healthy c,
       rs_heartbeat_failures = c_heartbeat_failures c, rs_rereg_attempts = c_rereg_attempts c,
       rs_rereg_failures = c_rereg_failures c, rs_recoveries = c_recoveries c \<rparr>"

subsection \<open>Service registration\<close>

definition validate_service_instance ::
    "service_instance \<Rightarrow> string \<Rightarrow> string \<Rightarrow> string + unit" where
  "validate_service_instance i expected_id expected_address =
     (if si_instance_id i \<noteq> expected_id \<or> si_address i \<noteq> expected_address \<or>
         si_lease_expires_ms i \<le> 0
      then Inl ''service registration response did not preserve the exact instance lease''
      else Inr ())"

definition register_service_once :: "client \<Rightarrow> coordinator \<Rightarrow> coordinator \<times> (string + unit)" where
  "register_service_once cl c =
     (if \<not> enabled c then (c, Inr ())
      else (sends (SentRegister (c_instance_id c) (c_service_address c)) c,
        case cl_service_register cl SERVICE_NAME (c_instance_id c) (c_service_address c)
                SERVICE_REGISTRATION_TTL_MS of
           TaskFailed e \<Rightarrow> Inl (''service registration task failed: '' @ e)
         | RequestFailed e \<Rightarrow> Inl (''service registration request failed: '' @ e)
         | Returned response \<Rightarrow>
             (case Option.bind (jpointer [''result'', ''output'', ''registered''] response) as_bool of
                None \<Rightarrow> Inl ''service registration response omitted registered''
              | Some False \<Rightarrow> Inl ''fiducia-node rejected service registration''
              | Some True \<Rightarrow>
                  (case jpointer [''result'', ''output'', ''instance''] response of
                     None \<Rightarrow> Inl ''service registration response omitted instance''
                   | Some inst \<Rightarrow>
                       (case cl_service_instance cl inst of
                          Inl e \<Rightarrow> Inl (''invalid service registration response: '' @ e)
                        | Inr i \<Rightarrow> validate_service_instance i (c_instance_id c)
                                     (c_service_address c))))))"

definition register_service :: "client \<Rightarrow> coordinator \<Rightarrow> coordinator \<times> (string + unit)" where
  "register_service cl c =
     (if \<not> enabled c then (c, Inr ())
      else
        (case register_service_once cl c of
           (c1, Inr _) \<Rightarrow> (c1\<lparr>c_healthy := True\<rparr>, Inr ())
         | (c1, Inl e) \<Rightarrow> (c1\<lparr>c_healthy := False\<rparr>, Inl e)))"

definition heartbeat_service_once :: "client \<Rightarrow> coordinator \<Rightarrow> coordinator \<times> (string + unit)" where
  "heartbeat_service_once cl c =
     (if \<not> enabled c then (c, Inr ())
      else (sends (SentHeartbeat (c_instance_id c)) c,
        case cl_service_heartbeat cl SERVICE_NAME (c_instance_id c) SERVICE_REGISTRATION_TTL_MS of
           TaskFailed e \<Rightarrow> Inl (''service heartbeat task failed: '' @ e)
         | RequestFailed e \<Rightarrow> Inl (''service heartbeat request failed: '' @ e)
         | Returned response \<Rightarrow>
             (case jpointer [''result'', ''output''] response of
                None \<Rightarrow> Inl ''service heartbeat response omitted result.output''
              | Some out \<Rightarrow>
                  (if Option.bind (jget out ''heartbeat'') as_bool \<noteq> Some True then
                     Inl (''fiducia-node rejected service heartbeat: '' @
                       (case Option.bind (jget out ''reason'') as_str of
                          Some r \<Rightarrow> r | None \<Rightarrow> ''invalid_response''))
                   else
                     (case jget out ''instance'' of
                        None \<Rightarrow> Inl ''service heartbeat response omitted instance''
                      | Some inst \<Rightarrow>
                          (case cl_service_instance cl inst of
                             Inl e \<Rightarrow> Inl (''invalid service heartbeat response: '' @ e)
                           | Inr i \<Rightarrow> validate_service_instance i (c_instance_id c)
                                        (c_service_address c)))))))"

definition deregister_service :: "client \<Rightarrow> coordinator \<Rightarrow> coordinator \<times> (string + unit)" where
  "deregister_service cl c =
     (if \<not> enabled c then (c, Inr ())
      else
        (let c1 = sends (SentDeregister (c_instance_id c)) c
         in (case cl_service_deregister cl SERVICE_NAME (c_instance_id c) of
               TaskFailed e \<Rightarrow> (c1, Inl (''service deregistration task failed: '' @ e))
             | RequestFailed e \<Rightarrow> (c1, Inl (''service deregistration request failed: '' @ e))
             | Returned response \<Rightarrow>
                 (case Option.bind (jpointer [''result'', ''output'', ''deregistered''] response) as_bool of
                    None \<Rightarrow> (c1, Inl ''service deregistration response omitted deregistered'')
                  | Some _ \<Rightarrow> (c1\<lparr>c_healthy := False\<rparr>, Inr ())))))"

text \<open>
  The supervisor loop: what the \<open>select!\<close> sees next is the shutdown channel (closed, or a new
  value) or the end of the delay, when the node behaves as the given client.
\<close>

datatype sup_event = ShutdownClosed | ShutdownValue bool | DelayElapsed client

record supervisor =
  s_coord :: coordinator
  s_needs_registration :: bool
  s_returned :: bool

definition supervisor_start :: "bool \<Rightarrow> coordinator \<Rightarrow> supervisor" where
  "supervisor_start shutdown c =
     \<lparr> s_coord = c, s_needs_registration = False, s_returned = (\<not> enabled c \<or> shutdown) \<rparr>"

definition supervisor_delay :: "u64 \<Rightarrow> u64 \<Rightarrow> supervisor \<Rightarrow> u64" where
  "supervisor_delay heartbeat_interval retry_interval s =
     (if s_needs_registration s then retry_interval else heartbeat_interval)"

definition supervisor_tick :: "client \<Rightarrow> supervisor \<Rightarrow> supervisor" where
  "supervisor_tick cl s =
     (let c = s_coord s
      in if s_needs_registration s then
           (let c1 = c\<lparr>c_rereg_attempts := c_rereg_attempts c + 1\<rparr>
            in (case register_service_once cl c1 of
                  (c2, Inr _) \<Rightarrow> s\<lparr>s_coord := c2\<lparr>c_healthy := True, c_recoveries := c_recoveries c2 + 1\<rparr>,
                             s_needs_registration := False\<rparr>
                | (c2, Inl _) \<Rightarrow> s\<lparr>s_coord := c2\<lparr>c_healthy := False,
                             c_rereg_failures := c_rereg_failures c2 + 1\<rparr>\<rparr>))
         else
           (case heartbeat_service_once cl c of
              (c1, Inl _) \<Rightarrow> s\<lparr>s_coord := c1\<lparr>c_healthy := False,
                          c_heartbeat_failures := c_heartbeat_failures c1 + 1\<rparr>,
                         s_needs_registration := True\<rparr>
            | (c1, Inr _) \<Rightarrow> s\<lparr>s_coord := c1\<lparr>c_healthy := True\<rparr>\<rparr>))"

fun supervisor_step :: "supervisor \<Rightarrow> sup_event \<Rightarrow> supervisor" where
  "supervisor_step s ev =
     (if s_returned s then s
      else
        (case ev of
           ShutdownClosed \<Rightarrow> s\<lparr>s_returned := True\<rparr>
         | ShutdownValue b \<Rightarrow> (if b then s\<lparr>s_returned := True\<rparr> else s)
         | DelayElapsed cl \<Rightarrow> supervisor_tick cl s))"

definition supervise :: "supervisor \<Rightarrow> sup_event list \<Rightarrow> supervisor" where
  "supervise s evs = foldl supervisor_step s evs"

text \<open>
  \<open>maintain_service_registration\<close> after some events: its state and, unless it has returned, the
  time its next delay lasts.
\<close>

definition maintain_service_registration ::
    "bool \<Rightarrow> coordinator \<Rightarrow> sup_event list \<Rightarrow> supervisor \<times> u64" where
  "maintain_service_registration shutdown c evs =
     (let s = supervise (supervisor_start shutdown c) evs
      in (s, supervisor_delay SERVICE_HEARTBEAT_INTERVAL_MS SERVICE_REREGISTRATION_RETRY_MS s))"

subsection \<open>Idempotency claims\<close>

definition parse_idempotency_claim :: "json \<Rightarrow> string + bool" where
  "parse_idempotency_claim response =
     (case Option.bind (jpointer [''result'', ''output'', ''claimed''] response) as_bool of
        Some b \<Rightarrow> Inr b
      | None \<Rightarrow> Inl ''idempotency response omitted result.output.claimed'')"

definition claim_idempotency :: "client \<Rightarrow> coordinator \<Rightarrow> string \<Rightarrow> string + bool" where
  "claim_idempotency cl c key =
     (if \<not> enabled c then Inr True
      else
        (case cl_idempotency_claim cl key (c_instance_id c) 60000 of
           TaskFailed e \<Rightarrow> Inl e
         | RequestFailed e \<Rightarrow> Inl e
         | Returned v \<Rightarrow> parse_idempotency_claim v))"

subsection \<open>Run leases\<close>

definition run_lease_from_handle :: "string \<Rightarrow> u64 \<Rightarrow> lock_handle \<Rightarrow> string + run_lease" where
  "run_lease_from_handle key ttl_ms h =
     (if lh_keys h \<noteq> [key] \<or> trim (lh_holder h) = [] \<or> lh_fencing_token h = 0 \<or>
         (case lh_lease_expires_ms h of None \<Rightarrow> True | Some e \<Rightarrow> e = 0)
      then Inl ''acquired run lease did not contain an exact holder/fenced grant''
      else Inr \<lparr> rl_key = key, rl_holder = lh_holder h, rl_fencing_token = lh_fencing_token h,
                 rl_lease_expires_ms = lh_lease_expires_ms h, rl_ttl_ms = ttl_ms,
                 rl_authoritative = True \<rparr>)"

definition run_key :: "string \<Rightarrow> string" where
  "run_key run_id = ''workflow/run/'' @ run_id"

definition try_lease_run_with_ttl ::
    "client \<Rightarrow> coordinator \<Rightarrow> string \<Rightarrow> u64 \<Rightarrow> string + run_lease option" where
  "try_lease_run_with_ttl cl c run_id ttl_ms =
     (if \<not> enabled c then
        Inr (Some \<lparr> rl_key = run_key run_id, rl_holder = c_instance_id c, rl_fencing_token = 1,
                    rl_lease_expires_ms = None, rl_ttl_ms = ttl_ms, rl_authoritative = False \<rparr>)
      else
        (case cl_try_lock cl [run_key run_id] ttl_ms (c_instance_id c) of
           TaskFailed e \<Rightarrow> Inl (''run lease acquisition task failed: '' @ e)
         | RequestFailed e \<Rightarrow> Inl (''run lease acquisition request failed: '' @ e)
         | Returned None \<Rightarrow> Inr None
         | Returned (Some h) \<Rightarrow>
             (case run_lease_from_handle (run_key run_id) ttl_ms h of
                Inl e \<Rightarrow> Inl e | Inr l \<Rightarrow> Inr (Some l))))"

definition try_lease_run :: "client \<Rightarrow> coordinator \<Rightarrow> string \<Rightarrow> string + run_lease option" where
  "try_lease_run cl c run_id = try_lease_run_with_ttl cl c run_id RUN_LEASE_TTL_MS"

text \<open>\<open>u64::try_from(token).ok()\<close>\<close>

definition u64_try_from :: "int \<Rightarrow> u64 option" where
  "u64_try_from i = (if 0 \<le> i \<and> i < 18446744073709551616 then Some (word_of_int i) else None)"

definition renew_run_once :: "client \<Rightarrow> coordinator \<Rightarrow> run_lease \<Rightarrow> string + unit" where
  "renew_run_once cl c l =
     (if \<not> enabled c then
        (if rl_authoritative l then Inl ''authoritative run lease has no configured coordinator''
         else Inr ())
      else
        (case cl_renew_lock cl (as_lock_handle l) (rl_ttl_ms l) of
           TaskFailed e \<Rightarrow> Inl (''run lease renewal task failed: '' @ e)
         | RequestFailed e \<Rightarrow> Inl (''run lease renewal request failed: '' @ e)
         | Returned response \<Rightarrow>
             (case jpointer [''result'', ''output''] response of
                None \<Rightarrow> Inl ''run lease renewal response omitted result.output''
              | Some out \<Rightarrow>
                  (case cl_lock_renew_response cl out of
                     Inl e \<Rightarrow> Inl (''invalid run lease renewal response: '' @ e)
                   | Inr r \<Rightarrow>
                       (if \<not> lr_renewed r then
                          Inl (''fiducia-node rejected run lease renewal: '' @ lr_reason r)
                        else if lr_holder r \<noteq> Some (rl_holder l) \<or>
                             Option.bind (lr_fencing_token r) u64_try_from \<noteq> Some (rl_fencing_token l) \<or>
                             lr_keys r \<noteq> Some [rl_key l] \<or>
                             (case lr_lease_expires_ms r of None \<Rightarrow> True | Some e \<Rightarrow> e \<le> 0)
                        then Inl ''run lease renewal response did not preserve the exact grant''
                        else Inr ())))))"

definition renewal_interval_ms :: "run_lease \<Rightarrow> u64" where
  "renewal_interval_ms l =
     (let third = rl_ttl_ms l div 3
      in if third < 1 then 1
         else if MAX_RENEWAL_INTERVAL_MS < third then MAX_RENEWAL_INTERVAL_MS else third)"

text \<open>
  The renewal loop against the node's successive behaviours, one per interval: \<open>None\<close> while it
  is still waiting, \<open>Some r\<close> when it has returned \<open>r\<close>. A lease without authority waits for ever.
\<close>

fun maintain_run_lease :: "client list \<Rightarrow> coordinator \<Rightarrow> run_lease \<Rightarrow> (string + unit) option" where
  "maintain_run_lease [] c l = None"
| "maintain_run_lease (cl # cls) c l =
     (if \<not> rl_authoritative l then None
      else (case renew_run_once cl c l of Inl e \<Rightarrow> Some (Inl e) | Inr _ \<Rightarrow> maintain_run_lease cls c l))"

definition release_run :: "client \<Rightarrow> coordinator \<Rightarrow> run_lease \<Rightarrow> string + unit" where
  "release_run cl c l =
     (if \<not> enabled c then Inr ()
      else
        (case cl_release_lock cl (as_lock_handle l) of
           TaskFailed e \<Rightarrow> Inl (''run lease release task failed: '' @ e)
         | RequestFailed e \<Rightarrow> Inl (''run lease release request failed: '' @ e)
         | Returned response \<Rightarrow>
             (case jpointer [''result'', ''output''] response of
                None \<Rightarrow> Inl ''run lease release response omitted result.output''
              | Some out \<Rightarrow>
                  (case cl_lock_release_response cl out of
                     Inl e \<Rightarrow> Inl (''invalid run lease release response: '' @ e)
                   | Inr r \<Rightarrow>
                       (if \<not> ll_released r then
                          Inl (''fiducia-node rejected exact run lease release: '' @ ll_reason r)
                        else if ll_keys r \<noteq> Some [rl_key l] then
                          Inl ''run lease release response named a different grant''
                        else Inr ())))))"

end
