(* ===== verification/Engine.thy ===== *)
theory Engine
  imports Store Coord
begin

section \<open>The workflow engine\<close>

text \<open>
  The model of \<open>src/workflow/engine.rs\<close>: the pure helpers, the step handlers, and the
  operations of \<open>Engine\<close> as functions on its state. What a handler reads from outside (clock,
  generated identifiers, the JSON library, the child runner) is the record \<open>world\<close>.
\<close>

subsection \<open>Constants\<close>

definition DEFAULT_ACTIVITY_TIMEOUT_MS :: int where "DEFAULT_ACTIVITY_TIMEOUT_MS = 30000"
definition DEFAULT_ACTIVITY_IDLE_MS :: u64 where "DEFAULT_ACTIVITY_IDLE_MS = 300000"
definition DEFAULT_MAX_ATTEMPTS :: int where "DEFAULT_MAX_ATTEMPTS = 3"
definition MAX_ATTEMPTS_CAP :: int where "MAX_ATTEMPTS_CAP = 1000"
definition DEFAULT_BACKOFF_MS :: int where "DEFAULT_BACKOFF_MS = 1000"
definition DEFAULT_BACKOFF_FACTOR :: f64 where "DEFAULT_BACKOFF_FACTOR = Fin 2"
definition DEFAULT_MAX_BACKOFF_MS :: int where "DEFAULT_MAX_BACKOFF_MS = 60000"
definition MAX_CONTEXT_BYTES :: nat where "MAX_CONTEXT_BYTES = 4194304"

subsection \<open>State\<close>

record wf_metrics =
  m_runs_started :: u64
  m_runs_completed :: u64
  m_runs_failed :: u64
  m_runs_canceled :: u64
  m_steps_succeeded :: u64
  m_steps_failed :: u64
  m_steps_retried :: u64
  m_timers_started :: u64
  m_waits_started :: u64
  m_signals_delivered :: u64
  m_signals_consumed :: u64
  m_claims_total :: u64
  m_commit_conflicts :: u64
  m_commit_errors :: u64
  m_worker_exceptions :: u64

definition metrics_zero :: wf_metrics where
  "metrics_zero = \<lparr> m_runs_started = 0, m_runs_completed = 0, m_runs_failed = 0,
     m_runs_canceled = 0, m_steps_succeeded = 0, m_steps_failed = 0, m_steps_retried = 0,
     m_timers_started = 0, m_waits_started = 0, m_signals_delivered = 0, m_signals_consumed = 0,
     m_claims_total = 0, m_commit_conflicts = 0, m_commit_errors = 0, m_worker_exceptions = 0 \<rparr>"

definition render_row :: "string \<Rightarrow> u64 \<Rightarrow> string" where
  "render_row name v = name @ '' '' @ show_nat (unat v) @ [CHR 0x0A]"

definition wf_render :: "wf_metrics \<Rightarrow> string" where
  "wf_render m =
     ''# HELP workflow_engine Workflow execution engine counters'' @ [CHR 0x0A] @
     ''# TYPE workflow_runs_started_total counter'' @ [CHR 0x0A] @
     concat (map (\<lambda>nv. render_row (fst nv) (snd nv))
      [(''workflow_runs_started_total'', m_runs_started m),
       (''workflow_runs_completed_total'', m_runs_completed m),
       (''workflow_runs_failed_total'', m_runs_failed m),
       (''workflow_runs_canceled_total'', m_runs_canceled m),
       (''workflow_steps_succeeded_total'', m_steps_succeeded m),
       (''workflow_steps_failed_total'', m_steps_failed m),
       (''workflow_steps_retried_total'', m_steps_retried m),
       (''workflow_timers_started_total'', m_timers_started m),
       (''workflow_waits_started_total'', m_waits_started m),
       (''workflow_signals_delivered_total'', m_signals_delivered m),
       (''workflow_signals_consumed_total'', m_signals_consumed m),
       (''workflow_claims_total'', m_claims_total m),
       (''workflow_commit_conflicts_total'', m_commit_conflicts m),
       (''workflow_commit_errors_total'', m_commit_errors m),
       (''workflow_worker_exceptions_total'', m_worker_exceptions m)])"

text \<open>A published event: subject, message type, payload with its timestamp, deduplication key.\<close>

record published =
  p_subject :: string
  p_msg_type :: string
  p_payload :: json
  p_key :: string

text \<open>A detached task: the future that \<open>terminal_failure\<close> spawns, with what it has captured.\<close>

record failure_task =
  ft_run :: string
  ft_version :: u64
  ft_row :: json
  ft_name :: string
  ft_error :: string

record engine =
  e_store :: store
  e_metrics :: wf_metrics
  e_inflight :: u64
  e_events :: "published list"
  e_wake :: bool
  e_tasks :: "failure_task list"

text \<open>
  \<open>w_spawn_late\<close>: the runtime runs a task this worker spawns only after the worker has gone on;
  otherwise another thread runs it at once.
\<close>

record world =
  w_serde :: serde
  w_f64 :: f64_ops
  w_t1 :: int
  w_t2 :: int
  w_ts :: string
  w_uuid :: string
  w_event_uuid :: string
  w_subject :: string
  w_invoke :: "string \<Rightarrow> string \<Rightarrow> string \<Rightarrow> u64 \<Rightarrow> u64 \<Rightarrow> string + string"
  w_spawn_late :: bool

definition nudge :: "engine \<Rightarrow> engine" where
  "nudge e = e\<lparr>e_wake := True\<rparr>"

definition bump :: "(wf_metrics \<Rightarrow> wf_metrics) \<Rightarrow> engine \<Rightarrow> engine" where
  "bump f e = e\<lparr>e_metrics := f (e_metrics e)\<rparr>"

subsection \<open>Pure helpers\<close>

definition step_type :: "json \<Rightarrow> string" where
  "step_type step =
     (case Option.bind (jget step ''type'') as_str of
        None \<Rightarrow> ''activity''
      | Some t \<Rightarrow> if t = [] then ''activity'' else t)"

definition step_name :: "json \<Rightarrow> nat \<Rightarrow> string" where
  "step_name step idx =
     (case Option.bind (jget step ''name'') as_str of
        Some n \<Rightarrow> if n \<noteq> [] then n else ''step-'' @ show_nat idx
      | None \<Rightarrow> ''step-'' @ show_nat idx)"

definition nonempty_str :: "json \<Rightarrow> string \<Rightarrow> string option" where
  "nonempty_str v k =
     (case Option.bind (jget v k) as_str of
        Some s \<Rightarrow> if s \<noteq> [] then Some s else None
      | None \<Rightarrow> None)"

definition activity_function_ref :: "json \<Rightarrow> string + string" where
  "activity_function_ref step =
     (case nonempty_str step ''functionId'' of
        Some i \<Rightarrow> Inr i
      | None \<Rightarrow>
          (case nonempty_str step ''functionSlug'' of
             Some s \<Rightarrow> Inr s
           | None \<Rightarrow> Inl ''activity step requires functionId or functionSlug''))"

definition opt_insert :: "string \<Rightarrow> json option \<Rightarrow> jobject \<Rightarrow> jobject" where
  "opt_insert k v m = (case v of Some x \<Rightarrow> obj_insert k x m | None \<Rightarrow> m)"

definition step_row ::
    "nat \<Rightarrow> string \<Rightarrow> string \<Rightarrow> string \<Rightarrow> int \<Rightarrow> string \<Rightarrow> json option \<Rightarrow> json option \<Rightarrow> string option \<Rightarrow>
     int option \<Rightarrow> json" where
  "step_row idx name ty function_ref attempt status inp out err duration_ms =
     JObj (opt_insert ''durationMs'' (map_option j_i64 duration_ms)
       (opt_insert ''error'' (map_option JStr err)
         (opt_insert ''output'' out
           (opt_insert ''input'' inp
             (obj_of [(''index'', j_nat idx), (''name'', JStr name), (''type'', JStr ty),
                      (''functionRef'', JStr function_ref), (''attempt'', j_i64 attempt),
                      (''status'', JStr status)])))))"

definition retry_config :: "json \<Rightarrow> json \<Rightarrow> json" where
  "retry_config run step =
     (let default_retry = (case jget run ''defaultRetry'' of Some v \<Rightarrow> v | None \<Rightarrow> JObj []);
          step_retry = (case jget step ''retry'' of Some v \<Rightarrow> v | None \<Rightarrow> JObj [])
      in (case (as_object default_retry, as_object step_retry) of
            (Some d, Some s) \<Rightarrow> JObj (fold (\<lambda>kv. obj_insert (fst kv) (snd kv)) s d)
          | (Some d, None) \<Rightarrow> JObj d
          | (None, Some s) \<Rightarrow> JObj s
          | (None, None) \<Rightarrow> JObj []))"

definition int_field :: "json \<Rightarrow> string \<Rightarrow> int \<Rightarrow> int" where
  "int_field v k d = (case Option.bind (jget v k) as_i64 of Some i \<Rightarrow> i | None \<Rightarrow> d)"

definition clamp_i :: "int \<Rightarrow> int \<Rightarrow> int \<Rightarrow> int" where
  "clamp_i n lo hi = (if n < lo then lo else if hi < n then hi else n)"

definition max_attempts :: "json \<Rightarrow> int" where
  "max_attempts retry = clamp_i (int_field retry ''maxAttempts'' DEFAULT_MAX_ATTEMPTS) 1 MAX_ATTEMPTS_CAP"

definition backoff_ms :: "f64_ops \<Rightarrow> json \<Rightarrow> int \<Rightarrow> int" where
  "backoff_ms ops retry attempt =
     (let base = f64_of_i64 ops (max (int_field retry ''backoffMs'' DEFAULT_BACKOFF_MS) 0);
          factor = f64_max
            (case Option.bind (jget retry ''backoffFactor'') (as_f64 ops) of
               Some f \<Rightarrow> f | None \<Rightarrow> DEFAULT_BACKOFF_FACTOR) (Fin 1);
          max_backoff = int_field retry ''maxBackoffMs'' DEFAULT_MAX_BACKOFF_MS;
          expo = f64_of_i64 ops (min attempt 64);
          scaled = f64_mul ops base (f_powf ops factor expo)
      in min max_backoff (f64_to_i64 (f64_min scaled (Fin 1000000000000000))))"

definition decode_output :: "serde \<Rightarrow> string \<Rightarrow> json" where
  "decode_output sj out =
     (let trimmed = trim out
      in if trimmed = [] then JNull
         else (case sj_parse sj trimmed of Inr v \<Rightarrow> v | Inl _ \<Rightarrow> JStr out))"

definition raw :: "serde \<Rightarrow> string \<Rightarrow> json" where
  "raw sj s = (case sj_parse sj s of Inr v \<Rightarrow> v | Inl _ \<Rightarrow> JStr s)"

definition parse_object :: "serde \<Rightarrow> string \<Rightarrow> string + json" where
  "parse_object sj body =
     (let trimmed = trim body
      in if trimmed = [] then Inl ''request body is required''
         else
           (case sj_parse sj trimmed of
              Inr (JObj m) \<Rightarrow> Inr (JObj m)
            | Inr _ \<Rightarrow> Inl ''request body must be a JSON object''
            | Inl _ \<Rightarrow> Inl ''invalid JSON body''))"

definition env_int :: "environ \<Rightarrow> string \<Rightarrow> int \<Rightarrow> int \<Rightarrow> int \<Rightarrow> int" where
  "env_int env name dflt mn mx =
     (case Option.bind (env name) parse_i64 of
        Some v \<Rightarrow> if mn \<le> v \<and> v \<le> mx then v else dflt
      | None \<Rightarrow> dflt)"

fun first_present :: "json \<Rightarrow> string list \<Rightarrow> string" where
  "first_present obj [] = []"
| "first_present obj (k # ks) =
     (case nonempty_str obj k of Some s \<Rightarrow> s | None \<Rightarrow> first_present obj ks)"

definition engine_enabled :: "environ \<Rightarrow> bool" where
  "engine_enabled env \<longleftrightarrow>
     env ''WORKFLOW_ENGINE_ENABLED'' \<notin> {Some ''0'', Some ''false'', Some ''no''}"

subsection \<open>Events and commits\<close>

definition publish_event :: "world \<Rightarrow> json \<Rightarrow> engine \<Rightarrow> engine" where
  "publish_event w event e =
     (let event' = (case event of JObj m \<Rightarrow> JObj (obj_insert ''ts'' (JStr (w_ts w)) m) | v \<Rightarrow> v);
          msg_type = (case Option.bind (jget event' ''event'') as_str of
                        Some t \<Rightarrow> t | None \<Rightarrow> ''workflow.event'')
      in e\<lparr>e_events := e_events e @
            [\<lparr> p_subject = w_subject w, p_msg_type = msg_type, p_payload = event',
               p_key = ''workflow-event:'' @ w_event_uuid w \<rparr>]\<rparr>)"

text \<open>
  \<open>live\<close> is false when the future is dropped at the \<open>await\<close> of the publication (the run lease
  was lost): the commit and the counters have happened, the event has not.
\<close>

definition handle_commit ::
    "world \<Rightarrow> bool \<Rightarrow> commit \<Rightarrow> (wf_metrics \<Rightarrow> wf_metrics) \<Rightarrow> (string \<Rightarrow> json option) \<Rightarrow>
     engine \<Rightarrow> engine" where
  [engine_defs]: "handle_commit w live c on_ok ev e =
     (case c of
        Committed out \<Rightarrow>
          (let e1 = bump on_ok e
           in (case ev out of
                 Some event \<Rightarrow> if live then publish_event w event e1 else e1
               | None \<Rightarrow> e1))
      | Conflict _ \<Rightarrow> bump (\<lambda>m. m\<lparr>m_commit_conflicts := m_commit_conflicts m + 1\<rparr>) e
      | CommitErr _ \<Rightarrow> bump (\<lambda>m. m\<lparr>m_commit_errors := m_commit_errors m + 1\<rparr>) e)"

text \<open>Run a store commit on the engine's store, then its handler.\<close>

definition commit_then ::
    "world \<Rightarrow> bool \<Rightarrow> (store \<Rightarrow> store \<times> commit) \<Rightarrow> (wf_metrics \<Rightarrow> wf_metrics) \<Rightarrow>
     (string \<Rightarrow> json option) \<Rightarrow> engine \<Rightarrow> engine" where
  [engine_defs]: "commit_then w live op on_ok ev e =
     (let (st', c) = op (e_store e)
      in handle_commit w live c on_ok ev (e\<lparr>e_store := st'\<rparr>))"

definition no_event :: "string \<Rightarrow> json option" where
  "no_event s = None"

subsection \<open>Failure helpers\<close>

definition terminal_failure_row ::
    "world \<Rightarrow> bool \<Rightarrow> string \<Rightarrow> u64 \<Rightarrow> json \<Rightarrow> string \<Rightarrow> string \<Rightarrow> engine \<Rightarrow> engine" where
  [engine_defs]: "terminal_failure_row w live run_id version row name err e =
     commit_then w live
       (\<lambda>st. fail_terminal (w_serde w) (w_t1 w) st run_id version row err)
       (\<lambda>m. m\<lparr>m_steps_failed := m_steps_failed m + 1, m_runs_failed := m_runs_failed m + 1\<rparr>)
       (\<lambda>run. Some (JObj (obj_of [(''event'', JStr ''run.failed''), (''run'', raw (w_serde w) run),
                                  (''step'', JStr name), (''error'', JStr err)]))) e"

text \<open>
  \<open>terminal_failure\<close> does not commit: it spawns a task that does, in a later step if the runtime
  is late (\<open>run_detached\<close>), when the worker may have returned and given the run lease back.
\<close>

definition run_failure :: "world \<Rightarrow> failure_task \<Rightarrow> engine \<Rightarrow> engine" where
  "run_failure w t e =
     terminal_failure_row w True (ft_run t) (ft_version t) (ft_row t) (ft_name t) (ft_error t) e"

definition run_detached :: "world \<Rightarrow> failure_task \<Rightarrow> engine \<Rightarrow> engine" where
  "run_detached w t e = run_failure w t (e\<lparr>e_tasks := remove1 t (e_tasks e)\<rparr>)"

definition terminal_failure ::
    "world \<Rightarrow> string \<Rightarrow> run_view \<Rightarrow> json \<Rightarrow> nat \<Rightarrow> string \<Rightarrow> engine \<Rightarrow> engine" where
  [engine_defs]: "terminal_failure w run_id view step idx err e =
     (let name = step_name step idx;
          row = step_row idx name (step_type step) [] 0 ''failed'' None None (Some err) None;
          task = \<lparr> ft_run = run_id, ft_version = v_version view, ft_row = row, ft_name = name,
                   ft_error = err \<rparr>
      in if w_spawn_late w then e\<lparr>e_tasks := e_tasks e @ [task]\<rparr> else run_failure w task e)"

subsection \<open>Step handlers\<close>

definition complete_run :: "world \<Rightarrow> bool \<Rightarrow> string \<Rightarrow> run_view \<Rightarrow> engine \<Rightarrow> engine" where
  [engine_defs]: "complete_run w live run_id view e =
     (let ctx_json = sj_print (w_serde w) (jix (v_json view) ''context'')
      in commit_then w live
           (\<lambda>st. succeed_complete (w_serde w) (w_t1 w) st run_id (v_version view) None ctx_json ctx_json)
           (\<lambda>m. m\<lparr>m_runs_completed := m_runs_completed m + 1\<rparr>)
           (\<lambda>run. Some (JObj (obj_of [(''event'', JStr ''run.completed''),
                                      (''run'', raw (w_serde w) run)]))) e)"

definition view_attempt :: "run_view \<Rightarrow> int" where
  "view_attempt view = (case as_i64 (jix (v_json view) ''attempt'') of Some i \<Rightarrow> i | None \<Rightarrow> 0)"

definition view_context :: "run_view \<Rightarrow> jobject" where
  "view_context view =
     (case as_object (jix (v_json view) ''context'') of Some m \<Rightarrow> m | None \<Rightarrow> [])"

definition activity_success ::
    "world \<Rightarrow> bool \<Rightarrow> string \<Rightarrow> run_view \<Rightarrow> json \<Rightarrow> nat \<Rightarrow> nat \<Rightarrow> string \<Rightarrow> json \<Rightarrow> string \<Rightarrow>
     engine \<Rightarrow> engine" where
  [engine_defs]: "activity_success w live run_id view step idx total_steps function_ref step_input out e =
     (let sj = w_serde w;
          name = step_name step idx;
          output_value = decode_output sj out;
          ctx_json = sj_print sj (JObj (obj_insert name output_value (view_context view)))
      in if MAX_CONTEXT_BYTES < length ctx_json then
           terminal_failure w run_id view step idx
             (''workflow context exceeded '' @ show_nat MAX_CONTEXT_BYTES @ '' bytes'') e
         else
           (let row = step_row idx name ''activity'' function_ref (view_attempt view) ''succeeded''
                        (Some step_input) (Some output_value) None None
            in if total_steps \<le> idx + 1 then
                 commit_then w live
                   (\<lambda>st. succeed_complete sj (w_t1 w) st run_id (v_version view) (Some row)
                           (sj_print sj output_value) ctx_json)
                   (\<lambda>m. m\<lparr>m_steps_succeeded := m_steps_succeeded m + 1,
                          m_runs_completed := m_runs_completed m + 1\<rparr>)
                   (\<lambda>run. Some (JObj (obj_of [(''event'', JStr ''run.completed''),
                                              (''run'', raw sj run), (''step'', JStr name)]))) e
               else
                 (let e' = commit_then w live
                     (\<lambda>st. succeed_advance sj (w_t1 w) (w_t2 w) st run_id (v_version view) row
                             (idx + 1) ctx_json)
                     (\<lambda>m. m\<lparr>m_steps_succeeded := m_steps_succeeded m + 1\<rparr>)
                     (\<lambda>_. Some (JObj (obj_of [(''event'', JStr ''step.succeeded''),
                                              (''runId'', JStr run_id), (''step'', JStr name)]))) e
                  in if live then nudge e' else e')))"

definition activity_failure ::
    "world \<Rightarrow> bool \<Rightarrow> string \<Rightarrow> run_view \<Rightarrow> json \<Rightarrow> nat \<Rightarrow> string \<Rightarrow> json \<Rightarrow> string \<Rightarrow>
     engine \<Rightarrow> engine" where
  [engine_defs]: "activity_failure w live run_id view step idx function_ref step_input err e =
     (let name = step_name step idx;
          attempt = view_attempt view;
          new_attempt = i64_add attempt 1;
          retry = retry_config (v_json view) step;
          row = step_row idx name ''activity'' function_ref attempt ''failed'' (Some step_input)
                  None (Some err) None
      in if new_attempt < max_attempts retry then
           commit_then w live
             (\<lambda>st. fail_retry (w_serde w) (w_t1 w) (w_t2 w) st run_id (v_version view) row new_attempt
                     (backoff_ms (w_f64 w) retry attempt) err)
             (\<lambda>m. m\<lparr>m_steps_retried := m_steps_retried m + 1\<rparr>) no_event e
         else terminal_failure_row w live run_id (v_version view) row name err e)"

definition activity_payload :: "serde \<Rightarrow> string \<Rightarrow> run_view \<Rightarrow> json \<Rightarrow> nat \<Rightarrow> u64 \<Rightarrow> json" where
  "activity_payload sj run_id view step idx fencing_token = JObj (obj_of
     [(''runId'', JStr run_id), (''step'', JStr (step_name step idx)),
      (''input'', (case jget step ''input'' of Some v \<Rightarrow> v | None \<Rightarrow> JObj [])),
      (''context'', jix (v_json view) ''context''), (''runInput'', jix (v_json view) ''input''),
      (''fencingToken'', j_u64 fencing_token)])"

definition run_activity ::
    "world \<Rightarrow> bool \<Rightarrow> string \<Rightarrow> run_view \<Rightarrow> json \<Rightarrow> nat \<Rightarrow> nat \<Rightarrow> u64 \<Rightarrow> engine \<Rightarrow> engine" where
  [engine_defs]: "run_activity w live run_id view step idx total_steps fencing_token e =
     (case activity_function_ref step of
        Inl err \<Rightarrow> terminal_failure w run_id view step idx err e
      | Inr function_ref \<Rightarrow>
          (let step_input = (case jget step ''input'' of Some v \<Rightarrow> v | None \<Rightarrow> JObj []);
               payload = sj_print (w_serde w)
                 (activity_payload (w_serde w) run_id view step idx fencing_token);
               timeout_ms = int_field step ''timeoutMs'' DEFAULT_ACTIVITY_TIMEOUT_MS
           in (case w_invoke w DEFAULT_NODEJS_HOST_COMMAND function_ref payload
                      DEFAULT_ACTIVITY_IDLE_MS (i64_as_u64 (max timeout_ms 1000)) of
                 Inr out \<Rightarrow>
                   activity_success w live run_id view step idx total_steps function_ref step_input out e
               | Inl err \<Rightarrow>
                   activity_failure w live run_id view step idx function_ref step_input err e)))"

definition run_sleep :: "world \<Rightarrow> string \<Rightarrow> run_view \<Rightarrow> json \<Rightarrow> nat \<Rightarrow> engine \<Rightarrow> engine" where
  [engine_defs]: "run_sleep w run_id view step idx e =
     (let duration_ms = int_field step ''durationMs'' 0;
          row = step_row idx (step_name step idx) ''sleep'' [] 0 ''succeeded''
                  (Some (JObj (obj_of [(''durationMs'', j_i64 duration_ms)]))) None None (Some 0)
      in commit_then w True
           (\<lambda>st. enter_sleep (w_serde w) (w_t1 w) (w_t2 w) st run_id (v_version view) row duration_ms
                   (idx + 1))
           (\<lambda>m. m\<lparr>m_timers_started := m_timers_started m + 1\<rparr>) no_event e)"

definition signal_matches :: "string \<Rightarrow> json \<Rightarrow> bool" where
  "signal_matches signal_name sig \<longleftrightarrow> Option.bind (jget sig ''name'') as_str = Some signal_name"

definition run_wait_signal :: "world \<Rightarrow> string \<Rightarrow> run_view \<Rightarrow> json \<Rightarrow> nat \<Rightarrow> engine \<Rightarrow> engine" where
  [engine_defs]: "run_wait_signal w run_id view step idx e =
     (let sj = w_serde w;
          signal_name = (case Option.bind (jget step ''signalName'') as_str of Some s \<Rightarrow> s | None \<Rightarrow> []);
          signals = (case as_array (jix (v_json view) ''signals'') of Some xs \<Rightarrow> xs | None \<Rightarrow> []);
          name = step_name step idx
      in (case find_pos (signal_matches signal_name) 0 signals of
            Some (position, sig) \<Rightarrow>
              (let payload = (case jget sig ''payload'' of Some v \<Rightarrow> v | None \<Rightarrow> JNull);
                   ctx_json = sj_print sj (JObj (obj_insert name payload (view_context view)));
                   row = step_row idx name ''waitSignal'' [] 0 ''succeeded''
                     (Some (JObj (obj_of [(''signalName'', JStr signal_name)]))) (Some payload)
                     None (Some 0)
               in nudge (commit_then w True
                    (\<lambda>st. consume_signal sj (w_t1 w) (w_t2 w) st run_id (v_version view) row (idx + 1)
                            ctx_json position)
                    (\<lambda>m. m\<lparr>m_signals_consumed := m_signals_consumed m + 1\<rparr>) no_event e))
          | None \<Rightarrow>
              (let status = (case as_str (jix (v_json view) ''status'') of
                               Some s \<Rightarrow> s | None \<Rightarrow> ''running'')
               in if status = ''waiting'' then
                    (let now = (case as_i64 (jix (v_json view) ''nowMs'') of Some i \<Rightarrow> i | None \<Rightarrow> 0)
                     in (case as_i64 (jix (v_json view) ''waitDeadlineMs'') of
                           Some deadline \<Rightarrow>
                             (if deadline \<le> now then
                                terminal_failure w run_id view step idx
                                  (''signal wait timeout: '' @ signal_name) e
                              else commit_then w True
                                (\<lambda>st. repark_wait sj (w_t1 w) st run_id (v_version view)) id no_event e)
                         | None \<Rightarrow> commit_then w True
                             (\<lambda>st. repark_wait sj (w_t1 w) st run_id (v_version view)) id no_event e))
                  else
                    (let ms = int_field step ''waitTimeoutMs'' 0;
                         deadline = (if ms = 0 then None else Some ms)
                     in bump (\<lambda>m. m\<lparr>m_waits_started := m_waits_started m + 1\<rparr>)
                          (commit_then w True
                            (\<lambda>st. park_wait sj (w_t1 w) (w_t2 w) st run_id (v_version view) deadline)
                            id no_event e)))))"

subsection \<open>Advancing a run\<close>

definition view_steps :: "run_view \<Rightarrow> json list" where
  "view_steps view = (case as_array (jix (v_json view) ''steps'') of Some xs \<Rightarrow> xs | None \<Rightarrow> [])"

definition view_index :: "run_view \<Rightarrow> nat" where
  "view_index view =
     unat (i64_as_u64 (case as_i64 (jix (v_json view) ''currentStepIndex'') of
                         Some i \<Rightarrow> i | None \<Rightarrow> 0))"

definition do_process_run ::
    "world \<Rightarrow> bool \<Rightarrow> string \<Rightarrow> run_view \<Rightarrow> u64 \<Rightarrow> engine \<Rightarrow> engine \<times> (string + unit)" where
  [engine_defs]: "do_process_run w live run_id view fencing_token e =
     (let steps = view_steps view;
          idx = view_index view;
          total_steps = length steps
      in if total_steps \<le> idx then (complete_run w live run_id view e, Inr ())
         else
           (let step = steps ! idx; ty = step_type step
            in if ty = ''activity'' then
                 (run_activity w live run_id view step idx total_steps fencing_token e, Inr ())
               else if ty = ''sleep'' then (run_sleep w run_id view step idx e, Inr ())
               else if ty = ''waitSignal'' then (run_wait_signal w run_id view step idx e, Inr ())
               else (terminal_failure w run_id view step idx
                       (''unknown workflow step type: '' @ ty) e, Inr ())))"

text \<open>
  How the race of the processing future against the renewal loop ended: the work finished; or
  the lease was lost before the step committed anything; or it was lost while the event of a
  committed step was being published.
\<close>

datatype race = WorkFinished | LostBeforeCommit | LostDuringPublish

definition worker_exception :: "engine \<Rightarrow> engine" where
  "worker_exception = bump (\<lambda>m. m\<lparr>m_worker_exceptions := m_worker_exceptions m + 1\<rparr>)"

definition view_run_id :: "run_view \<Rightarrow> string" where
  "view_run_id view = (case as_str (jix (v_json view) ''id'') of Some s \<Rightarrow> s | None \<Rightarrow> [])"

definition process_run ::
    "world \<Rightarrow> client \<Rightarrow> coordinator \<Rightarrow> race \<Rightarrow> run_view \<Rightarrow> engine \<Rightarrow> engine" where
  "process_run w cl c race view e =
     (let run_id = view_run_id view
      in (case try_lease_run cl c run_id of
            Inr None \<Rightarrow> e
          | Inl _ \<Rightarrow> worker_exception e
          | Inr (Some lease) \<Rightarrow>
              (case race of
                 LostBeforeCommit \<Rightarrow> worker_exception e
               | LostDuringPublish \<Rightarrow> worker_exception
                   (fst (do_process_run w False run_id view (rl_fencing_token lease) e))
               | WorkFinished \<Rightarrow>
                   (let (e1, result) = do_process_run w True run_id view (rl_fencing_token lease) e;
                        e2 = (case result of Inl _ \<Rightarrow> worker_exception e1 | Inr _ \<Rightarrow> e1)
                    in (case release_run cl c lease of
                          Inl _ \<Rightarrow> worker_exception e2
                        | Inr _ \<Rightarrow> e2)))))"

subsection \<open>The scheduler and the public API\<close>

definition claim_and_dispatch ::
    "int \<Rightarrow> u64 \<Rightarrow> int \<Rightarrow> nat \<Rightarrow> engine \<Rightarrow> engine \<times> run_view list" where
  "claim_and_dispatch now max_inflight lease_ms batch e =
     (let free = (if e_inflight e < max_inflight then max_inflight - e_inflight e else 0)
      in if free = 0 then (e, [])
         else
           (let (st', views) = claim_due now (e_store e) (min (unat free) batch) lease_ms;
                e1 = bump (\<lambda>m. m\<lparr>m_claims_total := m_claims_total m + 1\<rparr>) (e\<lparr>e_store := st'\<rparr>)
            in (e1\<lparr>e_inflight := e_inflight e1 + of_nat (length views)\<rparr>, views)))"

definition worker_done :: "engine \<Rightarrow> engine" where
  "worker_done e = e\<lparr>e_inflight := e_inflight e - 1\<rparr>"

text \<open>\<open>get(k).and_then(as_array).is_some()\<close>, directly or inside \<open>definition\<close>.\<close>

definition has_inline_steps :: "json \<Rightarrow> bool" where
  "has_inline_steps obj \<longleftrightarrow>
     Option.bind (jget obj ''steps'') as_array \<noteq> None \<or>
     Option.bind (Option.bind (jget obj ''definition'') (\<lambda>d. jget d ''steps'')) as_array \<noteq> None"

definition start_request :: "serde \<Rightarrow> string \<Rightarrow> string + (string \<times> string \<times> string)" where
  "start_request sj body =
     (case parse_object sj body of
        Inl e \<Rightarrow> Inl e
      | Inr obj \<Rightarrow>
          (let inp = sj_print sj (case jget obj ''input'' of Some v \<Rightarrow> v | None \<Rightarrow> JNull);
               idem = first_present obj [''idempotencyKey'', ''idempotency_key'']
           in if has_inline_steps obj then Inr (sj_print sj obj, inp, idem)
              else
                (let r = first_present obj
                       [''definitionId'', ''definitionSlug'', ''definition'', ''slug'']
                 in if r = [] then Inl ''definitionId or definitionSlug is required''
                    else Inr (r, inp, idem))))"

text \<open>\<open>Some\<close> is the early return of \<open>start_run_from_body\<close> at its idempotency gate.\<close>

definition idempotency_gate ::
    "serde \<Rightarrow> client \<Rightarrow> coordinator \<Rightarrow> store \<Rightarrow> string \<Rightarrow> (string + string) option" where
  "idempotency_gate sj cl c st idem =
     (if idem = [] then None
      else
        (case run_for_idempotency_key sj st idem of
           Some existing \<Rightarrow> Some (Inr existing)
         | None \<Rightarrow>
             (case claim_idempotency cl c idem of
                Inl e \<Rightarrow> Some (Inl (''fiducia-node idempotency claim failed: '' @ e))
              | Inr claimed \<Rightarrow>
                  (if claimed then None
                   else Some (Inl ''workflow idempotency key already claimed'')))))"

definition start_run_from_body ::
    "world \<Rightarrow> client \<Rightarrow> coordinator \<Rightarrow> psql \<Rightarrow> string option \<Rightarrow> string \<Rightarrow> engine \<Rightarrow>
     engine \<times> (string + string)" where
  "start_run_from_body w cl c psql database_url body e =
     (case start_request (w_serde w) body of
        Inl err \<Rightarrow> (e, Inl err)
      | Inr (def_ref, inp, idem) \<Rightarrow>
          (case idempotency_gate (w_serde w) cl c (e_store e) idem of
             Some r \<Rightarrow> (e, r)
           | None \<Rightarrow>
               (case create_run (w_serde w) psql database_url (w_uuid w) (w_t1 w) (e_store e) def_ref
                       inp idem of
                  (st', Inl err) \<Rightarrow> (e\<lparr>e_store := st'\<rparr>, Inl err)
                | (st', Inr run) \<Rightarrow>
                    (publish_event w (JObj (obj_of [(''event'', JStr ''run.started''),
                                                    (''run'', raw (w_serde w) run)]))
                      (nudge (bump (\<lambda>m. m\<lparr>m_runs_started := m_runs_started m + 1\<rparr>)
                        (e\<lparr>e_store := st'\<rparr>))), Inr run))))"

definition signal_from_body ::
    "world \<Rightarrow> string \<Rightarrow> string \<Rightarrow> engine \<Rightarrow> engine \<times> (string + string)" where
  "signal_from_body w run_id body e =
     (case parse_object (w_serde w) body of
        Inl err \<Rightarrow> (e, Inl err)
      | Inr obj \<Rightarrow>
          (case jget obj ''name'' of
             None \<Rightarrow> (e, Inl ''signal name is required'')
           | Some name \<Rightarrow>
               (let payload = (case jget obj ''payload'' of Some v \<Rightarrow> v | None \<Rightarrow> JNull)
                in (case deliver_signal (w_serde w) (w_t1 w) (w_t2 w) (e_store e) run_id
                           (sj_print (w_serde w) name) (sj_print (w_serde w) payload) of
                      (st', Inl err) \<Rightarrow> (e\<lparr>e_store := st'\<rparr>, Inl err)
                    | (st', Inr run) \<Rightarrow>
                        (nudge (bump (\<lambda>m. m\<lparr>m_signals_delivered := m_signals_delivered m + 1\<rparr>)
                          (e\<lparr>e_store := st'\<rparr>)), Inr run)))))"

definition engine_cancel_run :: "world \<Rightarrow> string \<Rightarrow> engine \<Rightarrow> engine \<times> (string + string)" where
  "engine_cancel_run w run_id e =
     (case cancel_run (w_serde w) (w_t1 w) (e_store e) run_id of
        (st', Committed run) \<Rightarrow>
          (let e1 = bump (\<lambda>m. m\<lparr>m_runs_canceled := m_runs_canceled m + 1\<rparr>) (e\<lparr>e_store := st'\<rparr>)
           in (e1\<lparr>e_events := e_events e1 @
                 [\<lparr> p_subject = w_subject w, p_msg_type = ''run.canceled'',
                    p_payload = JObj (obj_of [(''event'', JStr ''run.canceled''),
                                              (''runId'', JStr run_id)]),
                    p_key = ''workflow:'' @ run_id @ '':run.canceled'' \<rparr>]\<rparr>, Inr run))
      | (st', Conflict _) \<Rightarrow> (e\<lparr>e_store := st'\<rparr>, Inl ''workflow run is not cancelable'')
      | (st', CommitErr err) \<Rightarrow> (e\<lparr>e_store := st'\<rparr>, Inl err))"

subsection \<open>The background loops\<close>

text \<open>
  \<open>start\<close>: with the engine disabled no loop is spawned. Otherwise one loop claims and dispatches,
  then pauses until the poll interval has passed or a nudge has left its permit (\<open>e_wake\<close>); the
  other one collects terminal runs every five minutes.
\<close>

record schedule =
  sch_poll_ms :: int
  sch_max_inflight :: u64
  sch_lease_ms :: int
  sch_batch :: nat
  sch_retain_ms :: int

definition engine_schedule :: "environ \<Rightarrow> schedule option" where
  "engine_schedule env =
     (if \<not> engine_enabled env then None
      else Some
        \<lparr> sch_poll_ms = env_int env ''WORKFLOW_POLL_MS'' 1000 50 600000,
          sch_max_inflight = i64_as_u64 (env_int env ''WORKFLOW_MAX_INFLIGHT'' 16 1 512),
          sch_lease_ms = env_int env ''WORKFLOW_LEASE_MS'' 60000 1000 600000,
          sch_batch = nat (env_int env ''WORKFLOW_CLAIM_BATCH'' 25 1 200),
          sch_retain_ms = env_int env ''WORKFLOW_RETAIN_TERMINAL_MS'' 3600000 60000 604800000 \<rparr>)"

definition poll_tick :: "schedule \<Rightarrow> int \<Rightarrow> engine \<Rightarrow> engine \<times> run_view list" where
  "poll_tick sc now e = claim_and_dispatch now (sch_max_inflight sc) (sch_lease_ms sc) (sch_batch sc) e"

definition poll_pause :: "schedule \<Rightarrow> engine \<Rightarrow> engine \<times> int" where
  "poll_pause sc e = (if e_wake e then (e\<lparr>e_wake := False\<rparr>, 0) else (e, sch_poll_ms sc))"

definition gc_tick :: "schedule \<Rightarrow> int \<Rightarrow> engine \<Rightarrow> engine" where
  "gc_tick sc now e = e\<lparr>e_store := fst (gc_terminal now (sch_retain_ms sc) (e_store e))\<rparr>"

definition fresh_engine :: engine where
  "fresh_engine = \<lparr> e_store = [], e_metrics = metrics_zero, e_inflight = 0, e_events = [], e_wake = False,
     e_tasks = [] \<rparr>"

end
