(* ===== verification/Step_Machine.thy ===== *)
theory Step_Machine
  imports Prelude
begin

section \<open>The abstract step machine of a run\<close>

text \<open>
  What \<open>src/workflow/engine.rs\<close> promises of one run, without versions, leases, clocks or JSON:
  a run advances through its steps in order, each step is tried a bounded number of times, and
  every attempt leaves one row in the history. \<open>n\<close> is the number of steps and \<open>cap i\<close> the
  attempt limit of step \<open>i\<close>. The concrete store and handlers refine this machine.
\<close>

datatype phase = Open | Done | Broken | Stopped

text \<open>Phases only move up in this order: the three terminal phases are its maximal elements.\<close>

instantiation phase :: order
begin

definition less_eq_phase :: "phase \<Rightarrow> phase \<Rightarrow> bool" where
  "less_eq_phase p q \<longleftrightarrow> p = q \<or> p = Open"

definition less_phase :: "phase \<Rightarrow> phase \<Rightarrow> bool" where
  "less_phase p q \<longleftrightarrow> p \<noteq> q \<and> p = Open"

instance
  by standard (auto simp: less_eq_phase_def less_phase_def)

end

lemma Open_le [simp]: "Open \<le> p"
  by (simp add: less_eq_phase_def)

lemma terminal_phase_le: "p \<noteq> Open \<Longrightarrow> p \<le> q \<longleftrightarrow> q = p"
  by (auto simp: less_eq_phase_def)

text \<open>A row of the history: the index of the step and how the attempt ended.\<close>

type_synonym row_key = "nat option \<times> string option"

abbreviation ok_row :: "nat \<Rightarrow> row_key" where
  "ok_row i \<equiv> (Some i, Some ''succeeded'')"

abbreviation bad_row :: "nat \<Rightarrow> row_key" where
  "bad_row i \<equiv> (Some i, Some ''failed'')"

record progress =
  pg_phase :: phase
  pg_index :: nat
  pg_attempt :: int
  pg_rows :: "row_key list"

definition initial_progress :: progress where
  "initial_progress = \<lparr> pg_phase = Open, pg_index = 0, pg_attempt = 0, pg_rows = [] \<rparr>"

inductive machine :: "nat \<Rightarrow> (nat \<Rightarrow> int) \<Rightarrow> progress \<Rightarrow> progress \<Rightarrow> bool"
  for n :: nat and cap :: "nat \<Rightarrow> int"
where
  pass: "pg_phase p = Open \<Longrightarrow> pg_index p < n \<Longrightarrow>
    machine n cap p (p\<lparr>pg_index := Suc (pg_index p), pg_attempt := 0,
      pg_rows := pg_rows p @ [ok_row (pg_index p)]\<rparr>)"
| finish_last: "pg_phase p = Open \<Longrightarrow> Suc (pg_index p) = n \<Longrightarrow>
    machine n cap p \<lparr>pg_phase = Done, pg_index = n, pg_attempt = 0,
      pg_rows = pg_rows p @ [ok_row (pg_index p)]\<rparr>"
| finish: "pg_phase p = Open \<Longrightarrow> pg_index p = n \<Longrightarrow>
    machine n cap p (p\<lparr>pg_phase := Done, pg_attempt := 0\<rparr>)"
| retry: "pg_phase p = Open \<Longrightarrow> pg_index p < n \<Longrightarrow> pg_attempt p + 1 < cap (pg_index p) \<Longrightarrow>
    machine n cap p (p\<lparr>pg_attempt := pg_attempt p + 1,
      pg_rows := pg_rows p @ [bad_row (pg_index p)]\<rparr>)"
| break: "pg_phase p = Open \<Longrightarrow> pg_index p < n \<Longrightarrow>
    machine n cap p (p\<lparr>pg_phase := Broken, pg_rows := pg_rows p @ [bad_row (pg_index p)]\<rparr>)"
| stop: "pg_phase p = Open \<Longrightarrow> machine n cap p (p\<lparr>pg_phase := Stopped\<rparr>)"

inductive_cases machineE: "machine n cap p p'"

subsection \<open>The invariant of the machine\<close>

definition ok_indices :: "row_key list \<Rightarrow> nat option list" where
  "ok_indices rows = map fst (filter (\<lambda>k. snd k = Some ''succeeded'') rows)"

definition failures_at :: "nat \<Rightarrow> row_key list \<Rightarrow> nat" where
  "failures_at i rows = length (filter (\<lambda>k. k = bad_row i) rows)"

lemma ok_indices_simps [simp]:
  "ok_indices [] = []"
  "ok_indices (rows @ [ok_row i]) = ok_indices rows @ [Some i]"
  "ok_indices (rows @ [bad_row i]) = ok_indices rows"
  by (simp_all add: ok_indices_def)

lemma failures_at_simps [simp]:
  "failures_at i [] = 0"
  "failures_at i (rows @ [ok_row j]) = failures_at i rows"
  "failures_at i (rows @ [bad_row j]) = failures_at i rows + (if i = j then 1 else 0)"
  by (auto simp: failures_at_def)

text \<open>All the rows of a step, whatever they say.\<close>

definition rows_at :: "nat \<Rightarrow> row_key list \<Rightarrow> nat" where
  "rows_at i rows = length (filter (\<lambda>k. fst k = Some i) rows)"

definition proper_row :: "row_key \<Rightarrow> bool" where
  "proper_row k \<longleftrightarrow> (\<exists>i. k = ok_row i \<or> k = bad_row i)"

lemma proper_row_simps [simp]: "proper_row (ok_row i)" "proper_row (bad_row i)"
  by (auto simp: proper_row_def)

lemma count_upt: "count_list (map Some [0..<k]) (Some i) = (if i < k then 1 else 0)"
  by (induction k) auto

lemma rows_at_split:
  "list_all proper_row rows \<Longrightarrow> rows_at i rows = failures_at i rows + count_list (ok_indices rows) (Some i)"
  by (induction rows) (auto simp: rows_at_def failures_at_def ok_indices_def proper_row_def)

text \<open>The last attempt of a broken run is counted in its history but not in \<open>pg_attempt\<close>.\<close>

definition spent :: "progress \<Rightarrow> int" where
  "spent p = pg_attempt p + (if pg_phase p = Broken then 1 else 0)"

definition progress_ok :: "nat \<Rightarrow> (nat \<Rightarrow> int) \<Rightarrow> progress \<Rightarrow> bool" where
  "progress_ok n cap p \<longleftrightarrow>
     pg_index p \<le> n \<and> 0 \<le> pg_attempt p \<and>
     (if pg_index p < n then pg_attempt p < cap (pg_index p) else pg_attempt p = 0) \<and>
     (pg_phase p = Done \<longrightarrow> pg_index p = n) \<and> (pg_phase p = Broken \<longrightarrow> pg_index p < n) \<and>
     list_all proper_row (pg_rows p) \<and> ok_indices (pg_rows p) = map Some [0..<pg_index p] \<and>
     int (failures_at (pg_index p) (pg_rows p)) = spent p \<and>
     (\<forall>i < pg_index p. int (failures_at i (pg_rows p)) < cap i) \<and>
     (\<forall>i > pg_index p. failures_at i (pg_rows p) = 0) \<and>
     int (length (pg_rows p)) \<le> (\<Sum>i < pg_index p. cap i) + spent p"

text \<open>The attempts and the one move out of the open phase that are still allowed.\<close>

definition work_left :: "nat \<Rightarrow> (nat \<Rightarrow> int) \<Rightarrow> progress \<Rightarrow> int" where
  "work_left n cap p = (\<Sum>i < n. cap i) - int (length (pg_rows p)) +
     (if pg_phase p = Open then 1 else 0)"

locale step_machine =
  fixes n :: nat and cap :: "nat \<Rightarrow> int"
  assumes cap_pos: "1 \<le> cap i"
begin

lemma initial_ok: "progress_ok n cap initial_progress"
  using cap_pos [of 0] by (simp add: progress_ok_def initial_progress_def spent_def)

lemma sum_cap_nonneg: "0 \<le> (\<Sum>i < k. cap i)"
  by (rule sum_nonneg) (use cap_pos in \<open>metis order_trans zero_le_one\<close>)

lemma pass_ok:
  assumes "progress_ok n cap p" and "pg_phase p = Open" and "pg_index p < n"
    and "pg_phase q \<in> {Open, Done}" and "pg_phase q = Done \<Longrightarrow> Suc (pg_index p) = n"
    and "pg_index q = Suc (pg_index p)" and "pg_attempt q = 0"
    and "pg_rows q = pg_rows p @ [ok_row (pg_index p)]"
  shows "progress_ok n cap q"
proof -
  from assms have spent: "spent p = pg_attempt p" "spent q = 0"
    by (auto simp: spent_def)
  have tail: "\<forall>i < Suc (pg_index p). int (failures_at i (pg_rows p)) < cap i"
    using assms(1,3) spent by (auto simp: progress_ok_def less_Suc_eq)
  have "int (length (pg_rows p)) + 1 \<le> (\<Sum>i < pg_index p. cap i) + cap (pg_index p)"
    using assms(1,3) spent by (simp add: progress_ok_def)
  with assms spent tail cap_pos [of "Suc (pg_index p)"] show ?thesis
    by (auto simp: progress_ok_def)
qed

lemma step_ok:
  assumes "machine n cap p q" and "progress_ok n cap p"
  shows "progress_ok n cap q"
  using assms
proof cases
  case pass
  with assms(2) show ?thesis by (intro pass_ok [of p q]) simp_all
next
  case finish_last
  with assms(2) show ?thesis by (intro pass_ok [of p q]) simp_all
qed (auto simp: progress_ok_def spent_def)

lemma step_monotone: "machine n cap p q \<Longrightarrow> pg_phase p \<le> pg_phase q"
  by (erule machineE) simp_all

lemma terminal_stuck: "pg_phase p \<noteq> Open \<Longrightarrow> \<not> machine n cap p q"
  by (auto elim: machineE)

lemma history_grows: "machine n cap p q \<Longrightarrow> prefix (pg_rows p) (pg_rows q)"
  by (erule machineE) simp_all

lemma attempts_limited:
  assumes "progress_ok n cap p" and "i < n"
  shows "int (rows_at i (pg_rows p)) \<le> cap i"
proof -
  have ok: "count_list (ok_indices (pg_rows p)) (Some i) = (if i < pg_index p then 1 else 0)"
    and all: "rows_at i (pg_rows p) = failures_at i (pg_rows p) + count_list (ok_indices (pg_rows p)) (Some i)"
    using assms(1) rows_at_split count_upt [of "pg_index p" i] by (simp_all add: progress_ok_def)
  consider "i < pg_index p" | "i = pg_index p" | "pg_index p < i" by linarith
  then show ?thesis
  proof cases
    case 3
    with assms all ok cap_pos [of i] show ?thesis by (simp add: progress_ok_def)
  qed (use assms all ok in \<open>auto simp: progress_ok_def spent_def split: if_splits\<close>)
qed

subsection \<open>Termination of the machine\<close>

text \<open>
  Every step of the machine uses some of \<open>work_left\<close>: it adds a row to the history, which the
  retry policies bound, or leaves the open phase.
\<close>

lemma history_total:
  assumes "progress_ok n cap p"
  shows "int (length (pg_rows p)) \<le> (\<Sum>i < n. cap i)"
proof (cases "pg_index p < n")
  case True
  then have "(\<Sum>i < Suc (pg_index p). cap i) \<le> (\<Sum>i < n. cap i)"
    using cap_pos by (intro sum_mono2) (auto intro: order_trans [OF zero_le_one])
  with True assms show ?thesis by (auto simp: progress_ok_def spent_def split: if_splits)
next
  case False
  with assms show ?thesis by (auto simp: progress_ok_def spent_def)
qed

lemma history_bounded:
  assumes "progress_ok n cap p" and "\<And>i. cap i \<le> b"
  shows "int (length (pg_rows p)) \<le> b * int n"
  using history_total [OF assms(1)] sum_mono [of "{..<n}" cap "\<lambda>_. b"] assms(2)
  by (simp add: mult.commute)

lemma work_left_decreases: "machine n cap p q \<Longrightarrow> work_left n cap q < work_left n cap p"
  by (erule machineE) (simp_all add: work_left_def)

lemma work_left_nonneg: "progress_ok n cap p \<Longrightarrow> 0 \<le> work_left n cap p"
  using history_total [of p] by (simp add: work_left_def)

lemma work_left_terminal: "progress_ok n cap p \<Longrightarrow> work_left n cap p = 0 \<Longrightarrow> pg_phase p \<noteq> Open"
  using history_total [of p] by (auto simp: work_left_def)

theorem machine_terminates: "wfp (\<lambda>q p. progress_ok n cap p \<and> machine n cap p q)"
proof (rule wfp_if_convertible_to_nat [where f = "\<lambda>p. nat (work_left n cap p)"])
  fix q p
  assume "progress_ok n cap p \<and> machine n cap p q"
  then show "nat (work_left n cap q) < nat (work_left n cap p)"
    using work_left_decreases [of p q] work_left_nonneg [of q] step_ok [of p q] by simp
qed

end

end
