(* ===== verification/Step_Refinement.thy ===== *)
theory Step_Refinement
  imports Engine Step_Machine
begin

section \<open>The step handlers refine the step machine\<close>

text \<open>
  The abstraction of a stored run, the well-formedness of a run, and the proof that each
  handler of \<open>src/workflow/engine.rs\<close>, run on the snapshot a claim issued, is one step of the
  abstract machine (or parks the run at a \<open>waitSignal\<close> step).
\<close>

subsection \<open>Abstraction\<close>

definition row_index :: "json \<Rightarrow> nat option" where
  "row_index row = (case jget row ''index'' of Some (JNum (PosInt i)) \<Rightarrow> Some i | _ \<Rightarrow> None)"

definition row_status :: "json \<Rightarrow> string option" where
  "row_status row = Option.bind (jget row ''status'') as_str"

definition row_key_of :: "json \<Rightarrow> row_key" where
  "row_key_of row = (row_index row, row_status row)"

definition phase_of :: "string \<Rightarrow> phase" where
  "phase_of s = (if s = ''completed'' then Done else if s = ''failed'' then Broken
     else if s = ''canceled'' then Stopped else Open)"

definition abs_run :: "run \<Rightarrow> progress" where
  "abs_run r = \<lparr> pg_phase = phase_of (r_status r),
     pg_index = (if r_status r = ''completed'' then length (r_steps r) else r_current_step_index r),
     pg_attempt = (if r_status r = ''completed'' then 0 else r_attempt r),
     pg_rows = map row_key_of (r_step_runs r) \<rparr>"

text \<open>The attempt limit of a step, from the run's default policy and the step's own.\<close>

definition attempt_limit :: "run \<Rightarrow> nat \<Rightarrow> int" where
  "attempt_limit r i = (if i < length (r_steps r)
     then max_attempts (retry_config (JObj [(''defaultRetry'', r_default_retry r)]) (r_steps r ! i))
     else 1)"

lemma max_attempts_bounds: "1 \<le> max_attempts retry" "max_attempts retry \<le> 1000"
  by (simp_all add: max_attempts_def clamp_i_def MAX_ATTEMPTS_CAP_def)

lemma attempt_limit_bounds: "1 \<le> attempt_limit r i" "attempt_limit r i \<le> 1000"
  by (simp_all add: attempt_limit_def max_attempts_bounds)

interpretation run_machine: step_machine "length (r_steps r)" "attempt_limit r" for r
  by unfold_locales (rule attempt_limit_bounds)

definition run_statuses :: "string list" where
  "run_statuses = [''pending'', ''running'', ''waiting'', ''completed'', ''failed'', ''canceled'']"

lemma terminal_phase: "terminal_status s \<longleftrightarrow> phase_of s \<noteq> Open"
  by (simp add: terminal_status_def phase_of_def)

definition waits_for_signal :: "run \<Rightarrow> bool" where
  "waits_for_signal r \<longleftrightarrow> r_current_step_index r < length (r_steps r) \<and>
     step_type (r_steps r ! r_current_step_index r) = ''waitSignal''"

definition run_ok :: "run \<Rightarrow> bool" where
  "run_ok r \<longleftrightarrow> r_status r \<in> set run_statuses \<and> int (length (r_steps r)) \<le> i64_max \<and>
     r_current_step_index r \<le> length (r_steps r) \<and> 0 \<le> r_attempt r \<and> r_attempt r < 1000 \<and>
     progress_ok (length (r_steps r)) (attempt_limit r) (abs_run r) \<and>
     length (r_signals r) \<le> MAX_PENDING_SIGNALS \<and>
     (r_status r = ''waiting'' \<longrightarrow> waits_for_signal r) \<and>
     (\<forall>d. r_wait_deadline_ms r = Some d \<longrightarrow> in_i64 d \<and> waits_for_signal r)"

subsection \<open>What a handler may do to a run\<close>

text \<open>
  \<open>advances r r'\<close>: the new contents of a run after a committed handler (before the version is
  incremented): one step of the machine, or parking.
\<close>

definition parks :: "run \<Rightarrow> run \<Rightarrow> bool" where
  "parks r r' \<longleftrightarrow> abs_run r' = abs_run r \<and> r_status r' = ''waiting'' \<and> waits_for_signal r \<and>
     r_current_step_index r' = r_current_step_index r \<and> r_context r' = r_context r"

text \<open>
  The data of a run. \<open>apply_row\<close>: what a row of the history leaves in the context, the output
  under the name of the step. \<open>records\<close>: rows are appended, and the context is the old one with
  them applied, perhaps printed and parsed. \<open>consumes\<close>: the first delivered signal that the current
  \<open>waitSignal\<close> step waits for is taken out and the step is passed. \<open>flows\<close>: the context follows the
  rows, and a signal is consumed, or the signals stay and no \<open>waitSignal\<close> step is passed (and of
  the others at most one).
\<close>

definition current :: "run \<Rightarrow> json" where
  "current r = r_steps r ! r_current_step_index r"

definition awaited :: "run \<Rightarrow> string" where
  "awaited r = (case Option.bind (jget (current r) ''signalName'') as_str of Some s \<Rightarrow> s | None \<Rightarrow> [])"

text \<open>The context a run's history leaves behind: each row with an output sets the entry of its step.\<close>

definition row_name :: "json \<Rightarrow> string" where
  "row_name row = (case Option.bind (jget row ''name'') as_str of Some s \<Rightarrow> s | None \<Rightarrow> [])"

definition apply_row :: "json \<Rightarrow> jobject \<Rightarrow> jobject" where
  "apply_row row m =
     (case jget row ''output'' of Some v \<Rightarrow> obj_insert (row_name row) v m | None \<Rightarrow> m)"

text \<open>The context goes to a commit as JSON text, and comes back from it parsed.\<close>

definition reprint :: "serde \<Rightarrow> jobject \<Rightarrow> jobject" where
  "reprint sj m = parse_obj sj (sj_print sj (JObj m))"

definition records :: "serde set \<Rightarrow> run \<Rightarrow> run \<Rightarrow> bool" where
  "records S r r' \<longleftrightarrow> (\<exists>rows. r_step_runs r' = r_step_runs r @ rows \<and>
     (r_context r' = fold apply_row rows (r_context r) \<or>
      (\<exists>sj \<in> S. r_context r' = reprint sj (fold apply_row rows (r_context r)))))"

definition consumes :: "run \<Rightarrow> run \<Rightarrow> bool" where
  "consumes r r' \<longleftrightarrow> (\<exists>p sig. waits_for_signal r \<and>
     find_pos (signal_matches (awaited r)) 0 (r_signals r) = Some (p, sig) \<and>
     r_signals r' = remove_nth p (r_signals r) \<and>
     r_current_step_index r' = Suc (r_current_step_index r))"

definition flows :: "serde set \<Rightarrow> run \<Rightarrow> run \<Rightarrow> bool" where
  "flows S r r' \<longleftrightarrow> records S r r' \<and> (consumes r r' \<or> (r_signals r' = r_signals r \<and>
     (if waits_for_signal r then r_current_step_index r' = r_current_step_index r \<and> r_status r' \<noteq> ''completed''
      else r_current_step_index r' \<in> {r_current_step_index r, Suc (r_current_step_index r)})))"

lemma flows_length: "flows S r r' \<Longrightarrow> length (r_signals r') \<le> length (r_signals r)"
  by (auto simp: flows_def consumes_def length_remove_nth dest!: find_pos_Some)

lemma obj_get_opt_insert: "obj_get (opt_insert k v m) k' =
    (if k' = k then (case v of Some x \<Rightarrow> Some x | None \<Rightarrow> obj_get m k') else obj_get m k')"
  by (simp add: opt_insert_def obj_get_insert split: option.split)

lemma apply_step_row [simp]:
  "apply_row (step_row idx nm ty fr att st inp out err dur) m =
     (case out of Some v \<Rightarrow> obj_insert nm v m | None \<Rightarrow> m)"
  by (simp add: apply_row_def row_name_def step_row_def obj_get_opt_insert obj_get_obj_of
      split: option.split)

lemma records_none:
  "r_step_runs r' = r_step_runs r \<Longrightarrow> r_context r' = r_context r \<or> (\<exists>sj \<in> S. r_context r' = reprint sj (r_context r)) \<Longrightarrow>
     records S r r'"
  unfolding records_def by (intro exI [of _ "[]"]) simp

lemma records_row:
  "r_step_runs r' = r_step_runs r @ [row] \<Longrightarrow>
     r_context r' = apply_row row (r_context r) \<or>
       (\<exists>sj \<in> S. r_context r' = reprint sj (apply_row row (r_context r))) \<Longrightarrow>
     records S r r'"
  unfolding records_def by (intro exI [of _ "[row]"]) simp

lemma flows_still:
  "records S r r' \<Longrightarrow> r_signals r' = r_signals r \<Longrightarrow>
     r_current_step_index r' = r_current_step_index r \<Longrightarrow> r_status r' \<noteq> ''completed'' \<Longrightarrow> flows S r r'"
  by (simp add: flows_def)

lemma flows_pass:
  "records S r r' \<Longrightarrow> \<not> waits_for_signal r \<Longrightarrow> r_signals r' = r_signals r \<Longrightarrow>
     r_current_step_index r' \<in> {r_current_step_index r, Suc (r_current_step_index r)} \<Longrightarrow> flows S r r'"
  by (simp add: flows_def)

definition advances :: "serde set \<Rightarrow> run \<Rightarrow> run \<Rightarrow> bool" where
  "advances S r r' \<longleftrightarrow> same_identity r r' \<and> run_ok r' \<and> prefix (r_step_runs r) (r_step_runs r') \<and> flows S r r' \<and>
     (machine (length (r_steps r)) (attempt_limit r) (abs_run r) (abs_run r') \<or> parks r r')"

lemma flows_mono: "flows S r r' \<Longrightarrow> S \<subseteq> T \<Longrightarrow> flows T r r'"
  by (auto simp: flows_def records_def)

lemma advances_mono: "advances S r r' \<Longrightarrow> S \<subseteq> T \<Longrightarrow> advances T r r'"
  using flows_mono by (auto simp: advances_def)

text \<open>
  \<open>drives\<close>: a handler called with the snapshot \<open>view\<close> commits an advance of the run; or (if tasks
  run late) it leaves that to a task, the failure of the snapshot's current step.
\<close>

definition commits :: "serde set \<Rightarrow> string \<Rightarrow> run_view \<Rightarrow> (engine \<Rightarrow> engine) \<Rightarrow> bool" where
  "commits S i view h \<longleftrightarrow> (\<exists>sj upd.
     (\<forall>e. e_store (h e) = fst (commit_with sj upd (e_store e) i (v_version view)) \<and>
          e_inflight (h e) = e_inflight e \<and> e_tasks (h e) = e_tasks e) \<and>
     (\<forall>r now. view = view_of now r \<longrightarrow> in_i64 now \<longrightarrow> run_ok r \<longrightarrow> \<not> terminal_status (r_status r) \<longrightarrow>
        advances S r (upd r)))"

definition task_of :: "string \<Rightarrow> run_view \<Rightarrow> failure_task \<Rightarrow> bool" where
  "task_of i view t \<longleftrightarrow> ft_run t = i \<and> ft_version t = v_version view \<and>
     view_index view < length (view_steps view) \<and> row_key_of (ft_row t) = bad_row (view_index view) \<and>
     (\<forall>m. apply_row (ft_row t) m = m)"

definition defers :: "string \<Rightarrow> run_view \<Rightarrow> (engine \<Rightarrow> engine) \<Rightarrow> bool" where
  "defers i view h \<longleftrightarrow> (\<exists>t. task_of i view t \<and>
     (\<forall>e. e_store (h e) = e_store e \<and> e_inflight (h e) = e_inflight e \<and> e_tasks (h e) = e_tasks e @ [t]))"

definition drives :: "world \<Rightarrow> string \<Rightarrow> run_view \<Rightarrow> (engine \<Rightarrow> engine) \<Rightarrow> bool" where
  "drives w i view h \<longleftrightarrow> commits {w_serde w} i view h \<or> (w_spawn_late w \<and> defers i view h)"

lemma store_bump [simp]: "e_store (bump f e) = e_store e"
  by (simp add: bump_def)

lemma store_nudge [simp]: "e_store (nudge e) = e_store e"
  by (simp add: nudge_def)

lemma store_publish [simp]: "e_store (publish_event w ev e) = e_store e"
  by (simp add: publish_event_def Let_def)

lemma inflight_bump [simp]: "e_inflight (bump f e) = e_inflight e"
  by (simp add: bump_def)

lemma inflight_nudge [simp]: "e_inflight (nudge e) = e_inflight e"
  by (simp add: nudge_def)

lemma inflight_publish [simp]: "e_inflight (publish_event w ev e) = e_inflight e"
  by (simp add: publish_event_def Let_def)

lemma store_handle_commit [simp]: "e_store (handle_commit w live c f ev e) = e_store e"
  by (simp add: handle_commit_def Let_def split: commit.split option.split)

lemma inflight_handle_commit [simp]: "e_inflight (handle_commit w live c f ev e) = e_inflight e"
  by (simp add: handle_commit_def Let_def split: commit.split option.split)

lemma store_commit_then [simp]: "e_store (commit_then w live op f ev e) = fst (op (e_store e))"
  by (simp add: commit_then_def case_prod_beta)

lemma inflight_commit_then [simp]: "e_inflight (commit_then w live op f ev e) = e_inflight e"
  by (simp add: commit_then_def case_prod_beta)

lemma store_worker_exception [simp]: "e_store (worker_exception e) = e_store e"
  by (simp add: worker_exception_def)

lemma inflight_worker_exception [simp]: "e_inflight (worker_exception e) = e_inflight e"
  by (simp add: worker_exception_def)

lemma tasks_bump [simp]: "e_tasks (bump f e) = e_tasks e"
  by (simp add: bump_def)

lemma tasks_nudge [simp]: "e_tasks (nudge e) = e_tasks e"
  by (simp add: nudge_def)

lemma tasks_publish [simp]: "e_tasks (publish_event w ev e) = e_tasks e"
  by (simp add: publish_event_def Let_def)

lemma tasks_handle_commit [simp]: "e_tasks (handle_commit w live c f ev e) = e_tasks e"
  by (simp add: handle_commit_def Let_def split: commit.split option.split)

lemma tasks_commit_then [simp]: "e_tasks (commit_then w live op f ev e) = e_tasks e"
  by (simp add: commit_then_def case_prod_beta)

lemma tasks_worker_exception [simp]: "e_tasks (worker_exception e) = e_tasks e"
  by (simp add: worker_exception_def)

lemma commitsI:
  assumes "\<And>e. e_store (h e) = fst (commit_with sj upd (e_store e) i (v_version view))"
    and "\<And>e. e_inflight (h e) = e_inflight e" and "\<And>e. e_tasks (h e) = e_tasks e"
    and "\<And>r now. view = view_of now r \<Longrightarrow> in_i64 now \<Longrightarrow> run_ok r \<Longrightarrow>
           \<not> terminal_status (r_status r) \<Longrightarrow> advances S r (upd r)"
  shows "commits S i view h"
  using assms unfolding commits_def by blast

lemma commits_drives: "commits {w_serde w} i view h \<Longrightarrow> drives w i view h"
  by (simp add: drives_def)

subsection \<open>Reading a snapshot\<close>

lemma view_json: "v_json (view_of now r) =
    JObj (obj_insert ''context'' (JObj (r_context r)) (obj_insert ''nowMs'' (j_i64 now)
      (case run_to_json r of JObj m \<Rightarrow> m)))"
  by (simp add: view_of_def run_to_json_def)

lemma version_view [simp]: "v_version (view_of now r) = r_version r"
  by (simp add: view_of_def)

lemma jget_run_to_json: "jget (run_to_json r) k = map_of
     [(''id'', JStr (r_id r)), (''definitionRef'', JStr (r_definition_ref r)),
      (''status'', JStr (r_status r)), (''input'', r_input r), (''context'', JObj (r_context r)),
      (''steps'', JArr (r_steps r)), (''defaultRetry'', r_default_retry r),
      (''currentStepIndex'', j_nat (r_current_step_index r)), (''attempt'', j_i64 (r_attempt r)),
      (''signals'', JArr (r_signals r)), (''waitDeadlineMs'', j_opt j_i64 (r_wait_deadline_ms r)),
      (''idempotencyKey'', j_opt JStr (r_idempotency_key r)), (''error'', j_opt JStr (r_error r)),
      (''createdAt'', j_i64 (r_created_at r)), (''updatedAt'', j_i64 (r_updated_at r))] k"
  unfolding run_to_json_def jget_JObj_obj_of by simp

lemma jget_view: "jget (v_json (view_of now r)) k =
    (if k = ''context'' then Some (JObj (r_context r))
     else if k = ''nowMs'' then Some (j_i64 now) else jget (run_to_json r) k)"
proof -
  obtain m where "run_to_json r = JObj m" by (simp add: run_to_json_def)
  then show ?thesis by (simp add: view_json obj_get_insert)
qed

lemma view_fields:
  "view_steps (view_of now r) = r_steps r"
  "int (r_current_step_index r) \<le> i64_max \<Longrightarrow> view_index (view_of now r) = r_current_step_index r"
  "in_i64 (r_attempt r) \<Longrightarrow> view_attempt (view_of now r) = r_attempt r"
  "view_context (view_of now r) = r_context r"
  "view_run_id (view_of now r) = r_id r"
  by (simp_all add: view_steps_def view_index_def view_attempt_def view_context_def view_run_id_def
      jix_def jget_view jget_run_to_json json_simps unat_i64_as_u64 in_i64_def i64_min_def)

lemma run_ok_attempt: "run_ok r \<Longrightarrow> in_i64 (r_attempt r)"
  by (simp add: run_ok_def in_i64_def i64_min_def i64_max_def)

lemma run_ok_index: "run_ok r \<Longrightarrow> int (r_current_step_index r) \<le> i64_max"
  by (simp add: run_ok_def)

lemma view_limit:
  assumes "r_current_step_index r < length (r_steps r)"
  shows "max_attempts (retry_config (v_json (view_of now r)) (r_steps r ! r_current_step_index r)) =
    attempt_limit r (r_current_step_index r)"
  using assms by (simp add: attempt_limit_def retry_config_def jget_view jget_run_to_json
      obj_get_def)

subsection \<open>Introduction rules for \<open>advances\<close>\<close>

lemma row_key_step_row [simp]:
  "row_key_of (step_row idx name ty fr att st inp out err dur) = (Some idx, Some st)"
  by (simp add: row_key_of_def row_index_def row_status_def step_row_def obj_get_opt_insert
      obj_get_obj_of j_nat_def)

lemma attempt_limit_same: "same_identity r r' \<Longrightarrow> attempt_limit r' = attempt_limit r"
  by (rule ext) (simp add: attempt_limit_def same_identity_def)

lemma run_ok_next:
  assumes "run_ok r" and "same_identity r r'"
    and "machine (length (r_steps r)) (attempt_limit r) (abs_run r) (abs_run r') \<or> abs_run r' = abs_run r"
    and "r_status r' \<in> set run_statuses" and "r_current_step_index r' \<le> length (r_steps r)"
    and "0 \<le> r_attempt r'" and "r_attempt r' < 1000" and "length (r_signals r') \<le> MAX_PENDING_SIGNALS"
    and "r_status r' = ''waiting'' \<Longrightarrow> waits_for_signal r'"
    and "\<And>d. r_wait_deadline_ms r' = Some d \<Longrightarrow> in_i64 d \<and> waits_for_signal r'"
  shows "run_ok r'"
proof -
  have steps: "r_steps r' = r_steps r" using assms(2) by (simp add: same_identity_def)
  have "progress_ok (length (r_steps r)) (attempt_limit r) (abs_run r')"
    using assms(1,3) run_machine.step_ok [of r] by (auto simp: run_ok_def)
  with assms show ?thesis
    by (simp add: run_ok_def steps attempt_limit_same [OF assms(2)])
qed

lemma advances_machine:
  assumes "run_ok r" and "same_identity r r'"
    and "machine (length (r_steps r)) (attempt_limit r) (abs_run r) (abs_run r')"
    and "r_status r' \<in> {''running'', ''completed'', ''failed''}"
    and "r_current_step_index r' \<le> length (r_steps r)"
    and "0 \<le> r_attempt r'" and "r_attempt r' < 1000" and "flows S r r'"
    and "\<And>d. r_wait_deadline_ms r' = Some d \<Longrightarrow> in_i64 d \<and> waits_for_signal r'"
    and "prefix (r_step_runs r) (r_step_runs r')"
  shows "advances S r r'"
proof -
  have "run_ok r'"
    by (rule run_ok_next [OF assms(1,2)])
      (use assms flows_length [OF assms(8)] in \<open>auto simp: run_ok_def run_statuses_def\<close>)
  with assms show ?thesis by (simp add: advances_def)
qed

text \<open>A run whose current step is not a \<open>waitSignal\<close> has no deadline.\<close>

lemma no_deadline: "run_ok r \<Longrightarrow> \<not> waits_for_signal r \<Longrightarrow> r_wait_deadline_ms r = None"
  by (cases "r_wait_deadline_ms r") (auto simp: run_ok_def)

lemma advances_pass:
  assumes r: "run_ok r" "\<not> terminal_status (r_status r)" "r_current_step_index r < length (r_steps r)"
    and same: "same_identity r r'"
    and r': "r_status r' = ''running''" "r_current_step_index r' = r_current_step_index r + 1"
      "r_attempt r' = 0" "r_step_runs r' = r_step_runs r @ [row]"
      "row_key_of row = ok_row (r_current_step_index r)" "r_wait_deadline_ms r' = None"
    and flows: "flows S r r'"
  shows "advances S r r'"
proof (rule advances_machine [OF r(1) same])
  have "abs_run r' = (abs_run r)\<lparr>pg_index := Suc (pg_index (abs_run r)), pg_attempt := 0,
      pg_rows := pg_rows (abs_run r) @ [ok_row (pg_index (abs_run r))]\<rparr>"
    using r r' same by (simp add: abs_run_def terminal_status_def phase_of_def)
  then show "machine (length (r_steps r)) (attempt_limit r) (abs_run r) (abs_run r')"
    using machine.pass [of "abs_run r"] r
    by (simp add: terminal_phase abs_run_def phase_of_def split: if_splits)
qed (use r r' flows in simp_all)

lemma advances_last:
  assumes r: "run_ok r" "\<not> terminal_status (r_status r)"
      "Suc (r_current_step_index r) = length (r_steps r)"
    and same: "same_identity r r'"
    and r': "r_status r' = ''completed''" "r_current_step_index r' = r_current_step_index r"
      "r_attempt r' = r_attempt r" "r_step_runs r' = r_step_runs r @ [row]"
      "row_key_of row = ok_row (r_current_step_index r)" "r_wait_deadline_ms r' = None"
    and flows: "flows S r r'"
  shows "advances S r r'"
proof (rule advances_machine [OF r(1) same])
  have "abs_run r' = \<lparr>pg_phase = Done, pg_index = length (r_steps r), pg_attempt = 0,
      pg_rows = pg_rows (abs_run r) @ [ok_row (pg_index (abs_run r))]\<rparr>"
    using r r' same by (simp add: abs_run_def terminal_status_def phase_of_def same_identity_def)
  then show "machine (length (r_steps r)) (attempt_limit r) (abs_run r) (abs_run r')"
    using machine.finish_last [of "abs_run r" "length (r_steps r)"] r
    by (simp add: terminal_phase abs_run_def phase_of_def split: if_splits)
qed (use r r' flows in \<open>simp_all add: run_ok_def\<close>)

lemma advances_finish:
  assumes r: "run_ok r" "\<not> terminal_status (r_status r)"
      "r_current_step_index r = length (r_steps r)"
    and same: "same_identity r r'"
    and r': "r_status r' = ''completed''" "r_current_step_index r' = r_current_step_index r"
      "r_attempt r' = r_attempt r" "r_step_runs r' = r_step_runs r" "r_wait_deadline_ms r' = None"
    and flows: "flows S r r'"
  shows "advances S r r'"
proof (rule advances_machine [OF r(1) same])
  have "abs_run r' = (abs_run r)\<lparr>pg_phase := Done, pg_attempt := 0\<rparr>"
    using r r' same by (simp add: abs_run_def terminal_status_def phase_of_def same_identity_def)
  then show "machine (length (r_steps r)) (attempt_limit r) (abs_run r) (abs_run r')"
    using machine.finish [of "abs_run r" "length (r_steps r)"] r
    by (simp add: terminal_phase abs_run_def phase_of_def split: if_splits)
qed (use r r' flows in \<open>simp_all add: run_ok_def\<close>)

lemma advances_retry:
  assumes r: "run_ok r" "\<not> terminal_status (r_status r)" "r_current_step_index r < length (r_steps r)"
    and same: "same_identity r r'"
    and r': "r_status r' = ''running''" "r_current_step_index r' = r_current_step_index r"
      "r_attempt r' = r_attempt r + 1" "r_attempt r + 1 < attempt_limit r (r_current_step_index r)"
      "r_step_runs r' = r_step_runs r @ [row]" "row_key_of row = bad_row (r_current_step_index r)"
      "r_wait_deadline_ms r' = None" "r_signals r' = r_signals r" "r_context r' = r_context r"
      "\<And>m. apply_row row m = m"
  shows "advances S r r'"
proof (rule advances_machine [OF r(1) same])
  have "abs_run r' = (abs_run r)\<lparr>pg_attempt := pg_attempt (abs_run r) + 1,
      pg_rows := pg_rows (abs_run r) @ [bad_row (pg_index (abs_run r))]\<rparr>"
    using r r' same by (simp add: abs_run_def terminal_status_def phase_of_def)
  then show "machine (length (r_steps r)) (attempt_limit r) (abs_run r) (abs_run r')"
    using machine.retry [of "abs_run r" "length (r_steps r)"] r r'(4)
    by (simp add: terminal_phase abs_run_def phase_of_def split: if_splits)
  show "r_attempt r' < 1000"
    using r' attempt_limit_bounds(2) [of r "r_current_step_index r"] by simp
qed (use r r' in \<open>simp_all add: run_ok_def flows_still records_row\<close>)

lemma advances_break:
  assumes r: "run_ok r" "\<not> terminal_status (r_status r)" "r_current_step_index r < length (r_steps r)"
    and same: "same_identity r r'"
    and r': "r_status r' = ''failed''" "r_current_step_index r' = r_current_step_index r"
      "r_attempt r' = r_attempt r"
      "r_step_runs r' = r_step_runs r @ [row]" "row_key_of row = bad_row (r_current_step_index r)"
      "r_wait_deadline_ms r' = r_wait_deadline_ms r" "r_signals r' = r_signals r"
      "r_context r' = r_context r" "\<And>m. apply_row row m = m"
  shows "advances S r r'"
proof (rule advances_machine [OF r(1) same])
  have "abs_run r' = (abs_run r)\<lparr>pg_phase := Broken,
      pg_rows := pg_rows (abs_run r) @ [bad_row (pg_index (abs_run r))]\<rparr>"
    using r r' same by (simp add: abs_run_def terminal_status_def phase_of_def)
  then show "machine (length (r_steps r)) (attempt_limit r) (abs_run r) (abs_run r')"
    using machine.break [of "abs_run r" "length (r_steps r)"] r
    by (simp add: terminal_phase abs_run_def phase_of_def split: if_splits)
  show "in_i64 d \<and> waits_for_signal r'" if "r_wait_deadline_ms r' = Some d" for d
    using that r' r same by (simp add: run_ok_def waits_for_signal_def same_identity_def)
qed (use r r' in \<open>simp_all add: run_ok_def flows_still records_row\<close>)

lemma advances_park:
  assumes r: "run_ok r" "\<not> terminal_status (r_status r)" "waits_for_signal r"
    and same: "same_identity r r'"
    and r': "r_status r' = ''waiting''" "r_current_step_index r' = r_current_step_index r"
      "r_attempt r' = r_attempt r" "r_step_runs r' = r_step_runs r" "r_context r' = r_context r"
      "\<And>d. r_wait_deadline_ms r' = Some d \<Longrightarrow> in_i64 d" "r_signals r' = r_signals r"
  shows "advances S r r'"
proof -
  have abs: "abs_run r' = abs_run r"
    using r r' same by (simp add: abs_run_def terminal_status_def phase_of_def same_identity_def)
  have waits: "waits_for_signal r'"
    using r(3) r' same by (simp add: waits_for_signal_def same_identity_def)
  have "run_ok r'"
    by (rule run_ok_next [OF r(1) same])
      (use r r' abs waits in \<open>auto simp: run_ok_def run_statuses_def\<close>)
  with same abs r r' show ?thesis by (simp add: advances_def parks_def flows_still records_none)
qed

subsection \<open>The handlers\<close>

lemma commits_commit_then:
  assumes "\<And>st. op st = commit_with sj upd st i (v_version view)"
    and "\<And>r now. view = view_of now r \<Longrightarrow> in_i64 now \<Longrightarrow> run_ok r \<Longrightarrow>
           \<not> terminal_status (r_status r) \<Longrightarrow> advances S r (upd r)"
  shows "commits S i view (commit_then w live op f ev)"
  by (rule commitsI [where sj = sj and upd = upd]) (simp_all add: assms)

lemmas drives_commit_then = commits_drives [OF commits_commit_then]

lemma drives_bump: "drives w i view h \<Longrightarrow> drives w i view (\<lambda>e. bump f (h e))"
  by (simp add: drives_def commits_def defers_def)

lemma drives_nudge: "drives w i view h \<Longrightarrow> drives w i view (\<lambda>e. nudge (h e))"
  by (simp add: drives_def commits_def defers_def)

lemma drives_if:
  "(P \<Longrightarrow> drives w i view f) \<Longrightarrow> (\<not> P \<Longrightarrow> drives w i view g) \<Longrightarrow>
     drives w i view (\<lambda>e. if P then f e else g e)"
  by (cases P) simp_all

lemma drives_case_option:
  "(x = None \<Longrightarrow> drives w i view f) \<Longrightarrow> (\<And>y. x = Some y \<Longrightarrow> drives w i view (g y)) \<Longrightarrow>
     drives w i view (\<lambda>e. case x of None \<Rightarrow> f e | Some y \<Rightarrow> g y e)"
  by (cases x) simp_all

lemma drives_case_prod:
  "(\<And>a b. x = (a, b) \<Longrightarrow> drives w i view (f a b)) \<Longrightarrow>
     drives w i view (\<lambda>e. case x of (a, b) \<Rightarrow> f a b e)"
  by (cases x) simp

lemma drives_case_sum:
  "(\<And>a. x = Inl a \<Longrightarrow> drives w i view (f a)) \<Longrightarrow> (\<And>b. x = Inr b \<Longrightarrow> drives w i view (g b)) \<Longrightarrow>
     drives w i view (\<lambda>e. case x of Inl a \<Rightarrow> f a e | Inr b \<Rightarrow> g b e)"
  by (cases x) simp_all

lemmas handler_simps = same_identity_def view_fields

lemma drives_complete_run:
  assumes "length (view_steps view) \<le> view_index view"
  shows "drives w i view (complete_run w live i view)"
  unfolding complete_run_def Let_def
proof (rule drives_commit_then [OF succeed_complete_def])
  fix r now
  assume r: "view = view_of now r" "run_ok r" "\<not> terminal_status (r_status r)"
  have "length (r_steps r) \<le> r_current_step_index r"
    using assms r run_ok_index [OF r(2)] by (simp add: handler_simps)
  then have "r_current_step_index r = length (r_steps r)"
    using r(2) by (simp add: run_ok_def)
  moreover from this have "r_wait_deadline_ms r = None"
    by (intro no_deadline [OF r(2)]) (simp add: waits_for_signal_def)
  ultimately show "advances {w_serde w} r (r\<lparr>r_step_runs := case None of None \<Rightarrow> r_step_runs r
      | Some row \<Rightarrow> r_step_runs r @ [row],
      r_context := parse_obj (w_serde w) (sj_print (w_serde w) (jix (v_json view) ''context'')),
      r_status := ''completed'', r_error := None, r_lease_until_ms := 0, r_updated_at := w_t1 w\<rparr>)"
    using r by (intro advances_finish flows_pass records_none)
      (auto simp: handler_simps waits_for_signal_def jix_def jget_view reprint_def)
qed

text \<open>The step a handler is called with: the current step of the snapshot.\<close>

definition current_step :: "run_view \<Rightarrow> json \<Rightarrow> nat \<Rightarrow> bool" where
  "current_step view step idx \<longleftrightarrow>
     idx = view_index view \<and> idx < length (view_steps view) \<and> step = view_steps view ! idx"

lemma current_step_view:
  assumes "current_step (view_of now r) step idx" and "run_ok r"
  shows "idx = r_current_step_index r" "r_current_step_index r < length (r_steps r)"
    "step = r_steps r ! r_current_step_index r"
  using assms(1) run_ok_index [OF assms(2)] by (simp_all add: current_step_def handler_simps)

lemma current_step_current:
  "current_step (view_of now r) step idx \<Longrightarrow> run_ok r \<Longrightarrow> current r = step"
  using current_step_view by (auto simp: current_def)

text \<open>The failure of the snapshot's current step, whoever commits it and whenever.\<close>

lemma commits_failure_row:
  assumes "view_index view < length (view_steps view)" and "row_key_of row = bad_row (view_index view)"
    and "\<And>m. apply_row row m = m"
  shows "commits S i view (terminal_failure_row w live i (v_version view) row name err)"
  unfolding terminal_failure_row_def
proof (rule commits_commit_then [OF fail_terminal_def])
  fix r now
  assume r: "view = view_of now r" "run_ok r" "\<not> terminal_status (r_status r)"
  then have "current_step (view_of now r) (view_steps view ! view_index view) (view_index view)"
    using assms(1) by (simp add: current_step_def)
  from current_step_view [OF this r(2)] assms(2,3) r
  show "advances S r (r\<lparr>r_step_runs := r_step_runs r @ [row], r_status := ''failed'',
      r_error := Some err, r_lease_until_ms := 0, r_updated_at := w_t1 w\<rparr>)"
    by (intro advances_break) (simp_all add: handler_simps)
qed

lemma commits_run_failure: "task_of i view t \<Longrightarrow> commits S i view (run_failure w t)"
  using commits_failure_row [of view "ft_row t" S i w True "ft_name t" "ft_error t"]
  unfolding task_of_def run_failure_def by simp

lemma drives_terminal_failure_row:
  assumes "current_step view step idx" and "row_key_of row = bad_row idx"
    and "\<And>m. apply_row row m = m"
  shows "drives w i view (terminal_failure_row w live i (v_version view) row name err)"
  using assms by (intro commits_drives commits_failure_row) (simp_all add: current_step_def)

lemma drives_terminal_failure:
  assumes "current_step view step idx"
  shows "drives w i view (terminal_failure w i view step idx err)"
proof -
  let ?t = "\<lparr> ft_run = i, ft_version = v_version view, ft_row = step_row idx (step_name step idx)
    (step_type step) [] 0 ''failed'' None None (Some err) None, ft_name = step_name step idx, ft_error = err \<rparr>"
  have t: "task_of i view ?t" using assms by (simp add: task_of_def current_step_def)
  have "terminal_failure w i view step idx err =
      (if w_spawn_late w then (\<lambda>e. e\<lparr>e_tasks := e_tasks e @ [?t]\<rparr>) else run_failure w ?t)"
    by (rule ext) (simp add: terminal_failure_def Let_def)
  moreover have "defers i view (\<lambda>e. e\<lparr>e_tasks := e_tasks e @ [?t]\<rparr>)"
    unfolding defers_def by (intro exI [of _ ?t]) (simp add: t)
  ultimately show ?thesis using commits_run_failure [OF t] by (simp add: drives_def)
qed

lemma not_waiting_step:
  "current_step (view_of now r) step idx \<Longrightarrow> run_ok r \<Longrightarrow> step_type step \<noteq> ''waitSignal'' \<Longrightarrow>
     \<not> waits_for_signal r"
  using current_step_view by (auto simp: waits_for_signal_def)

lemma drives_activity_success:
  assumes step: "current_step view step idx" and ty: "step_type step \<noteq> ''waitSignal''"
  shows "drives w i view
    (activity_success w live i view step idx (length (view_steps view)) fr inp out)"
proof -
  let ?sj = "w_serde w" and ?row = "step_row idx (step_name step idx) ''activity'' fr
      (view_attempt view) ''succeeded'' (Some inp) (Some (decode_output (w_serde w) out)) None None"
    and ?ctx = "sj_print (w_serde w) (JObj (obj_insert (step_name step idx)
      (decode_output (w_serde w) out) (view_context view)))"
  have last: "drives w i view (commit_then w live
      (\<lambda>st. succeed_complete ?sj (w_t1 w) st i (v_version view) (Some ?row) out' ?ctx) f ev)"
    if len: "length (view_steps view) \<le> idx + 1" for out' f ev
  proof (rule drives_commit_then [OF succeed_complete_def])
    fix r now
    assume r: "view = view_of now r" "run_ok r" "\<not> terminal_status (r_status r)"
    note nowait = not_waiting_step [OF step [unfolded r(1)] r(2) ty]
    from current_step_view [OF step [unfolded r(1)] r(2)] len r run_ok_attempt [OF r(2)]
      no_deadline [OF r(2) nowait] nowait
    show "advances {w_serde w} r (r\<lparr>r_step_runs := case Some ?row of None \<Rightarrow> r_step_runs r
        | Some row \<Rightarrow> r_step_runs r @ [row], r_context := parse_obj ?sj ?ctx,
        r_status := ''completed'', r_error := None, r_lease_until_ms := 0, r_updated_at := w_t1 w\<rparr>)"
      by (intro advances_last [where row = ?row] flows_pass
          records_row [where row = ?row])
        (simp_all add: handler_simps reprint_def)
  qed
  have next_step: "drives w i view (commit_then w live
      (\<lambda>st. succeed_advance ?sj (w_t1 w) (w_t2 w) st i (v_version view) ?row (idx + 1) ?ctx) f ev)"
    for f ev
  proof (rule drives_commit_then [OF succeed_advance_def])
    fix r now
    assume r: "view = view_of now r" "run_ok r" "\<not> terminal_status (r_status r)"
    note nowait = not_waiting_step [OF step [unfolded r(1)] r(2) ty]
    from current_step_view [OF step [unfolded r(1)] r(2)] r run_ok_attempt [OF r(2)]
      no_deadline [OF r(2) nowait] nowait
    show "advances {w_serde w} r (r\<lparr>r_step_runs := r_step_runs r @ [?row], r_context := parse_obj ?sj ?ctx,
        r_current_step_index := idx + 1, r_attempt := 0, r_status := ''running'',
        r_next_run_at_ms := w_t1 w, r_lease_until_ms := 0, r_updated_at := w_t2 w\<rparr>)"
      by (intro advances_pass [where row = ?row] flows_pass
          records_row [where row = ?row])
        (simp_all add: handler_simps reprint_def)
  qed
  show ?thesis
    unfolding activity_success_def Let_def
    by (intro drives_if drives_nudge drives_terminal_failure [OF step] last next_step)
qed

lemma drives_activity_failure:
  assumes step: "current_step view step idx" and ty: "step_type step \<noteq> ''waitSignal''"
  shows "drives w i view (activity_failure w live i view step idx fr inp err)"
  unfolding activity_failure_def Let_def
proof (intro drives_if drives_terminal_failure_row [OF step])
  let ?row = "step_row idx (step_name step idx) ''activity'' fr (view_attempt view) ''failed''
    (Some inp) None (Some err) None"
  assume less: "i64_add (view_attempt view) 1 < max_attempts (retry_config (v_json view) step)"
  show "drives w i view (commit_then w live (\<lambda>st. fail_retry (w_serde w) (w_t1 w) (w_t2 w) st i
      (v_version view) ?row (i64_add (view_attempt view) 1) backoff err) f ev)" for backoff f ev
  proof (rule drives_commit_then [OF fail_retry_def])
    fix r now
    assume r: "view = view_of now r" "run_ok r" "\<not> terminal_status (r_status r)"
    note cur = current_step_view [OF step [unfolded r(1)] r(2)]
    have att: "view_attempt view = r_attempt r"
      using r run_ok_attempt [OF r(2)] by (simp add: handler_simps)
    moreover have "i64_add (r_attempt r) 1 = r_attempt r + 1"
      using r(2) by (intro i64_add_id) (simp add: run_ok_def in_i64_def i64_max_def i64_min_def)
    ultimately have lim: "r_attempt r + 1 < attempt_limit r (r_current_step_index r)"
      and new: "i64_add (view_attempt view) 1 = r_attempt r + 1"
      using less cur view_limit [of r now] r by simp_all
    show "advances {w_serde w} r (r\<lparr>r_step_runs := r_step_runs r @ [?row],
        r_attempt := i64_add (view_attempt view) 1, r_error := Some err, r_status := ''running'',
        r_next_run_at_ms := i64_add (w_t1 w) (max backoff 0), r_lease_until_ms := 0,
        r_updated_at := w_t2 w\<rparr>)"
      using r cur new lim no_deadline [OF r(2) not_waiting_step [OF step [unfolded r(1)] r(2) ty]]
      by (intro advances_retry [where row = ?row]) (simp_all add: same_identity_def)
  qed
qed simp_all

lemma drives_run_activity:
  assumes "current_step view step idx" and "step_type step \<noteq> ''waitSignal''"
  shows "drives w i view (run_activity w live i view step idx (length (view_steps view)) tok)"
  unfolding run_activity_def Let_def
  by (intro drives_case_sum drives_terminal_failure drives_activity_failure drives_activity_success
      assms)

lemma drives_run_sleep:
  assumes step: "current_step view step idx" and ty: "step_type step \<noteq> ''waitSignal''"
  shows "drives w i view (run_sleep w i view step idx)"
  unfolding run_sleep_def Let_def
proof (rule drives_commit_then [OF enter_sleep_def])
  fix r now
  assume r: "view = view_of now r" "run_ok r" "\<not> terminal_status (r_status r)"
  let ?row = "step_row idx (step_name step idx) ''sleep'' [] 0 ''succeeded''
    (Some (JObj (obj_of [(''durationMs'', j_i64 (int_field step ''durationMs'' 0))]))) None None
    (Some 0)"
  note nowait = not_waiting_step [OF step [unfolded r(1)] r(2) ty]
  from current_step_view [OF step [unfolded r(1)] r(2)] r no_deadline [OF r(2) nowait] nowait
  show "advances {w_serde w} r (r\<lparr>r_step_runs := r_step_runs r @ [?row], r_current_step_index := idx + 1,
      r_attempt := 0, r_status := ''running'',
      r_next_run_at_ms := i64_add (w_t1 w) (max (int_field step ''durationMs'' 0) 0),
      r_lease_until_ms := 0, r_updated_at := w_t2 w\<rparr>)"
    by (intro advances_pass [where row = ?row] flows_pass records_row [where row = ?row]) (simp_all add: same_identity_def)
qed

lemma waiting_step:
  "current_step (view_of now r) step idx \<Longrightarrow> run_ok r \<Longrightarrow> step_type step = ''waitSignal'' \<Longrightarrow>
     waits_for_signal r"
  using current_step_view by (auto simp: waits_for_signal_def)

lemma drives_run_wait_signal:
  assumes step: "current_step view step idx" and ty: "step_type step = ''waitSignal''"
  shows "drives w i view (run_wait_signal w i view step idx)"
proof -
  let ?wanted = "case Option.bind (jget step ''signalName'') as_str of Some s \<Rightarrow> s | None \<Rightarrow> []"
  let ?buffer = "case as_array (jix (v_json view) ''signals'') of Some xs \<Rightarrow> xs | None \<Rightarrow> []"
  have consume: "drives w i view (commit_then w True (\<lambda>st. consume_signal (w_serde w) (w_t1 w)
      (w_t2 w) st i (v_version view) (step_row idx (step_name step idx) ''waitSignal'' [] 0
        ''succeeded'' inp (Some v) err dur) (idx + 1) (sj_print (w_serde w) (JObj (obj_insert
        (step_name step idx) v (view_context view)))) position) f ev)"
    if found: "find_pos (signal_matches ?wanted) 0 ?buffer = Some (position, sig)"
    for inp v err dur position sig f ev
  proof (rule drives_commit_then [OF consume_signal_def])
    fix r now
    assume r: "view = view_of now r" "run_ok r" "\<not> terminal_status (r_status r)"
    let ?row = "step_row idx (step_name step idx) ''waitSignal'' [] 0 ''succeeded'' inp (Some v) err dur"
    let ?ctx = "sj_print (w_serde w) (JObj (obj_insert (step_name step idx) v (view_context view)))"
    let ?r' = "r\<lparr>r_step_runs := r_step_runs r @ [?row],
        r_signals := (if position < length (r_signals r)
                      then remove_nth position (r_signals r) else r_signals r),
        r_context := parse_obj (w_serde w) ?ctx, r_current_step_index := idx + 1, r_attempt := 0,
        r_status := ''running'', r_wait_deadline_ms := None, r_next_run_at_ms := w_t1 w,
        r_lease_until_ms := 0, r_updated_at := w_t2 w\<rparr>"
    note cur = current_step_view [OF step [unfolded r(1)] r(2)]
      and cr = current_step_current [OF step [unfolded r(1)] r(2)]
    have "?buffer = r_signals r" by (simp add: r(1) jix_def jget_view jget_run_to_json)
    moreover have "awaited r = ?wanted" using cr by (simp add: awaited_def)
    ultimately have found': "find_pos (signal_matches (awaited r)) 0 (r_signals r) = Some (position, sig)"
      using found by simp
    then have "position < length (r_signals r)" using find_pos_Some by fastforce
    with found' cur r waiting_step [OF step [unfolded r(1)] r(2) ty] have "consumes r ?r'"
      unfolding consumes_def
      by (intro exI [of _ position] exI [of _ sig]) simp
    moreover have "records {w_serde w} r ?r'"
      using r(1) by (intro records_row [where row = ?row]) (simp_all add: reprint_def view_fields)
    ultimately have "flows {w_serde w} r ?r'" by (simp add: flows_def)
    with cur r show "advances {w_serde w} r ?r'"
      by (intro advances_pass [where row = ?row]) (simp_all add: same_identity_def)
  qed
  have repark: "drives w i view (commit_then w True (\<lambda>st. repark_wait (w_serde w) (w_t1 w) st i
      (v_version view)) f ev)" for f ev
  proof (rule drives_commit_then [OF repark_wait_def])
    fix r now
    assume r: "view = view_of now r" "run_ok r" "\<not> terminal_status (r_status r)"
    with waiting_step [OF step [unfolded r(1)] r(2) ty]
    show "advances {w_serde w} r (r\<lparr>r_status := ''waiting'',
        r_next_run_at_ms := (case r_wait_deadline_ms r of Some d \<Rightarrow> d | None \<Rightarrow> i64_max),
        r_lease_until_ms := 0, r_updated_at := w_t1 w\<rparr>)"
      by (intro advances_park) (simp_all add: same_identity_def run_ok_def)
  qed
  have park: "drives w i view (commit_then w True (\<lambda>st. park_wait (w_serde w) (w_t1 w) (w_t2 w) st i
      (v_version view) deadline) f ev)" for deadline f ev
  proof (rule drives_commit_then [OF park_wait_def])
    fix r now
    assume r: "view = view_of now r" "run_ok r" "\<not> terminal_status (r_status r)"
    with waiting_step [OF step [unfolded r(1)] r(2) ty]
    show "advances {w_serde w} r (let wd = map_option (\<lambda>d. i64_add (w_t1 w) d) deadline
        in r\<lparr>r_status := ''waiting'', r_wait_deadline_ms := wd,
             r_next_run_at_ms := (case wd of Some d \<Rightarrow> d | None \<Rightarrow> i64_max),
             r_lease_until_ms := 0, r_updated_at := w_t2 w\<rparr>)"
      unfolding Let_def by (intro advances_park) (auto simp: same_identity_def)
  qed
  show ?thesis
    unfolding run_wait_signal_def Let_def
    by (intro drives_case_option drives_case_prod drives_if drives_nudge drives_bump
        drives_terminal_failure [OF step] repark park consume) simp
qed

lemma drives_do_process_run:
  "drives w i view (\<lambda>e. fst (do_process_run w live i view tok e))"
proof (cases "length (view_steps view) \<le> view_index view")
  case True
  then show ?thesis by (simp add: do_process_run_def drives_complete_run)
next
  case False
  then have step: "current_step view (view_steps view ! view_index view) (view_index view)"
    by (simp add: current_step_def)
  have split: "fst (if P then x else y) = (if P then fst x else fst y)"
    for P and x y :: "engine \<times> (string + unit)" by simp
  show ?thesis
    unfolding do_process_run_def Let_def split fst_conv
    by (intro drives_if drives_run_activity drives_run_sleep drives_run_wait_signal
        drives_terminal_failure step) (use False in simp_all)
qed

end
