(* ===== verification/Workflow.thy ===== *)
theory Workflow
  imports Step_Refinement
begin

section \<open>The workflow service as a transition system\<close>

text \<open>
  Every interleaving of the operations of \<open>src/workflow/engine.rs\<close> and \<open>src/workflow/store.rs\<close>
  on one replica: run creations, signals, cancellations, collections, scheduler ticks, workers
  and their ends. A worker may act on any snapshot ever issued, any number of times and
  arbitrarily late; this covers slow workers and a second replica replaying a snapshot. The
  failures a worker leaves to a detached task are committed by \<open>task\<close>, at any later time. Each step has its own outside world.
\<close>

record sys =
  y_engine :: engine
  y_views :: "run_view list"
  y_running :: nat
  y_ids :: "string list"

abbreviation y_store :: "sys \<Rightarrow> store" where
  "y_store s \<equiv> e_store (y_engine s)"

text \<open>
  \<open>create\<close> is the second critical section of \<open>create_run\<close>; \<open>y_ids\<close> records the identifiers
  handed out (a version-4 UUID is not generated twice). A vector is never longer than
  \<open>isize::MAX\<close>. \<open>S\<close> holds the JSON libraries the workers of this process may be linked with: any
  for most results, a single one where the printed context matters.
\<close>

inductive wf_step_in :: "serde set \<Rightarrow> u64 \<Rightarrow> sys \<Rightarrow> sys \<Rightarrow> bool"
  for S :: "serde set" and M :: u64
where
  create: "steps \<noteq> [] \<Longrightarrow> int (length steps) \<le> i64_max \<Longrightarrow> uuid \<notin> set (y_ids s) \<Longrightarrow>
    e_store e' = fst (create_run_insert sj (y_store s) (new_run uuid now d inp steps retry idem)) \<Longrightarrow>
    e_inflight e' = e_inflight (y_engine s) \<Longrightarrow> e_tasks e' = e_tasks (y_engine s) \<Longrightarrow>
    wf_step_in S M s (s\<lparr>y_engine := e', y_ids := uuid # y_ids s\<rparr>)"
| signal: "signal_from_body w i body (y_engine s) = (e', res) \<Longrightarrow> wf_step_in S M s (s\<lparr>y_engine := e'\<rparr>)"
| cancel: "engine_cancel_run w i (y_engine s) = (e', res) \<Longrightarrow> wf_step_in S M s (s\<lparr>y_engine := e'\<rparr>)"
| collect: "gc_terminal t retain (y_store s) = (st', k) \<Longrightarrow>
    wf_step_in S M s (s\<lparr>y_engine := (y_engine s)\<lparr>e_store := st'\<rparr>\<rparr>)"
| claim: "in_i64 now \<Longrightarrow> claim_and_dispatch now M lease batch (y_engine s) = (e', views) \<Longrightarrow>
    wf_step_in S M s (s\<lparr>y_engine := e', y_views := views @ y_views s,
      y_running := y_running s + length views\<rparr>)"
| work: "view \<in> set (y_views s) \<Longrightarrow> w_serde w \<in> S \<Longrightarrow>
    wf_step_in S M s (s\<lparr>y_engine := process_run w cl c race view (y_engine s)\<rparr>)"
| task: "t \<in> set (e_tasks (y_engine s)) \<Longrightarrow>
    wf_step_in S M s (s\<lparr>y_engine := run_detached w t (y_engine s)\<rparr>)"
| finish: "0 < y_running s \<Longrightarrow>
    wf_step_in S M s (s\<lparr>y_engine := worker_done (y_engine s), y_running := y_running s - 1\<rparr>)"

inductive_cases wf_stepE: "wf_step_in S M s s'"

abbreviation wf_step :: "u64 \<Rightarrow> sys \<Rightarrow> sys \<Rightarrow> bool" where
  "wf_step \<equiv> wf_step_in UNIV"

lemma wf_step_mono: "wf_step_in S M s s' \<Longrightarrow> S \<subseteq> T \<Longrightarrow> wf_step_in T M s s'"
  by (induction rule: wf_step_in.induct) (auto intro: wf_step_in.intros [simplified])

definition initial :: "sys \<Rightarrow> bool" where
  "initial s \<longleftrightarrow> y_store s = [] \<and> e_inflight (y_engine s) = 0 \<and> y_views s = [] \<and>
     y_running s = 0 \<and> y_ids s = [] \<and> e_tasks (y_engine s) = []"

text \<open>\<open>reach M n s\<close>: \<open>s\<close> is reached from the start of the process in \<open>n\<close> steps.\<close>

inductive reach :: "u64 \<Rightarrow> nat \<Rightarrow> sys \<Rightarrow> bool" for M :: u64 where
  start: "initial s \<Longrightarrow> reach M 0 s"
| step: "reach M n s \<Longrightarrow> wf_step M s s' \<Longrightarrow> reach M (Suc n) s'"

subsection \<open>How one run changes in one step\<close>

text \<open>\<open>delivers\<close>: a signal is appended to those of the run, and nothing else of its data changes.\<close>

definition delivers :: "run \<Rightarrow> run \<Rightarrow> bool" where
  "delivers r r' \<longleftrightarrow> (\<exists>sig. r_signals r' = r_signals r @ [sig]) \<and> r_context r' = r_context r \<and>
     r_step_runs r' = r_step_runs r \<and>
     r_current_step_index r' = r_current_step_index r \<and> r_status r' = r_status r"

definition evolves_in :: "serde set \<Rightarrow> run \<Rightarrow> run \<Rightarrow> bool" where
  "evolves_in S r r' \<longleftrightarrow> same_identity r r' \<and> \<not> terminal_status (r_status r) \<and>
     r_version r' = r_version r + 1 \<and> run_ok r' \<and> prefix (r_step_runs r) (r_step_runs r') \<and>
     (flows S r r' \<or> delivers r r') \<and>
     (machine (length (r_steps r)) (attempt_limit r) (abs_run r) (abs_run r') \<or>
      abs_run r' = abs_run r)"

inductive run_change_in :: "serde set \<Rightarrow> string list \<Rightarrow> string \<Rightarrow> run option \<Rightarrow> run option \<Rightarrow> bool"
  for S :: "serde set" and ids :: "string list" and j :: string
where
  same: "run_change_in S ids j x x"
| created: "j \<notin> set ids \<Longrightarrow> r_id r = j \<Longrightarrow> run_ok r \<Longrightarrow> r_version r = 0 \<Longrightarrow>
    abs_run r = initial_progress \<Longrightarrow> r_context r = [] \<Longrightarrow> run_change_in S ids j None (Some r)"
| removed: "terminal_status (r_status r) \<Longrightarrow> run_change_in S ids j (Some r) None"
| evolved: "evolves_in S r r' \<Longrightarrow> run_change_in S ids j (Some r) (Some r')"

abbreviation evolves :: "run \<Rightarrow> run \<Rightarrow> bool" where
  "evolves \<equiv> evolves_in UNIV"

inductive_simps run_change_from_None: "run_change_in S ids j None y"
inductive_simps run_change_from_Some: "run_change_in S ids j (Some r) y"
inductive_simps run_change_to_Some: "run_change_in S ids j x (Some r)"

definition view_inv :: "store \<Rightarrow> string list \<Rightarrow> run_view \<Rightarrow> bool" where
  "view_inv st ids view \<longleftrightarrow> (\<exists>now r0. view = view_of now r0 \<and> in_i64 now \<and> r_id r0 \<in> set ids \<and>
     \<not> terminal_status (r_status r0) \<and>
     (\<forall>r. hm_get st (r_id r0) = Some r \<longrightarrow> unat (r_version r0) \<le> unat (r_version r) \<and>
        (r_version r = r_version r0 \<longrightarrow> r = r0)))"

definition store_inv :: "nat \<Rightarrow> store \<Rightarrow> string list \<Rightarrow> bool" where
  "store_inv n st ids \<longleftrightarrow> hm_wf st \<and> (\<forall>j r. hm_get st j = Some r \<longrightarrow>
     r_id r = j \<and> j \<in> set ids \<and> run_ok r \<and> unat (r_version r) \<le> n)"

definition sys_inv :: "u64 \<Rightarrow> nat \<Rightarrow> sys \<Rightarrow> bool" where
  "sys_inv M n s \<longleftrightarrow> store_inv n (y_store s) (y_ids s) \<and>
     (\<forall>view \<in> set (y_views s). view_inv (y_store s) (y_ids s) view) \<and>
     (\<forall>t \<in> set (e_tasks (y_engine s)). \<exists>view \<in> set (y_views s). task_of (view_run_id view) view t) \<and>
     unat (e_inflight (y_engine s)) = y_running s \<and> y_running s \<le> unat M"

lemma store_invD:
  "store_inv n st ids \<Longrightarrow> hm_get st j = Some r \<Longrightarrow>
     r_id r = j \<and> j \<in> set ids \<and> run_ok r \<and> unat (r_version r) \<le> n"
  by (simp add: store_inv_def)

text \<open>The version is not part of what the machine or the well-formedness sees.\<close>

lemma ignore_version [simp]:
  "abs_run (r\<lparr>r_version := v\<rparr>) = abs_run r"
  "run_ok (r\<lparr>r_version := v\<rparr>) = run_ok r"
  "same_identity r0 (r\<lparr>r_version := v\<rparr>) = same_identity r0 r"
  "flows S r0 (r\<lparr>r_version := v\<rparr>) = flows S r0 r"
proof -
  show abs: "abs_run (r\<lparr>r_version := v\<rparr>) = abs_run r" by (simp add: abs_run_def)
  have "attempt_limit (r\<lparr>r_version := v\<rparr>) = attempt_limit r"
    by (rule ext) (simp add: attempt_limit_def)
  then show "run_ok (r\<lparr>r_version := v\<rparr>) = run_ok r"
    by (simp add: run_ok_def abs waits_for_signal_def)
qed (simp_all add: same_identity_def flows_def consumes_def records_def)

lemma evolves_same_progress:
  assumes "run_ok r" and "\<not> terminal_status (r_status r)" and "same_identity r r'"
    and "abs_run r' = abs_run r" and "r_version r' = r_version r + 1"
    and "r_status r' \<in> set run_statuses" and "r_step_runs r' = r_step_runs r"
    and "r_current_step_index r' = r_current_step_index r" and "r_attempt r' = r_attempt r"
    and "length (r_signals r') \<le> MAX_PENDING_SIGNALS"
    and "r_context r' = r_context r"
    and "r_signals r' = r_signals r \<and> r_status r' \<noteq> ''completed'' \<or> delivers r r'"
    and "r_status r' = ''waiting'' \<Longrightarrow> r_status r = ''waiting''"
    and "r_wait_deadline_ms r' = r_wait_deadline_ms r"
  shows "evolves_in S r r'"
proof -
  have waits: "waits_for_signal r' = waits_for_signal r"
    using assms(3,8) by (simp add: waits_for_signal_def same_identity_def)
  have "run_ok r'"
    by (rule run_ok_next [OF assms(1,3)])
      (use assms waits in \<open>auto simp: run_ok_def\<close>)
  moreover have "flows S r r' \<or> delivers r r'" using assms flows_still [OF records_none] by blast
  ultimately show ?thesis using assms by (simp add: evolves_in_def)
qed

subsection \<open>The operations, one by one\<close>

text \<open>Replacing one run by an evolved one changes no other run.\<close>

lemma change_put:
  assumes "store_inv n st ids" and "hm_get st i = Some r" and "evolves_in S r r'"
  shows "run_change_in S ids j (hm_get st j) (hm_get (hm_put i r' st) j)"
  using assms by (cases "j = i") (auto simp: hm_get_put intro: run_change_in.intros)

lemma change_create:
  assumes inv: "store_inv n st ids" and "steps \<noteq> []" and "int (length steps) \<le> i64_max"
    and "uuid \<notin> set ids"
  shows "run_change_in S ids j (hm_get st j)
    (hm_get (fst (create_run_insert sj st (new_run uuid now d inp steps retry idem))) j)"
proof -
  let ?r = "new_run uuid now d inp steps retry idem"
  have abs: "abs_run ?r = initial_progress"
    by (simp add: abs_run_def new_run_def initial_progress_def phase_of_def)
  have "run_ok ?r"
    using run_machine.initial_ok [of ?r] assms(2,3) abs
    by (simp add: run_ok_def run_statuses_def new_run_def)
  moreover have "hm_get st uuid = None"
    using store_invD [OF inv, of uuid] assms(4) by (cases "hm_get st uuid") auto
  moreover have "r_id ?r = uuid" "r_version ?r = 0" "r_context ?r = []"
    by (simp_all add: new_run_def)
  ultimately show ?thesis
    using abs assms(4) by (cases "j = uuid")
      (auto simp: create_run_insert_def hm_get_put intro: run_change_in.intros)
qed

lemma change_signal:
  assumes inv: "store_inv n st ids"
  shows "run_change_in S ids j (hm_get st j) (hm_get (fst (deliver_signal sj t1 t2 st i nm pl)) j)"
proof (cases "hm_get st i")
  case None
  then show ?thesis by (simp add: deliver_signal_def run_change_in.same)
next
  case (Some r)
  show ?thesis
  proof (cases "terminal_status (r_status r) \<or> MAX_PENDING_SIGNALS \<le> length (r_signals r)")
    case True
    with Some show ?thesis by (auto simp: deliver_signal_def run_change_in.same)
  next
    case False
    have "evolves_in S r (r\<lparr>r_signals := r_signals r @ [sig], r_next_run_at_ms := t1, r_lease_until_ms := 0,
        r_updated_at := t2, r_version := r_version r + 1\<rparr>)" for sig
      using False store_invD [OF inv Some]
      by (intro evolves_same_progress) (auto simp: same_identity_def abs_run_def run_ok_def delivers_def)
    from change_put [OF inv Some this] Some False show ?thesis
      by (simp add: deliver_signal_def Let_def)
  qed
qed

lemma change_cancel:
  assumes inv: "store_inv n st ids"
  shows "run_change_in S ids j (hm_get st j) (hm_get (fst (cancel_run sj t st i)) j)"
proof (cases "hm_get st i")
  case None
  then show ?thesis by (simp add: cancel_run_def run_change_in.same)
next
  case (Some r)
  let ?r' = "r\<lparr>r_status := ''canceled'', r_updated_at := t, r_version := r_version r + 1\<rparr>"
  show ?thesis
  proof (cases "terminal_status (r_status r)")
    case True
    with Some show ?thesis by (auto simp: cancel_run_def run_change_in.same)
  next
    case False
    from store_invD [OF inv Some] have ok: "run_ok r" by blast
    have same: "same_identity r ?r'" by (simp add: same_identity_def)
    have "abs_run ?r' = (abs_run r)\<lparr>pg_phase := Stopped\<rparr>"
      using False by (simp add: abs_run_def phase_of_def terminal_status_def)
    then have "machine (length (r_steps r)) (attempt_limit r) (abs_run r) (abs_run ?r')"
      using machine.stop [of "abs_run r"] False by (simp add: terminal_phase abs_run_def)
    moreover from this have "run_ok ?r'"
      by (intro run_ok_next [OF ok same])
        (use ok in \<open>auto simp: run_ok_def run_statuses_def waits_for_signal_def\<close>)
    moreover have "flows S r ?r'" by (intro flows_still records_none) simp_all
    ultimately have "evolves_in S r ?r'" using False same by (simp add: evolves_in_def)
    from change_put [OF inv Some this] Some False show ?thesis
      by (simp add: cancel_run_def Let_def)
  qed
qed

lemma change_collect:
  assumes inv: "store_inv n st ids"
  shows "run_change_in S ids j (hm_get st j) (hm_get (fst (gc_terminal t retain st)) j)"
  using inv
  by (auto simp: gc_terminal_def Let_def store_inv_def hm_get_retain split: option.split
      intro: run_change_in.intros)

lemma claim_one_evolves:
  assumes "run_ok r" and "\<not> terminal_status (r_status r)"
  shows "evolves_in S r (claim_one now lease r)"
  using assms
  by (intro evolves_same_progress)
    (auto simp: claim_one_def same_identity_def abs_run_def phase_of_def terminal_status_def
      run_ok_def run_statuses_def)

lemma claim_loop_get:
  "distinct is \<Longrightarrow> hm_get (fst (claim_loop now lease is st)) j =
     (if j \<in> set is then map_option (claim_one now lease) (hm_get st j) else hm_get st j)"
proof (induction "is" arbitrary: st)
  case (Cons i js)
  then show ?case
    by (auto simp: case_prod_beta Let_def hm_get_put split: option.split)
qed simp

lemma claim_loop_wf: "hm_wf st \<Longrightarrow> hm_wf (fst (claim_loop now lease is st))"
  by (induction "is" arbitrary: st) (auto simp: case_prod_beta Let_def split: option.split)

lemma claim_loop_views:
  "distinct is \<Longrightarrow> view \<in> set (snd (claim_loop now lease is st)) \<Longrightarrow>
     \<exists>i \<in> set is. \<exists>r. hm_get st i = Some r \<and> view = view_of now (claim_one now lease r)"
proof (induction "is" arbitrary: st)
  case (Cons i js)
  show ?case
  proof (cases "hm_get st i")
    case None
    with Cons show ?thesis by auto
  next
    case (Some r)
    with Cons.prems consider "view = view_of now (claim_one now lease r)"
      | "view \<in> set (snd (claim_loop now lease js (hm_put i (claim_one now lease r) st)))"
      by (auto simp: case_prod_beta Let_def)
    then show ?thesis
    proof cases
      case 2
      with Cons.IH [of "hm_put i (claim_one now lease r) st"] Cons.prems
      obtain j r' where "j \<in> set js" "hm_get (hm_put i (claim_one now lease r) st) j = Some r'"
        "view = view_of now (claim_one now lease r')" by auto
      moreover from this Cons.prems have "j \<noteq> i" by auto
      ultimately show ?thesis by auto
    qed (use Some in auto)
  qed
qed simp

lemma claim_loop_length: "length (snd (claim_loop now lease is st)) \<le> length is"
  by (induction "is" arbitrary: st)
    (auto simp: case_prod_beta Let_def le_SucI split: option.split)

lemma due_ids_distinct:
  assumes "store_inv n st ids"
  shows "distinct (due_ids now limit st)"
proof -
  have "map r_id (map snd st) = map fst st"
    using assms by (auto simp: store_inv_def hm_get_mem [symmetric])
  moreover have "distinct (map fst st)"
    using assms by (simp add: store_inv_def hm_wf_def)
  ultimately have "distinct (map r_id (map snd st))" by (simp only:)
  then have "distinct (map r_id (filter (is_due now) (map snd st)))"
    by (rule distinct_map_filter)
  then show ?thesis by (simp add: due_ids_def distinct_take)
qed

lemma due_ids_due:
  assumes "store_inv n st ids" and "i \<in> set (due_ids now limit st)"
  shows "\<exists>r. hm_get st i = Some r \<and> is_due now r"
proof -
  from assms(2) have "i \<in> set (map r_id (filter (is_due now) (map snd st)))"
    unfolding due_ids_def using take_sort_subset by blast
  then obtain k r where "(k, r) \<in> set st" "is_due now r" "r_id r = i" by auto
  with assms(1) show ?thesis by (auto simp: store_inv_def hm_get_mem)
qed

lemma due_ids_length: "length (due_ids now limit st) \<le> limit"
  by (simp add: due_ids_def)

lemma change_claim:
  assumes inv: "store_inv n st ids"
  shows "run_change_in S ids j (hm_get st j) (hm_get (fst (claim_due now st limit lease)) j)"
proof (cases "j \<in> set (due_ids now limit st)")
  case True
  with due_ids_due [OF inv] obtain r where r: "hm_get st j = Some r" "is_due now r" by blast
  then have "evolves_in S r (claim_one now lease r)"
    using store_invD [OF inv] by (intro claim_one_evolves) (auto simp: is_due_def)
  with r True due_ids_distinct [OF inv] show ?thesis
    by (simp add: claim_due_def claim_loop_get run_change_in.evolved)
next
  case False
  with due_ids_distinct [OF inv] show ?thesis
    by (simp add: claim_due_def claim_loop_get run_change_in.same)
qed

text \<open>A worker: its commit applies only when its snapshot is still the current contents.\<close>

text \<open>What running a worker may do to the engine: nothing, a task, or one commit.\<close>

definition commit_effect :: "serde set \<Rightarrow> run_view \<Rightarrow> engine \<Rightarrow> engine \<Rightarrow> bool" where
  "commit_effect S view e e' \<longleftrightarrow> (\<exists>sj upd.
     e_store e' = fst (commit_with sj upd (e_store e) (view_run_id view) (v_version view)) \<and>
     (\<forall>r now. view = view_of now r \<longrightarrow> in_i64 now \<longrightarrow> run_ok r \<longrightarrow> \<not> terminal_status (r_status r) \<longrightarrow>
        advances S r (upd r)))"

definition defer_effect :: "run_view \<Rightarrow> engine \<Rightarrow> engine \<Rightarrow> bool" where
  "defer_effect view e e' \<longleftrightarrow> (\<exists>t. task_of (view_run_id view) view t \<and> e_store e' = e_store e \<and>
     e_tasks e' = e_tasks e @ [t])"

lemma do_process_run_effect:
  fixes w live view tok e
  defines "e' \<equiv> fst (do_process_run w live (view_run_id view) view tok e)"
  shows "e_inflight e' = e_inflight e \<and>
    (commit_effect {w_serde w} view e e' \<and> e_tasks e' = e_tasks e \<or>
     w_spawn_late w \<and> defer_effect view e e')"
proof -
  consider "commits {w_serde w} (view_run_id view) view (\<lambda>e. fst (do_process_run w live (view_run_id view) view tok e))"
    | "w_spawn_late w" "defers (view_run_id view) view (\<lambda>e. fst (do_process_run w live (view_run_id view) view tok e))"
    using drives_do_process_run [of w "view_run_id view" view live tok] unfolding drives_def by blast
  then show ?thesis
  proof cases
    case 1
    then show ?thesis unfolding commits_def commit_effect_def e'_def by blast
  next
    case 2
    then show ?thesis unfolding defers_def defer_effect_def e'_def by blast
  qed
qed

lemma process_run_granted:
  assumes "try_lease_run cl c (view_run_id view) = Inr (Some l)" and "race \<noteq> LostBeforeCommit"
  shows "e_store (process_run w cl c race view e) = e_store (fst (do_process_run w
      (race = WorkFinished) (view_run_id view) view (rl_fencing_token l) e)) \<and>
    e_inflight (process_run w cl c race view e) = e_inflight (fst (do_process_run w
      (race = WorkFinished) (view_run_id view) view (rl_fencing_token l) e)) \<and>
    e_tasks (process_run w cl c race view e) = e_tasks (fst (do_process_run w
      (race = WorkFinished) (view_run_id view) view (rl_fencing_token l) e))"
  using assms by (auto simp: process_run_def Let_def case_prod_beta split: race.splits sum.splits)

lemma process_run_refused:
  assumes "\<nexists>l. try_lease_run cl c (view_run_id view) = Inr (Some l) \<and> race \<noteq> LostBeforeCommit"
  shows "process_run w cl c race view e \<in> {e, worker_exception e}"
  using assms by (auto simp: process_run_def Let_def split: race.splits sum.splits option.splits)

lemma process_run_effect:
  fixes w cl c race view e
  defines "e' \<equiv> process_run w cl c race view e"
  shows "e_inflight e' = e_inflight e \<and>
    (e_store e' = e_store e \<and> e_tasks e' = e_tasks e \<or>
     commit_effect {w_serde w} view e e' \<and> e_tasks e' = e_tasks e \<or> w_spawn_late w \<and> defer_effect view e e')"
proof (cases "\<exists>l. try_lease_run cl c (view_run_id view) = Inr (Some l) \<and> race \<noteq> LostBeforeCommit")
  case True
  then obtain l where l: "try_lease_run cl c (view_run_id view) = Inr (Some l)" "race \<noteq> LostBeforeCommit"
    by blast
  show ?thesis
    using do_process_run_effect [of w "race = WorkFinished" view "rl_fencing_token l" e]
      process_run_granted [OF l, of w e]
    unfolding e'_def commit_effect_def defer_effect_def by metis
next
  case False
  then have "e' \<in> {e, worker_exception e}" unfolding e'_def by (rule process_run_refused)
  then show ?thesis by auto
qed

lemma run_detached_effect:
  assumes "task_of (view_run_id view) view t"
  shows "e_inflight (run_detached w t e) = e_inflight e \<and> e_tasks (run_detached w t e) = remove1 t (e_tasks e) \<and>
    commit_effect S view e (run_detached w t e)"
proof -
  from commits_run_failure [OF assms, of S w] obtain sj upd where
    "\<And>e. e_store (run_failure w t e) = fst (commit_with sj upd (e_store e) (view_run_id view) (v_version view)) \<and>
       e_inflight (run_failure w t e) = e_inflight e \<and> e_tasks (run_failure w t e) = e_tasks e"
    "\<And>r now. view = view_of now r \<Longrightarrow> in_i64 now \<Longrightarrow> run_ok r \<Longrightarrow>
      \<not> terminal_status (r_status r) \<Longrightarrow> advances S r (upd r)"
    unfolding commits_def by blast
  then show ?thesis unfolding run_detached_def commit_effect_def
    by (intro conjI exI [of _ sj] exI [of _ upd]) simp_all
qed

lemma stale_view_refused:
  assumes "hm_get st (view_run_id view) = None \<or>
      (\<exists>r. hm_get st (view_run_id view) = Some r \<and> r_version r \<noteq> v_version view)"
  shows "fst (commit_with sj upd st (view_run_id view) (v_version view)) = st"
  using assms by (auto simp: commit_with_None commit_with_refused)

lemma change_commit:
  assumes inv: "store_inv n st ids" and view: "view_inv st ids view"
    and upd: "\<And>r now. view = view_of now r \<Longrightarrow> in_i64 now \<Longrightarrow> run_ok r \<Longrightarrow>
        \<not> terminal_status (r_status r) \<Longrightarrow> advances S r (upd r)"
  shows "run_change_in S ids j (hm_get st j)
    (hm_get (fst (commit_with sj upd st (view_run_id view) (v_version view))) j)"
proof (cases "\<exists>r. hm_get st (view_run_id view) = Some r \<and> r_version r = v_version view")
  case False
  then have "fst (commit_with sj upd st (view_run_id view) (v_version view)) = st"
    by (intro stale_view_refused) (cases "hm_get st (view_run_id view)"; auto)
  then show ?thesis by (simp add: run_change_in.same)
next
  case True
  then obtain r where r: "hm_get st (view_run_id view) = Some r" "r_version r = v_version view" by blast
  from view r obtain now where now: "view = view_of now r" "in_i64 now"
    "\<not> terminal_status (r_status r)" by (auto simp: view_inv_def view_fields)
  from store_invD [OF inv r(1)] have ok: "run_ok r" by blast
  let ?r' = "(upd r)\<lparr>r_version := r_version r + 1\<rparr>"
  from upd [OF now(1,2) ok now(3)] have "evolves_in S r ?r'"
    using now(3) by (auto simp: evolves_in_def advances_def parks_def)
  from change_put [OF inv r(1) this] show ?thesis
    using commit_with_applied [OF r(1) _ r(2), of sj upd] now(3)
    by (cases "r_status r = ''canceled''") (simp_all add: terminal_status_def)
qed

lemma change_commit_effect:
  assumes "store_inv n (e_store e) ids" and "view_inv (e_store e) ids view" and "commit_effect S view e e'"
  shows "run_change_in S ids j (hm_get (e_store e) j) (hm_get (e_store e') j)"
proof -
  from assms(3) obtain sj upd where
    "e_store e' = fst (commit_with sj upd (e_store e) (view_run_id view) (v_version view))"
    "\<And>r now. view = view_of now r \<Longrightarrow> in_i64 now \<Longrightarrow> run_ok r \<Longrightarrow>
      \<not> terminal_status (r_status r) \<Longrightarrow> advances S r (upd r)"
    unfolding commit_effect_def by blast
  with change_commit [OF assms(1,2)] show ?thesis by simp
qed

lemma commit_effect_mono: "commit_effect S view e e' \<Longrightarrow> S \<subseteq> T \<Longrightarrow> commit_effect T view e e'"
  unfolding commit_effect_def using advances_mono by meson

lemma change_work:
  assumes "store_inv n (e_store e) ids" and "view_inv (e_store e) ids view" and "w_serde w \<in> S"
  shows "run_change_in S ids j (hm_get (e_store e) j) (hm_get (e_store (process_run w cl c race view e)) j)"
  using process_run_effect [of w cl c race view e] assms(3)
    change_commit_effect [OF assms(1,2) commit_effect_mono [of "{w_serde w}" _ _ _ S]]
  by (auto simp: defer_effect_def intro: run_change_in.same)

text \<open>The engine operations around the store.\<close>

lemma signal_effect:
  "signal_from_body w i body e = (e', res) \<Longrightarrow> e_inflight e' = e_inflight e \<and> e_tasks e' = e_tasks e \<and>
     (e_store e' = e_store e \<or> (\<exists>nm pl. e_store e' =
        fst (deliver_signal (w_serde w) (w_t1 w) (w_t2 w) (e_store e) i nm pl)))"
  by (auto simp: signal_from_body_def Let_def case_prod_beta split: sum.splits option.splits prod.splits)
    (metis fst_conv)+

lemma cancel_effect:
  "engine_cancel_run w i e = (e', res) \<Longrightarrow> e_inflight e' = e_inflight e \<and> e_tasks e' = e_tasks e \<and>
     e_store e' = fst (cancel_run (w_serde w) (w_t1 w) (e_store e) i)"
  by (auto simp: engine_cancel_run_def Let_def split: prod.splits commit.splits)

lemma claim_effect:
  assumes "claim_and_dispatch now M lease batch e = (e', views)"
  obtains "e' = e" "views = []"
  | limit where "e_inflight e < M" "limit \<le> unat (M - e_inflight e)"
      "e_store e' = fst (claim_due now (e_store e) limit lease)"
      "views = snd (claim_due now (e_store e) limit lease)"
      "e_inflight e' = e_inflight e + of_nat (length views)" "e_tasks e' = e_tasks e"
proof (cases "e_inflight e < M")
  case True
  let ?limit = "min (unat (M - e_inflight e)) batch"
  from True have "M - e_inflight e \<noteq> 0" by auto
  with assms True show ?thesis
    by (intro that(2) [of ?limit]) (auto simp: claim_and_dispatch_def Let_def case_prod_beta)
next
  case False
  with assms show ?thesis by (intro that(1)) (simp_all add: claim_and_dispatch_def Let_def)
qed

subsection \<open>The invariant of the system\<close>

lemma step_change:
  assumes inv: "sys_inv M n s" and "wf_step_in S M s s'"
  shows "run_change_in S (y_ids s) j (hm_get (y_store s) j) (hm_get (y_store s') j)"
proof -
  from inv have st: "store_inv n (y_store s) (y_ids s)" by (simp add: sys_inv_def)
  from assms(2) show ?thesis
  proof cases
    case (create steps uuid e' sj now d inp retry idem)
    with change_create [OF st] show ?thesis by simp
  next
    case (signal w i body e' res)
    from signal_effect [OF signal(2)] change_signal [OF st] signal(1) show ?thesis
      by (auto intro: run_change_in.same)
  next
    case (cancel w i e' res)
    from cancel_effect [OF cancel(2)] change_cancel [OF st] cancel(1) show ?thesis by simp
  next
    case (collect t retain st' k)
    with change_collect [OF st, where j = j and t = t and retain = retain] show ?thesis by simp
  next
    case (claim now lease batch e' views)
    from claim(3) show ?thesis
      by (rule claim_effect) (use change_claim [OF st] claim(1) in \<open>auto intro: run_change_in.same\<close>)
  next
    case (work view w cl c race)
    with inv have "view_inv (y_store s) (y_ids s) view" by (simp add: sys_inv_def)
    from change_work [OF st this work(3)] work(1) show ?thesis by simp
  next
    case (task t w)
    with inv obtain view where v: "view_inv (y_store s) (y_ids s) view" "task_of (view_run_id view) view t"
      unfolding sys_inv_def by blast
    from change_commit_effect [OF st v(1)] run_detached_effect [OF v(2)] task(1) show ?thesis by simp
  qed (simp add: worker_done_def run_change_in.same)
qed

text \<open>The identifiers only grow, and a store well-formed before is well-formed after.\<close>

lemma step_ids: "wf_step_in S M s s' \<Longrightarrow> set (y_ids s) \<subseteq> set (y_ids s')"
  by (erule wf_stepE) auto

lemma step_created:
  assumes inv: "sys_inv M n s" and "wf_step M s s'" and "hm_get (y_store s) j = None"
    and "hm_get (y_store s') j = Some r"
  shows "j \<in> set (y_ids s')"
proof -
  from inv have st: "store_inv n (y_store s) (y_ids s)" by (simp add: sys_inv_def)
  from assms(2) show ?thesis
  proof cases
    case (create steps uuid e' sj now d inp retry idem)
    with assms(3,4) show ?thesis
      by (auto simp: create_run_insert_def hm_get_put new_run_def split: if_splits)
  next
    case (signal w i body e' res)
    from signal_effect [OF signal(2)] change_signal [OF st, where j = j] signal(1) assms(3,4)
    show ?thesis
      by (auto simp: deliver_signal_def Let_def hm_get_put split: option.splits if_splits)
  next
    case (cancel w i e' res)
    from cancel_effect [OF cancel(2)] cancel(1) assms(3,4) show ?thesis
      by (auto simp: cancel_run_def Let_def hm_get_put split: option.splits if_splits)
  next
    case (collect t retain st' k)
    then have "y_store s' = fst (gc_terminal t retain (y_store s))" by simp
    with st assms(3,4) show ?thesis
      by (simp add: gc_terminal_def Let_def store_inv_def hm_get_retain)
  next
    case (claim now lease batch e' views)
    from claim(3) show ?thesis
    proof (rule claim_effect)
      fix limit
      assume "e_store e' = fst (claim_due now (y_store s) limit lease)"
      with assms(3,4) claim(1) due_ids_distinct [OF st] show ?thesis
        by (auto simp: claim_due_def claim_loop_get split: if_splits)
    qed (use claim(1) assms in simp)
  next
    case (work view w cl c race)
    with process_run_effect [of w cl c race view "y_engine s"] assms(3,4) show ?thesis
      by (auto simp: commit_effect_def defer_effect_def commit_with_def guard_def Let_def hm_get_put
          split: option.splits if_splits)
  next
    case (task t w)
    with inv obtain view where "task_of (view_run_id view) view t" unfolding sys_inv_def by blast
    from run_detached_effect [OF this, of w "y_engine s" S] task(1) assms(3,4) show ?thesis
      by (auto simp: commit_effect_def commit_with_def guard_def Let_def hm_get_put
          split: option.splits if_splits)
  qed (use assms in \<open>simp add: worker_done_def\<close>)
qed

lemma step_hm_wf:
  assumes "hm_wf (y_store s)" and "wf_step M s s'"
  shows "hm_wf (y_store s')"
  using assms(2)
proof cases
  case (signal w i body e' res)
  from signal_effect [OF signal(2)] signal(1) assms(1) show ?thesis
    by (auto simp: deliver_signal_def Let_def split: option.split)
next
  case (cancel w i e' res)
  from cancel_effect [OF cancel(2)] cancel(1) assms(1) show ?thesis
    by (auto simp: cancel_run_def Let_def split: option.split)
next
  case (claim now lease batch e' views)
  from claim(3) show ?thesis
    by (rule claim_effect) (use claim(1) assms(1) in \<open>simp_all add: claim_due_def claim_loop_wf\<close>)
next
  case (work view w cl c race)
  with process_run_effect [of w cl c race view "y_engine s"] assms(1) show ?thesis
    by (auto simp: commit_effect_def defer_effect_def commit_with_def guard_def Let_def split: option.split)
next
  case (task t w)
  with assms(1) show ?thesis
    by (auto simp: run_detached_def run_failure_def terminal_failure_row_def fail_terminal_def
        commit_with_def guard_def Let_def split: option.split)
qed (use assms in \<open>auto simp: create_run_insert_def gc_terminal_def Let_def worker_done_def\<close>)

lemma evolves_identity: "evolves_in S r r' \<Longrightarrow> r_id r' = r_id r \<and> run_ok r' \<and> r_version r' = r_version r + 1"
  by (simp add: evolves_in_def same_identity_def)

lemma step_store_inv:
  assumes inv: "sys_inv M n s" and st: "wf_step M s s'" and n: "Suc n < 2 ^ 64"
  shows "store_inv (Suc n) (y_store s') (y_ids s')"
proof -
  from inv have old: "store_inv n (y_store s) (y_ids s)" by (simp add: sys_inv_def)
  have "r_id r = j \<and> j \<in> set (y_ids s') \<and> run_ok r \<and> unat (r_version r) \<le> Suc n"
    if get: "hm_get (y_store s') j = Some r" for j r
    using step_change [OF inv st, where j = j] unfolding get run_change_to_Some
  proof (elim disjE exE conjE)
    assume "Some r = hm_get (y_store s) j"
    then show ?thesis using store_invD [OF old, of j r] step_ids [OF st] by auto
  next
    assume "hm_get (y_store s) j = None" "r_id r = j" "run_ok r" "r_version r = 0"
    then show ?thesis using step_created [OF inv st _ get] by simp
  next
    fix r0
    assume r0: "hm_get (y_store s) j = Some r0" "evolves r0 r"
    with store_invD [OF old, of j r0] have "unat (r_version r0) \<le> n" "r_id r0 = j"
      "j \<in> set (y_ids s)" by simp_all
    moreover from this n have "unat (r_version r) = Suc (unat (r_version r0))"
      using evolves_identity [OF r0(2)] by (simp add: unat_u64_Suc)
    ultimately show ?thesis using evolves_identity [OF r0(2)] step_ids [OF st] by auto
  qed
  moreover have "hm_wf (y_store s')"
    using old by (intro step_hm_wf [OF _ st]) (simp add: store_inv_def)
  ultimately show ?thesis by (simp add: store_inv_def)
qed

text \<open>A snapshot issued before stays a snapshot of the past.\<close>

lemma step_old_view:
  assumes inv: "sys_inv M n s" and st: "wf_step M s s'" and n: "Suc n < 2 ^ 64"
    and "view_inv (y_store s) (y_ids s) view"
  shows "view_inv (y_store s') (y_ids s') view"
proof -
  from inv have old: "store_inv n (y_store s) (y_ids s)" by (simp add: sys_inv_def)
  from assms(4) obtain now r0 where v: "view = view_of now r0" "in_i64 now" "r_id r0 \<in> set (y_ids s)"
    "\<not> terminal_status (r_status r0)"
    and cur: "\<And>r. hm_get (y_store s) (r_id r0) = Some r \<Longrightarrow>
      unat (r_version r0) \<le> unat (r_version r) \<and> (r_version r = r_version r0 \<longrightarrow> r = r0)"
    unfolding view_inv_def by blast
  have "unat (r_version r0) \<le> unat (r_version r) \<and> (r_version r = r_version r0 \<longrightarrow> r = r0)"
    if get: "hm_get (y_store s') (r_id r0) = Some r" for r
    using step_change [OF inv st, where j = "r_id r0"] unfolding get run_change_to_Some
  proof (elim disjE exE conjE)
    assume "Some r = hm_get (y_store s) (r_id r0)"
    then show ?thesis using cur by simp
  next
    fix r1
    assume r1: "hm_get (y_store s) (r_id r0) = Some r1" "evolves r1 r"
    with store_invD [OF old r1(1)] n have "unat (r_version r) = Suc (unat (r_version r1))"
      using evolves_identity [OF r1(2)] by (simp add: unat_u64_Suc)
    with cur [OF r1(1)] show ?thesis by auto
  qed (use v(3) in simp)
  with v step_ids [OF st] show ?thesis unfolding view_inv_def by blast
qed

lemma claim_new_view:
  assumes old: "store_inv n st ids" and "in_i64 now" and "view \<in> set (snd (claim_due now st limit lease))"
  shows "view_inv (fst (claim_due now st limit lease)) ids view"
proof -
  from assms(3) claim_loop_views [OF due_ids_distinct [OF old]]
  obtain i r where i: "i \<in> set (due_ids now limit st)" "hm_get st i = Some r"
    "view = view_of now (claim_one now lease r)" unfolding claim_due_def by blast
  with due_ids_due [OF old i(1)] have "\<not> terminal_status (r_status (claim_one now lease r))"
    by (auto simp: is_due_def claim_one_def terminal_status_def)
  moreover have "r_id (claim_one now lease r) = i" "i \<in> set ids"
    using store_invD [OF old i(2)] by (simp_all add: claim_one_def)
  moreover have "hm_get (fst (claim_due now st limit lease)) i = Some (claim_one now lease r)"
    using i due_ids_distinct [OF old] by (simp add: claim_due_def claim_loop_get)
  ultimately show ?thesis using i(3) assms(2) unfolding view_inv_def
    by (intro exI [of _ now] exI [of _ "claim_one now lease r"]) simp
qed

lemma step_views:
  assumes inv: "sys_inv M n s" and st: "wf_step M s s'" and n: "Suc n < 2 ^ 64"
  shows "\<forall>view \<in> set (y_views s'). view_inv (y_store s') (y_ids s') view"
proof -
  from inv have old: "store_inv n (y_store s) (y_ids s)" by (simp add: sys_inv_def)
  have keep: "view_inv (y_store s') (y_ids s') view" if "view \<in> set (y_views s)" for view
    using inv that by (intro step_old_view [OF inv st n]) (simp add: sys_inv_def)
  from st show ?thesis
  proof cases
    case (claim now lease batch e' views)
    from claim(3) show ?thesis
    proof (rule claim_effect)
      fix limit
      assume "e_store e' = fst (claim_due now (y_store s) limit lease)"
        "views = snd (claim_due now (y_store s) limit lease)"
      with claim_new_view [OF old claim(2)] keep claim(1) show ?thesis by auto
    qed (use keep claim(1) in auto)
  qed (use keep in auto)
qed

lemma step_inflight:
  assumes inv: "sys_inv M n s" and st: "wf_step M s s'"
  shows "unat (e_inflight (y_engine s')) = y_running s' \<and> y_running s' \<le> unat M"
proof -
  from inv have old: "unat (e_inflight (y_engine s)) = y_running s" "y_running s \<le> unat M"
    by (simp_all add: sys_inv_def)
  from st show ?thesis
  proof cases
    case (signal w i body e' res)
    with signal_effect [OF signal(2)] old show ?thesis by simp
  next
    case (cancel w i e' res)
    with cancel_effect [OF cancel(2)] old show ?thesis by simp
  next
    case (claim now lease batch e' views)
    from claim(3) show ?thesis
    proof (rule claim_effect)
      fix limit
      assume h: "e_inflight (y_engine s) < M" "limit \<le> unat (M - e_inflight (y_engine s))"
        "views = snd (claim_due now (y_store s) limit lease)"
        "e_inflight e' = e_inflight (y_engine s) + of_nat (length views)"
      have "length views \<le> limit"
        using order_trans [OF claim_loop_length due_ids_length] h(3) by (simp add: claim_due_def)
      also have "limit \<le> unat M - y_running s"
        using h(1,2) old by (simp add: unat_sub less_imp_le)
      finally have le: "y_running s + length views \<le> unat M" using old(2) by simp
      then have "unat (e_inflight e') = y_running s + length views"
        using h(4) old(1) unat_u64_bound [of M]
        by (simp add: unat_word_ariths unat_of_nat)
      with le claim(1) show ?thesis by simp
    qed (use old claim(1) in simp)
  next
    case (work view w cl c race)
    with process_run_effect [of w cl c race view "y_engine s"] old show ?thesis by simp
  next
    case (task t w)
    with old show ?thesis by (simp add: run_detached_def run_failure_def terminal_failure_row_def)
  next
    case finish
    then have "e_inflight (y_engine s) \<noteq> 0" using old(1) by auto
    then have "unat (e_inflight (y_engine s) - 1) = unat (e_inflight (y_engine s)) - 1"
      by (simp add: unat_minus_one)
    with finish old show ?thesis by (simp add: worker_done_def)
  qed (use old in simp_all)
qed

lemma step_tasks:
  assumes inv: "sys_inv M n s" and st: "wf_step M s s'" and "t \<in> set (e_tasks (y_engine s'))"
  shows "\<exists>view \<in> set (y_views s'). task_of (view_run_id view) view t"
proof -
  from inv have old: "\<And>t. t \<in> set (e_tasks (y_engine s)) \<Longrightarrow>
      \<exists>view \<in> set (y_views s). task_of (view_run_id view) view t" by (simp add: sys_inv_def)
  from st show ?thesis
  proof cases
    case (signal w i body e' res)
    with signal_effect [OF signal(2)] old assms(3) show ?thesis by simp
  next
    case (cancel w i e' res)
    with cancel_effect [OF cancel(2)] old assms(3) show ?thesis by simp
  next
    case (claim now lease batch e' views)
    from claim(3) have "e_tasks e' = e_tasks (y_engine s)" by (rule claim_effect) simp_all
    with claim(1) old assms(3) show ?thesis by auto
  next
    case (work view w cl c race)
    with process_run_effect [of w cl c race view "y_engine s"] old assms(3) show ?thesis
      by (auto simp: defer_effect_def)
  next
    case (task t' w)
    with old assms(3) notin_set_remove1 [of t "e_tasks (y_engine s)" t'] show ?thesis
      by (auto simp: run_detached_def run_failure_def terminal_failure_row_def)
  qed (use old assms(3) in \<open>simp_all add: worker_done_def\<close>)
qed

lemma sys_inv_step:
  "sys_inv M n s \<Longrightarrow> wf_step M s s' \<Longrightarrow> Suc n < 2 ^ 64 \<Longrightarrow> sys_inv M (Suc n) s'"
  using step_store_inv step_views step_inflight step_tasks unfolding sys_inv_def [of M "Suc n"] by blast

theorem reach_inv: "reach M n s \<Longrightarrow> n < 2 ^ 64 \<Longrightarrow> sys_inv M n s"
proof (induction rule: reach.induct)
  case (start s)
  then show ?case by (simp add: initial_def sys_inv_def store_inv_def)
next
  case (step n s s')
  then show ?case by (intro sys_inv_step [of M n s]) simp_all
qed

end
