(* ===== verification/Workflow_Props.thy ===== *)
theory Workflow_Props
  imports Workflow
begin

section \<open>Properties of the workflow engine\<close>

text \<open>
  The claims on the transition system of the theory Workflow and a small run of it that
  witnesses them: a workflow of one \<open>sleep\<close> step and one attempt, created, claimed, slept and
  completed.
\<close>

subsection \<open>Paths\<close>

abbreviation wf_path :: "u64 \<Rightarrow> nat \<Rightarrow> sys \<Rightarrow> sys \<Rightarrow> bool" where
  "wf_path M k \<equiv> wf_step M ^^ k"

lemma reach_path: "reach M n s \<Longrightarrow> wf_path M k s s' \<Longrightarrow> reach M (n + k) s'"
  by (induction k arbitrary: s') (auto intro: reach.step)

lemma path_inv: "reach M n s \<Longrightarrow> wf_path M k s s' \<Longrightarrow> n + k < 2 ^ 64 \<Longrightarrow> sys_inv M (n + k) s'"
  using reach_path reach_inv by blast

lemma path_one: "wf_step M s s' \<Longrightarrow> wf_path M 1 s s'"
  by auto

text \<open>What holds along a path holds if it holds for each of its steps.\<close>

lemma path_induct:
  assumes "reach M n s" and "wf_path M k s s'" and "n + k < 2 ^ 64" and "P s"
    and "\<And>m t t'. sys_inv M m t \<Longrightarrow> wf_step M t t' \<Longrightarrow> Suc m < 2 ^ 64 \<Longrightarrow> P t \<Longrightarrow> P t'"
  shows "P s'"
  using assms(2,3)
proof (induction k arbitrary: s')
  case 0
  with assms(4) show ?case by simp
next
  case (Suc k)
  then obtain t where t: "wf_path M k s t" "wf_step M t s'" by auto
  with Suc have "P t" by simp
  with t Suc.prems path_inv [OF assms(1) t(1)] show ?case
    by (intro assms(5) [of "n + k" t s']) simp_all
qed

lemma reach_run_ok:
  assumes "reach M n s" and "n < 2 ^ 64" and "hm_get (y_store s) j = Some r"
  shows "run_ok r" "r_id r = j" "unat (r_version r) \<le> n"
  using store_invD [of n "y_store s" "y_ids s" j r] reach_inv [OF assms(1,2)] assms(3)
  by (simp_all add: sys_inv_def)

subsection \<open>A sample execution\<close>

definition demo_serde :: serde where
  "demo_serde = \<lparr> sj_parse = (\<lambda>_. Inr (JObj [])), sj_print = (\<lambda>_. ''{}'') \<rparr>"

definition demo_world :: world where
  "demo_world = \<lparr> w_serde = demo_serde, w_f64 = \<lparr> f_round = Fin, f_powf = (\<lambda>x _. x) \<rparr>, w_t1 = 10,
     w_t2 = 10, w_ts = ''ts'', w_uuid = ''run-1'', w_event_uuid = ''ev-1'', w_subject = ''wf'',
     w_invoke = (\<lambda>_ _ _ _ _. Inr ''{}''), w_spawn_late = False \<rparr>"

definition demo_client :: client where
  "demo_client = \<lparr> cl_service_register = (\<lambda>_ _ _ _. RequestFailed ''down''),
     cl_service_heartbeat = (\<lambda>_ _ _. RequestFailed ''down''),
     cl_service_deregister = (\<lambda>_ _. RequestFailed ''down''),
     cl_idempotency_claim = (\<lambda>_ _ _. RequestFailed ''down''),
     cl_try_lock = (\<lambda>_ _ _. RequestFailed ''down''), cl_renew_lock = (\<lambda>_ _. RequestFailed ''down''),
     cl_release_lock = (\<lambda>_. RequestFailed ''down''), cl_service_instance = (\<lambda>_. Inl ''none''),
     cl_lock_renew_response = (\<lambda>_. Inl ''none''), cl_lock_release_response = (\<lambda>_. Inl ''none'') \<rparr>"

definition demo_local :: coordinator where
  "demo_local = fresh_coordinator None ''me'' []"

definition demo_steps :: "json list" where
  "demo_steps = [JObj [(''durationMs'', j_i64 5), (''type'', JStr ''sleep'')]]"

definition demo0 :: sys where
  "demo0 = \<lparr> y_engine = \<lparr> e_store = [], e_metrics = metrics_zero, e_inflight = 0, e_events = [],
       e_wake = False, e_tasks = [] \<rparr>, y_views = [], y_running = 0, y_ids = [] \<rparr>"

definition demo_create :: "sys \<Rightarrow> sys" where
  "demo_create s = s\<lparr>y_engine := (y_engine s)\<lparr>e_store := fst (create_run_insert demo_serde (y_store s)
      (new_run ''run-1'' 0 ''demo'' JNull demo_steps (JObj [(''maxAttempts'', j_i64 1)]) []))\<rparr>, y_ids := ''run-1'' # y_ids s\<rparr>"

definition demo_claim :: "int \<Rightarrow> sys \<Rightarrow> sys" where
  "demo_claim now s = (case claim_and_dispatch now 4 1000 5 (y_engine s) of (e', views) \<Rightarrow>
     s\<lparr>y_engine := e', y_views := views @ y_views s, y_running := y_running s + length views\<rparr>)"

definition demo_work :: "sys \<Rightarrow> sys" where
  "demo_work s = s\<lparr>y_engine := process_run demo_world demo_client demo_local WorkFinished
     (hd (y_views s)) (y_engine s)\<rparr>"

definition demo_cancel :: "sys \<Rightarrow> sys" where
  "demo_cancel s = s\<lparr>y_engine := fst (engine_cancel_run demo_world ''run-1'' (y_engine s))\<rparr>"

definition "demo1 = demo_create demo0"
definition "demo2 = demo_claim 1 demo1"
definition "demo3 = demo_work demo2"
definition "demo4 = demo_claim 20 demo3"
definition "demo5 = demo_work demo4"

definition demo_run :: "sys \<Rightarrow> run" where
  "demo_run s = the (hm_get (y_store s) ''run-1'')"

lemma demo_create_step: "wf_step 4 demo0 (demo_create demo0)"
  unfolding demo_create_def
  by (rule wf_step_in.create [where steps = demo_steps])
    (simp_all add: demo_steps_def i64_max_def demo0_def)

lemma demo_claim_step: "in_i64 now \<Longrightarrow> wf_step_in S 4 s (demo_claim now s)"
  unfolding demo_claim_def by (auto split: prod.split intro: wf_step_in.claim)

lemma demo_work_step: "y_views s \<noteq> [] \<Longrightarrow> wf_step 4 s (demo_work s)"
  unfolding demo_work_def by (intro wf_step_in.work hd_in_set UNIV_I)

lemma demo_cancel_step: "wf_step 4 s (demo_cancel s)"
  unfolding demo_cancel_def
  by (rule wf_step_in.cancel [where w = demo_world and i = "''run-1''"
        and res = "snd (engine_cancel_run demo_world ''run-1'' (y_engine s))"]) simp

lemma demo_views: "y_views demo2 \<noteq> []" "y_views demo4 \<noteq> []"
  by code_simp+

lemma demo_status: "hm_get (y_store demo5) ''run-1'' \<noteq> None" "r_status (demo_run demo5) = ''completed''"
  by code_simp+

lemma demo_reach:
  "reach 4 0 demo0" "reach 4 1 demo1" "reach 4 2 demo2" "reach 4 3 demo3" "reach 4 4 demo4"
  "reach 4 5 demo5"
proof -
  have i: "in_i64 1" "in_i64 20" by (simp_all add: in_i64_def i64_min_def i64_max_def)
  show 0: "reach 4 0 demo0"
    by (rule reach.start) (simp add: initial_def demo0_def)
  from reach.step [OF 0 demo_create_step] show 1: "reach 4 1 demo1" by (simp add: demo1_def)
  from reach.step [OF 1 demo_claim_step [OF i(1)]] show 2: "reach 4 2 demo2"
    by (simp add: demo2_def numeral_2_eq_2)
  from reach.step [OF 2 demo_work_step [OF demo_views(1)]] show 3: "reach 4 3 demo3"
    by (simp add: demo3_def numeral_eq_Suc)
  from reach.step [OF 3 demo_claim_step [OF i(2)]] show 4: "reach 4 4 demo4"
    by (simp add: demo4_def numeral_eq_Suc)
  from reach.step [OF 4 demo_work_step [OF demo_views(2)]] show 5: "reach 4 5 demo5"
    by (simp add: demo5_def numeral_eq_Suc)
qed

lemma demo_path: "wf_path 4 1 demo4 demo5" "wf_path 4 1 demo5 (demo_cancel demo5)"
  using demo_work_step [OF demo_views(2)] demo_cancel_step by (auto simp: demo5_def)

subsection \<open>The system refines the step machine\<close>

text \<open>
  C1: In every interleaving, one step of the system takes each stored run through at most one
  step of the abstract machine: the run is unchanged or only re-parked, re-leased or signalled;
  or it makes one machine step (pass, finish, retry, break, stop) keeping its identity; or it is
  created in the initial state; or, once terminal, it is collected.
\<close>

theorem system_refines_machine:
  assumes "reach M n s" and "Suc n < 2 ^ 64" and "wf_step M s s'"
  shows "case (hm_get (y_store s) j, hm_get (y_store s') j) of
      (None, None) \<Rightarrow> True
    | (None, Some r') \<Rightarrow> r_id r' = j \<and> abs_run r' = initial_progress
    | (Some r, None) \<Rightarrow> terminal_status (r_status r)
    | (Some r, Some r') \<Rightarrow> r' = r \<or>
        (same_identity r r' \<and> r_version r' = r_version r + 1 \<and>
         (abs_run r' = abs_run r \<or>
          machine (length (r_steps r)) (attempt_limit r) (abs_run r) (abs_run r')))"
proof -
  have "sys_inv M n s" using assms by (intro reach_inv) simp_all
  from step_change [OF this assms(3), where j = j] show ?thesis
    by cases (auto simp: evolves_in_def split: option.split)
qed

lemma system_refines_machine_witness:
  "case (hm_get (y_store demo4) ''run-1'', hm_get (y_store demo5) ''run-1'') of
      (None, None) \<Rightarrow> True
    | (None, Some r') \<Rightarrow> r_id r' = ''run-1'' \<and> abs_run r' = initial_progress
    | (Some r, None) \<Rightarrow> terminal_status (r_status r)
    | (Some r, Some r') \<Rightarrow> r' = r \<or>
        (same_identity r r' \<and> r_version r' = r_version r + 1 \<and>
         (abs_run r' = abs_run r \<or>
          machine (length (r_steps r)) (attempt_limit r) (abs_run r) (abs_run r')))"
  using system_refines_machine [OF demo_reach(5) _ demo_work_step [OF demo_views(2)], of "''run-1''"]
  by (simp add: demo5_def)

subsection \<open>Terminal runs\<close>

lemma terminal_stays:
  assumes "reach M n s" and "hm_get (y_store s) j = Some r" and "terminal_status (r_status r)"
    and "wf_path M k s s'" and "n + k < 2 ^ 64"
  shows "hm_get (y_store s') j = Some r \<or> hm_get (y_store s') j = None"
proof -
  have ids: "j \<in> set (y_ids s)"
    using reach_inv [OF assms(1)] assms(2,5) store_invD by (fastforce simp: sys_inv_def)
  have "j \<in> set (y_ids s') \<and> (hm_get (y_store s') j = Some r \<or> hm_get (y_store s') j = None)"
  proof (rule path_induct [OF assms(1,4,5)])
    fix m t t'
    assume h: "sys_inv M m t" "wf_step M t t'"
      "j \<in> set (y_ids t) \<and> (hm_get (y_store t) j = Some r \<or> hm_get (y_store t) j = None)"
    then show "j \<in> set (y_ids t') \<and> (hm_get (y_store t') j = Some r \<or> hm_get (y_store t') j = None)"
      using step_change [OF h(1,2), where j = j] step_ids [OF h(2)] assms(3)
      by (auto simp: run_change_from_None run_change_from_Some evolves_in_def)
  qed (use assms(2) ids in simp)
  then show ?thesis by (rule conjunct2)
qed

text \<open>
  C3: A completed, failed or canceled run is never touched again: after any number of further
  steps it is stored exactly as it was, field by field, or it has been collected.
\<close>

theorem terminal_absorbing:
  assumes "reach M n s" and "hm_get (y_store s) j = Some r" and "terminal_status (r_status r)"
    and "wf_path M k s s'" and "n + k < 2 ^ 64"
  shows "hm_get (y_store s') j = Some r \<or> hm_get (y_store s') j = None"
  using assms by (rule terminal_stays)

lemma terminal_absorbing_witness:
  "r_status (demo_run demo5) = ''completed'' \<and>
   (hm_get (y_store (demo_cancel demo5)) ''run-1'' = Some (demo_run demo5) \<or>
    hm_get (y_store (demo_cancel demo5)) ''run-1'' = None)"
proof -
  have "hm_get (y_store demo5) ''run-1'' = Some (demo_run demo5)"
    using demo_status(1) by (auto simp: demo_run_def)
  from terminal_absorbing [OF demo_reach(6) this _ demo_path(2)] demo_status(2) show ?thesis
    by (simp add: terminal_status_def)
qed


lemma demo_get: "hm_get (y_store demo5) ''run-1'' = Some (demo_run demo5)"
  using demo_status(1) by (auto simp: demo_run_def)




subsection \<open>Snapshots\<close>

text \<open>
  C8: A snapshot drives a run at most once. Once a step has changed the run a snapshot is of
  (its worker's commit, a cancellation, a signal, a later claim), that snapshot never changes
  the store again: every later worker that acts on it, in any world, and every detached failure
  task that was spawned for it, leaves the store as it is.
\<close>

theorem snapshot_spent:
  assumes "reach M n s" and "view \<in> set (y_views s)" and "wf_step M s s'"
    and "hm_get (y_store s') (view_run_id view) \<noteq> hm_get (y_store s) (view_run_id view)"
    and "wf_path M k s' s''" and "Suc n + k < 2 ^ 64"
  shows "e_store (process_run w cl c race view (y_engine s'')) = y_store s'' \<and>
    (\<forall>t. ft_run t = view_run_id view \<and> ft_version t = v_version view \<longrightarrow>
       e_store (run_detached w t (y_engine s'')) = y_store s'')"
proof -
  let ?i = "view_run_id view"
  from assms(1,6) have inv: "sys_inv M n s" by (intro reach_inv) simp_all
  with assms(2) have "view_inv (y_store s) (y_ids s) view" by (simp add: sys_inv_def)
  then have v: "?i \<in> set (y_ids s)"
    and cur: "\<And>r. hm_get (y_store s) ?i = Some r \<Longrightarrow> unat (v_version view) \<le> unat (r_version r)"
    by (auto simp: view_inv_def view_fields)
  let ?gone = "\<lambda>t. ?i \<in> set (y_ids t) \<and> (\<forall>r. hm_get (y_store t) ?i = Some r \<longrightarrow>
    unat (v_version view) < unat (r_version r))"
  have version: "unat (r_version r') = Suc (unat (r_version r))"
    if "sys_inv M m t" "Suc m < 2 ^ 64" "hm_get (y_store t) ?i = Some r" "evolves r r'" for m t r r'
  proof -
    from that(1) have "store_inv m (y_store t) (y_ids t)" by (simp add: sys_inv_def)
    from store_invD [OF this that(3)] that(2,4) show ?thesis
      by (simp add: evolves_in_def unat_u64_Suc)
  qed
  have spent: "?gone s'"
    using step_change [OF inv assms(3), where j = ?i] step_ids [OF assms(3)] assms(4,6) v cur
      version [OF inv] by cases (auto simp: less_Suc_eq_le)
  have "?gone s''"
  proof (rule path_induct [where P = ?gone, OF reach.step [OF assms(1,3)] assms(5,6) spent])
    fix m t t'
    assume h: "sys_inv M m t" "wf_step M t t'" "Suc m < 2 ^ 64" "?gone t"
    show "?gone t'"
      using step_change [OF h(1,2), where j = ?i] step_ids [OF h(2)] version [OF h(1,3)] h(4)
      by cases (auto simp: less_SucI)
  qed
  then have "hm_get (y_store s'') ?i = None \<or>
      (\<exists>r. hm_get (y_store s'') ?i = Some r \<and> r_version r \<noteq> v_version view)"
    by (cases "hm_get (y_store s'') ?i") auto
  note refused = stale_view_refused [OF this]
  have "e_store (process_run w cl c race view (y_engine s'')) = y_store s''"
    using process_run_effect [of w cl c race view "y_engine s''"] refused
    unfolding commit_effect_def defer_effect_def by metis
  with refused show ?thesis
    by (simp add: run_detached_def run_failure_def terminal_failure_row_def fail_terminal_def)
qed

lemma snapshot_spent_witness:
  "e_store (process_run demo_world demo_client demo_local WorkFinished (hd (y_views demo4))
     (y_engine demo5)) = y_store demo5"
proof -
  have "hm_get (y_store demo5) (view_run_id (hd (y_views demo4))) \<noteq>
    hm_get (y_store demo4) (view_run_id (hd (y_views demo4)))" by code_simp
  moreover have "wf_step 4 demo4 demo5" using demo_path(1) by auto
  moreover have "wf_path 4 0 demo5 demo5" by simp
  ultimately show ?thesis
    using snapshot_spent [OF demo_reach(5) hd_in_set [OF demo_views(2)]] by fastforce
qed

text \<open>A commit of the current contents of a run is applied, and advances it.\<close>

lemma commit_effect_current:
  assumes "reach M n s" and "n < 2 ^ 64" and "view \<in> set (y_views s)"
    and "hm_get (y_store s) (view_run_id view) = Some r" and "r_version r = v_version view"
    and "commit_effect S view (y_engine s) e'"
  shows "\<exists>r'. hm_get (e_store e') (view_run_id view) = Some r' \<and> r_version r' = r_version r + 1 \<and>
    same_identity r r' \<and>
    (machine (length (r_steps r)) (attempt_limit r) (abs_run r) (abs_run r') \<or> parks r r')"
proof -
  let ?i = "view_run_id view"
  have "view_inv (y_store s) (y_ids s) view" using reach_inv [OF assms(1,2)] assms(3)
    by (simp add: sys_inv_def)
  then obtain now where now: "view = view_of now r" "in_i64 now" "\<not> terminal_status (r_status r)"
    using assms(4,5) by (auto simp: view_inv_def view_fields)
  obtain sj upd where upd: "e_store e' = fst (commit_with sj upd (y_store s) ?i (v_version view))"
    and adv: "advances S r (upd r)"
    using assms(6) now reach_run_ok(1) [OF assms(1,2,4)] unfolding commit_effect_def by blast
  moreover have "r_status r \<noteq> ''canceled''" using now(3) by (auto simp: terminal_status_def)
  ultimately show ?thesis
    using commit_with_applied [OF assms(4) _ assms(5), of sj upd]
    by (simp add: advances_def parks_def)
qed

text \<open>\<open>settle w e e'\<close>: the tasks spawned between \<open>e\<close> and \<open>e'\<close> have run.\<close>

definition settle :: "world \<Rightarrow> engine \<Rightarrow> engine \<Rightarrow> engine" where
  "settle w e e' = fold (run_detached w) (drop (length (e_tasks e)) (e_tasks e')) e'"

lemma settle_same [simp]: "e_tasks e' = e_tasks e \<Longrightarrow> settle w e e' = e'"
  by (simp add: settle_def)

lemma settle_commits:
  assumes "try_lease_run cl c (view_run_id view) = Inr (Some lease)" and "race \<noteq> LostBeforeCommit"
    and "e' = process_run w cl c race view e"
  shows "(\<exists>S. commit_effect S view e (settle w' e e')) \<and> (\<not> w_spawn_late w \<longrightarrow> settle w' e e' = e')"
proof -
  note granted = process_run_granted [OF assms(1,2), of w e, folded assms(3)]
  consider "commit_effect {w_serde w} view e e'" "e_tasks e' = e_tasks e"
    | "w_spawn_late w" "defer_effect view e e'"
    using do_process_run_effect [of w "race = WorkFinished" view "rl_fencing_token lease" e] granted
    unfolding commit_effect_def defer_effect_def by metis
  then show ?thesis
  proof cases
    case 1
    then show ?thesis by auto
  next
    case 2
    then obtain t where t: "task_of (view_run_id view) view t" "e_store e' = e_store e"
      "e_tasks e' = e_tasks e @ [t]" by (auto simp: defer_effect_def)
    then have "settle w' e e' = run_detached w' t e'" by (simp add: settle_def)
    moreover from run_detached_effect [OF t(1), of w' e' "{}"] t(2)
    have "commit_effect {} view e (run_detached w' t e')" by (simp add: commit_effect_def)
    ultimately show ?thesis using 2(1) by auto
  qed
qed

text \<open>
  C10: A worker with current authority makes progress. If the snapshot is still the current
  contents of its run, the run lease was granted and the lease was not lost before the commit,
  then the commit succeeds: the version is spent and the run makes a machine step, or parks at
  its \<open>waitSignal\<close> step with its history and context unchanged. A failure that the worker leaves
  to a detached task counts once the task has run; when tasks do not run late, at once.
\<close>

theorem current_snapshot_commits:
  assumes "reach M n s" and "n < 2 ^ 64" and "view \<in> set (y_views s)"
    and "hm_get (y_store s) (view_run_id view) = Some r" and "r_version r = v_version view"
    and "try_lease_run cl c (view_run_id view) = Inr (Some lease)" and "race \<noteq> LostBeforeCommit"
    and "e' = process_run w cl c race view (y_engine s)"
  shows "(\<exists>r'. hm_get (e_store (settle w' (y_engine s) e')) (view_run_id view) = Some r' \<and>
      r_version r' = r_version r + 1 \<and> same_identity r r' \<and>
      (machine (length (r_steps r)) (attempt_limit r) (abs_run r) (abs_run r') \<or> parks r r')) \<and>
    (\<not> w_spawn_late w \<longrightarrow> settle w' (y_engine s) e' = e')"
  using settle_commits [OF assms(6-8), of w'] commit_effect_current [OF assms(1-5)] by blast

lemma current_snapshot_commits_witness:
  "\<exists>r'. hm_get (e_store (process_run demo_world demo_client demo_local WorkFinished
      (hd (y_views demo4)) (y_engine demo4))) ''run-1'' = Some r' \<and>
    r_version r' = r_version (demo_run demo4) + 1 \<and> same_identity (demo_run demo4) r' \<and>
    (machine (length (r_steps (demo_run demo4))) (attempt_limit (demo_run demo4))
       (abs_run (demo_run demo4)) (abs_run r') \<or> parks (demo_run demo4) r')"
proof -
  have i: "view_run_id (hd (y_views demo4)) = ''run-1''" by code_simp
  have "hm_get (y_store demo4) ''run-1'' \<noteq> None" by code_simp
  then have r: "hm_get (y_store demo4) (view_run_id (hd (y_views demo4))) = Some (demo_run demo4)"
    unfolding i by (auto simp: demo_run_def)
  have v: "r_version (demo_run demo4) = v_version (hd (y_views demo4))" by code_simp
  have "isl (try_lease_run demo_client demo_local (view_run_id (hd (y_views demo4)))) = False \<and>
    projr (try_lease_run demo_client demo_local (view_run_id (hd (y_views demo4)))) \<noteq> None"
    by code_simp
  then obtain lease where "try_lease_run demo_client demo_local
      (view_run_id (hd (y_views demo4))) = Inr (Some lease)"
    by (cases "try_lease_run demo_client demo_local (view_run_id (hd (y_views demo4)))") auto
  from current_snapshot_commits [OF demo_reach(5) _ hd_in_set [OF demo_views(2)] r v this _ refl,
      of WorkFinished demo_world demo_world]
  have "\<not> w_spawn_late demo_world \<longrightarrow> ?thesis" unfolding i by auto
  then show ?thesis by (simp add: demo_world_def)
qed

subsection \<open>Cancellation, concurrency limit, waiting\<close>

text \<open>
  C11: Cancellation wins. Once \<open>cancel_run\<close> has answered with success, the run is \<open>canceled\<close>
  (or collected) after any further steps: no worker that was already running when the
  cancellation arrived can complete, fail or advance it.
\<close>

theorem cancel_wins:
  assumes "reach M n s" and "engine_cancel_run w i (y_engine s) = (e', Inr out)"
    and "wf_path M k (s\<lparr>y_engine := e'\<rparr>) s'" and "Suc n + k < 2 ^ 64"
    and "hm_get (y_store s') i = Some r"
  shows "r_status r = ''canceled''"
proof -
  let ?s = "s\<lparr>y_engine := e'\<rparr>"
  have step: "wf_step M s ?s" by (rule wf_step_in.cancel [OF assms(2)])
  obtain r1 where r1: "hm_get (y_store ?s) i = Some r1" "r_status r1 = ''canceled''"
    using assms(2) by (auto simp: engine_cancel_run_def cancel_run_def Let_def hm_get_put
        split: option.splits if_splits)
  then have "hm_get (y_store s') i = Some r1 \<or> hm_get (y_store s') i = None"
    by (intro terminal_stays [OF reach.step [OF assms(1) step] _ _ assms(3,4)])
      (simp_all add: terminal_status_def)
  with r1(2) assms(5) show ?thesis by auto
qed

lemma cancel_wins_witness:
  "r_status (demo_run (demo_work (demo_cancel demo4))) = ''canceled''"
proof -
  let ?c = "engine_cancel_run demo_world ''run-1'' (y_engine demo4)"
  have "isl (snd ?c) = False" by code_simp
  then obtain out where "snd ?c = Inr out" by (cases "snd ?c") auto
  then have c: "?c = (fst ?c, Inr out)" by (metis prod.collapse)
  have "y_views (demo_cancel demo4) \<noteq> []" by code_simp
  then have p: "wf_path 4 1 (demo4\<lparr>y_engine := fst ?c\<rparr>) (demo_work (demo_cancel demo4))"
    by (intro path_one) (simp add: demo_work_step demo_cancel_def)
  have "hm_get (y_store (demo_work (demo_cancel demo4))) ''run-1'' \<noteq> None" by code_simp
  then have r: "hm_get (y_store (demo_work (demo_cancel demo4))) ''run-1'' =
      Some (demo_run (demo_work (demo_cancel demo4)))" by (auto simp: demo_run_def)
  show ?thesis by (rule cancel_wins [OF demo_reach(5) c p _ r]) simp
qed

text \<open>
  C23: The scheduler never runs more workers at a time than \<open>WORKFLOW_MAX_INFLIGHT\<close>, and the
  atomic counter it decides by is exactly the number of workers that have not ended (it never
  wraps below zero).
\<close>

theorem inflight_bounded:
  assumes "reach M n s" and "n < 2 ^ 64"
  shows "y_running s = unat (e_inflight (y_engine s)) \<and> e_inflight (y_engine s) \<le> M"
  using reach_inv [OF assms] by (auto simp: sys_inv_def word_le_nat_alt)

lemma inflight_bounded_witness:
  "y_running demo4 = unat (e_inflight (y_engine demo4)) \<and> y_running demo4 = 2 \<and>
   e_inflight (y_engine demo4) \<le> 4"
proof -
  have "y_running demo4 = 2" by code_simp
  with inflight_bounded [OF demo_reach(5)] show ?thesis by simp
qed

text \<open>
  Waiting. A run with status \<open>waiting\<close>, or with a wait deadline, stands at a step of type
  \<open>waitSignal\<close>; it never buffers more than 1024 undelivered signals; and a stored status is
  always one of the six of the state machine.
\<close>

theorem waiting_at_wait_step:
  assumes "reach M n s" and "n < 2 ^ 64" and "hm_get (y_store s) j = Some r"
  shows "(r_status r = ''waiting'' \<or> r_wait_deadline_ms r \<noteq> None \<longrightarrow>
      r_current_step_index r < length (r_steps r) \<and>
      step_type (r_steps r ! r_current_step_index r) = ''waitSignal'') \<and>
    length (r_signals r) \<le> 1024 \<and>
    r_status r \<in> {''pending'', ''running'', ''waiting'', ''completed'', ''failed'', ''canceled''}"
  using reach_run_ok(1) [OF assms]
  by (auto simp: run_ok_def waits_for_signal_def run_statuses_def MAX_PENDING_SIGNALS_def)

lemma waiting_at_wait_step_witness:
  "length (r_signals (demo_run demo5)) \<le> 1024 \<and> r_status (demo_run demo5) = ''completed''"
  using waiting_at_wait_step [OF demo_reach(6) _ demo_get] demo_status(2) by simp

text \<open>
  The history is append-only and the definition a run was created with is never changed:
  along any path a run that is still stored has the same identifier, input, steps, retry policy,
  idempotency key and creation time, its history extends the earlier one, its phase only moves
  up, and its version has grown unless the run is unchanged.
\<close>

theorem history_append_only:
  assumes "reach M n s" and "wf_path M k s s'" and "n + k < 2 ^ 64"
    and "hm_get (y_store s) j = Some r" and "hm_get (y_store s') j = Some r'"
  shows "same_identity r r' \<and> prefix (r_step_runs r) (r_step_runs r') \<and>
    pg_phase (abs_run r) \<le> pg_phase (abs_run r') \<and> (r' = r \<or> r_version r < r_version r')"
proof -
  let ?P = "\<lambda>t. j \<in> set (y_ids t) \<and> (\<forall>q. hm_get (y_store t) j = Some q \<longrightarrow> same_identity r q \<and>
    prefix (r_step_runs r) (r_step_runs q) \<and> pg_phase (abs_run r) \<le> pg_phase (abs_run q) \<and>
    (q = r \<or> r_version r < r_version q))"
  have "j \<in> set (y_ids s)"
    using reach_inv [OF assms(1)] assms(3,4) store_invD by (fastforce simp: sys_inv_def)
  with assms(4) have start: "?P s" by (simp add: same_identity_def)
  have "?P s'"
  proof (rule path_induct [where P = ?P, OF assms(1-3) start])
    fix m t t'
    assume h: "sys_inv M m t" "wf_step M t t'" "Suc m < 2 ^ 64" "?P t"
    then have inv: "store_inv m (y_store t) (y_ids t)" by (simp add: sys_inv_def)
    have ev: "same_identity r q' \<and> prefix (r_step_runs r) (r_step_runs q') \<and>
        pg_phase (abs_run r) \<le> pg_phase (abs_run q') \<and> r_version r < r_version q'"
      if "hm_get (y_store t) j = Some q" "evolves q q'" for q q'
    proof -
      from h(4) that(1) have q: "same_identity r q" "prefix (r_step_runs r) (r_step_runs q)"
        "pg_phase (abs_run r) \<le> pg_phase (abs_run q)" "q = r \<or> r_version r < r_version q" by auto
      have "pg_phase (abs_run q) \<le> pg_phase (abs_run q')"
        using that(2) run_machine.step_monotone [of q] by (auto simp: evolves_in_def)
      moreover have "unat (r_version q') = Suc (unat (r_version q))"
        using store_invD [OF inv that(1)] that(2) h(3) by (simp add: evolves_in_def unat_u64_Suc)
      ultimately show ?thesis
        using q that(2) by (auto simp: evolves_in_def same_identity_def word_less_nat_alt
            dest: order_trans prefix_order.trans)
    qed
    show "?P t'"
      using step_change [OF h(1,2), where j = j] step_ids [OF h(2)] h(4)
      by cases (auto dest: ev)
  qed
  with assms(5) show ?thesis by blast
qed

lemma history_append_only_witness:
  "same_identity (demo_run demo4) (demo_run demo5) \<and>
   prefix (r_step_runs (demo_run demo4)) (r_step_runs (demo_run demo5)) \<and>
   pg_phase (abs_run (demo_run demo4)) \<le> pg_phase (abs_run (demo_run demo5))"
proof -
  have "hm_get (y_store demo4) ''run-1'' \<noteq> None" by code_simp
  then have "hm_get (y_store demo4) ''run-1'' = Some (demo_run demo4)" by (auto simp: demo_run_def)
  from history_append_only [OF demo_reach(5) demo_path(1) _ this demo_get] show ?thesis by simp
qed

end
