(* ===== verification/Workflow_Progress.thy ===== *)
theory Workflow_Progress
  imports Workflow_Props
begin

section \<open>Progress\<close>

text \<open>
  Runs terminate: the work of a run is bounded by its retry policies, whatever the interleaving;
  and the scheduler of \<open>src/workflow/engine.rs\<close> never idles while a run is due.
\<close>

subsection \<open>Termination of a run\<close>

text \<open>
  A worker is \<^emph>\<open>authoritative\<close> when its snapshot is the current contents of the run, the run lease
  was granted to it and not lost before the commit. If it leaves a failure to a detached task, the
  task is authoritative when it runs and the snapshot it was spawned with is still current.
  \<open>served M j k m s s'\<close> is a path of \<open>k\<close> steps of which at least \<open>m\<close> are authoritative workers or
  tasks of the run \<open>j\<close>. The other steps are arbitrary: stale workers, lost leases, workers that
  only spawn a task, signals, cancellations, other runs.
\<close>

inductive authoritative :: "string \<Rightarrow> sys \<Rightarrow> sys \<Rightarrow> bool" for j :: string and s :: sys
where
  worker: "view \<in> set (y_views s) \<Longrightarrow> view_run_id view = j \<Longrightarrow> hm_get (y_store s) j = Some r \<Longrightarrow>
    r_version r = v_version view \<Longrightarrow> try_lease_run cl c j = Inr (Some lease) \<Longrightarrow>
    race \<noteq> LostBeforeCommit \<Longrightarrow> \<not> w_spawn_late w \<Longrightarrow>
    authoritative j s (s\<lparr>y_engine := process_run w cl c race view (y_engine s)\<rparr>)"
| detached: "t \<in> set (e_tasks (y_engine s)) \<Longrightarrow> ft_run t = j \<Longrightarrow> hm_get (y_store s) j = Some r \<Longrightarrow>
    r_version r = ft_version t \<Longrightarrow>
    authoritative j s (s\<lparr>y_engine := run_detached w t (y_engine s)\<rparr>)"

lemma authoritative_step: "authoritative j s s' \<Longrightarrow> wf_step M s s'"
  by (induction rule: authoritative.induct) (auto intro: wf_step_in.work wf_step_in.task)

inductive served :: "u64 \<Rightarrow> string \<Rightarrow> nat \<Rightarrow> nat \<Rightarrow> sys \<Rightarrow> sys \<Rightarrow> bool" for M :: u64 and j :: string
where
  none: "served M j 0 0 s s"
| other: "served M j k m s t \<Longrightarrow> wf_step M t u \<Longrightarrow> served M j (Suc k) m s u"
| serve: "served M j k m s t \<Longrightarrow> authoritative j t u \<Longrightarrow> served M j (Suc k) (Suc m) s u"

lemma served_path: "served M j k m s s' \<Longrightarrow> wf_path M k s s'"
  by (induction rule: served.induct) (auto intro: authoritative_step)

definition run_work_left :: "run \<Rightarrow> int" where
  "run_work_left r = work_left (length (r_steps r)) (attempt_limit r) (abs_run r)"

lemma run_work_left_nonneg: "run_ok r \<Longrightarrow> 0 \<le> run_work_left r"
  using run_machine.work_left_nonneg by (simp add: run_work_left_def run_ok_def)

lemma evolves_work_left: "evolves r r' \<Longrightarrow> run_work_left r' \<le> run_work_left r"
  using run_machine.work_left_decreases [of r "abs_run r" "abs_run r'"] attempt_limit_same [of r r']
  by (auto simp: evolves_in_def run_work_left_def same_identity_def)

lemma machine_work_left:
  assumes "machine (length (r_steps r)) (attempt_limit r) (abs_run r) (abs_run r')"
    and "same_identity r r'"
  shows "run_work_left r' < run_work_left r"
  using run_machine.work_left_decreases [OF assms(1)] attempt_limit_same [OF assms(2)] assms(2)
  by (simp add: run_work_left_def same_identity_def)

text \<open>An authoritative worker of a run without waits makes it take a step of the machine.\<close>

lemma authoritative_commits:
  assumes "reach M n s" and "n < 2 ^ 64" and "authoritative j s s'" and "hm_get (y_store s) j = Some r"
  shows "\<exists>r'. hm_get (y_store s') j = Some r' \<and> same_identity r r' \<and>
    (machine (length (r_steps r)) (attempt_limit r) (abs_run r) (abs_run r') \<or> parks r r')"
  using assms(3)
proof cases
  case (worker view r0 cl c lease race w)
  then obtain S where "commit_effect S view (y_engine s) (y_engine s')"
    using settle_commits [of cl c view lease race _ w "y_engine s" w] by fastforce
  from commit_effect_current [OF assms(1,2) worker(2) _ _ this, of r] worker assms(4)
  show ?thesis by auto
next
  case (detached t r0 w)
  then obtain view where view: "view \<in> set (y_views s)" "task_of (view_run_id view) view t"
    using reach_inv [OF assms(1,2)] unfolding sys_inv_def by blast
  from run_detached_effect [OF view(2)]
  have "commit_effect {} view (y_engine s) (y_engine s')" using detached(1) by simp
  from commit_effect_current [OF assms(1,2) view(1) _ _ this, of r] detached view(2) assms(4)
  show ?thesis by (auto simp: task_of_def)
qed

lemma authoritative_progress:
  assumes "reach M n s" and "n < 2 ^ 64" and "authoritative j s s'"
    and "hm_get (y_store s) j = Some r" and "''waitSignal'' \<notin> step_type ` set (r_steps r)"
  obtains r' where "hm_get (y_store s') j = Some r'" and "same_identity r r'"
    and "run_work_left r' < run_work_left r"
proof -
  have "\<not> parks r r'" for r'
    using assms(5) imageI [OF nth_mem, of _ "r_steps r" step_type]
    unfolding parks_def waits_for_signal_def by metis
  with authoritative_commits [OF assms(1-4)] machine_work_left that show thesis by blast
qed

text \<open>A run that has left the store does not come back.\<close>

lemma gone_stays:
  assumes "sys_inv M n s" and "wf_step M s s'" and "j \<in> set (y_ids s)" and "hm_get (y_store s) j = None"
  shows "hm_get (y_store s') j = None"
  using step_change [OF assms(1,2), where j = j] assms(3,4) by (auto simp: run_change_from_None)

lemma step_work_left:
  assumes "sys_inv M n s" and "wf_step M s s'" and "hm_get (y_store s) j = Some r"
  shows "hm_get (y_store s') j = None \<or> (\<exists>r'. hm_get (y_store s') j = Some r' \<and>
    same_identity r r' \<and> run_work_left r' \<le> run_work_left r)"
  using step_change [OF assms(1,2), where j = j] assms(3) evolves_work_left
  by (auto simp: run_change_from_Some evolves_in_def same_identity_def)

definition budget_inv :: "string \<Rightarrow> run \<Rightarrow> nat \<Rightarrow> sys \<Rightarrow> bool" where
  "budget_inv j r m s \<longleftrightarrow> j \<in> set (y_ids s) \<and> int m \<le> run_work_left r \<and>
     (hm_get (y_store s) j = None \<or> (\<exists>r'. hm_get (y_store s) j = Some r' \<and>
       same_identity r r' \<and> run_work_left r' + int m \<le> run_work_left r))"

lemma served_budget:
  assumes "served M j k m s s'" and "reach M n s" and "n + k < 2 ^ 64"
    and "hm_get (y_store s) j = Some r" and "''waitSignal'' \<notin> step_type ` set (r_steps r)"
  shows "budget_inv j r m s'"
  using assms
proof (induction rule: served.induct)
  case (none s)
  then show ?case
    using reach_run_ok(1) [of M n s j r] reach_inv [of M n s] run_work_left_nonneg [of r]
      store_invD [of n "y_store s" "y_ids s" j r]
    by (auto simp: budget_inv_def sys_inv_def same_identity_def)
next
  case (other k m s t u)
  then have inv: "sys_inv M (n + k) t" and IH: "budget_inv j r m t"
    using path_inv [OF _ served_path] by simp_all
  from IH show ?case
    using step_ids [OF other.hyps(2)] gone_stays [OF inv other.hyps(2), of j]
      step_work_left [OF inv other.hyps(2), of j]
    unfolding budget_inv_def by (fastforce simp: same_identity_def)
next
  case (serve k m s t u)
  then have r: "reach M (n + k) t" and IH: "budget_inv j r m t"
    using reach_path [OF _ served_path] by simp_all
  obtain r' where r': "hm_get (y_store t) j = Some r'" using serve.hyps(2)
    by (auto elim: authoritative.cases)
  then have same: "same_identity r r'" and left: "run_work_left r' + int m \<le> run_work_left r"
    using IH by (auto simp: budget_inv_def)
  have "''waitSignal'' \<notin> step_type ` set (r_steps r')" using serve.prems(4) same
    by (simp add: same_identity_def)
  from authoritative_progress [OF r _ serve.hyps(2) r' this] serve.prems(2)
  obtain r'' where r'': "hm_get (y_store u) j = Some r''" "same_identity r' r''"
    "run_work_left r'' < run_work_left r'" by auto
  have "run_ok r''"
    using reach_run_ok(1) [OF reach.step [OF r authoritative_step [OF serve.hyps(2)]] _ r''(1)]
      serve.prems(2) by simp
  from run_work_left_nonneg [OF this] left r'' same IH
    step_ids [OF authoritative_step [OF serve.hyps(2)]] show ?case
    by (auto simp: budget_inv_def same_identity_def)
qed

text \<open>
  C2: Runs terminate. A run without \<open>waitSignal\<close> steps can be served by authoritative workers
  (a failure left to a detached task serves it when the task runs) at most as often as its retry
  policies allow attempts in total, plus once to finish: the workers that have served it and the
  rows its history already had never add up to more. When
  they add up to that bound the run is \<open>completed\<close>, \<open>failed\<close> or \<open>canceled\<close> (or collected),
  whatever the activities answered and whatever else happened in between.
\<close>

theorem served_run_terminates:
  assumes "reach M n s" and "served M j k m s s'" and "n + k < 2 ^ 64"
    and "hm_get (y_store s) j = Some r" and "''waitSignal'' \<notin> step_type ` set (r_steps r)"
  shows "int m + int (length (r_step_runs r)) \<le> (\<Sum>i < length (r_steps r). attempt_limit r i) + 1 \<and>
    (int m + int (length (r_step_runs r)) = (\<Sum>i < length (r_steps r). attempt_limit r i) + 1 \<longrightarrow>
     (case hm_get (y_store s') j of None \<Rightarrow> True
      | Some r' \<Rightarrow> r_status r' \<in> {''completed'', ''failed'', ''canceled''}))"
proof -
  let ?cap = "\<Sum>i < length (r_steps r). attempt_limit r i"
  have left: "run_work_left r \<le> ?cap + 1 - int (length (r_step_runs r))"
    by (simp add: run_work_left_def work_left_def abs_run_def)
  from served_budget [OF assms(2,1,3-5)]
  have inv: "int m \<le> run_work_left r" "\<And>r'. hm_get (y_store s') j = Some r' \<Longrightarrow>
      run_work_left r' + int m \<le> run_work_left r" by (auto simp: budget_inv_def)
  have "r_status r' \<in> {''completed'', ''failed'', ''canceled''}"
    if "int m + int (length (r_step_runs r)) = ?cap + 1" and r': "hm_get (y_store s') j = Some r'" for r'
  proof -
    have ok: "run_ok r'"
      using reach_run_ok(1) [OF reach_path [OF assms(1) served_path [OF assms(2)]] assms(3) r'] .
    with that left inv(2) [OF r'] run_work_left_nonneg [OF ok] have "run_work_left r' = 0" by simp
    with ok have "phase_of (r_status r') \<noteq> Open"
      using run_machine.work_left_terminal [of r' "abs_run r'"]
      by (simp add: run_work_left_def run_ok_def abs_run_def)
    then show ?thesis by (auto simp: phase_of_def split: if_splits)
  qed
  with inv(1) left show ?thesis by (auto split: option.split)
qed

lemma demo_authoritative:
  assumes "y_views s \<noteq> []" and "view_run_id (hd (y_views s)) = ''run-1''"
    and "hm_get (y_store s) ''run-1'' \<noteq> None" and "r_version (demo_run s) = v_version (hd (y_views s))"
  shows "authoritative ''run-1'' s (demo_work s)"
proof -
  have "\<not> isl (try_lease_run demo_client demo_local ''run-1'') \<and>
      projr (try_lease_run demo_client demo_local ''run-1'') \<noteq> None" by code_simp
  then obtain lease where "try_lease_run demo_client demo_local ''run-1'' = Inr (Some lease)"
    by (cases "try_lease_run demo_client demo_local ''run-1''") auto
  moreover have "hm_get (y_store s) ''run-1'' = Some (demo_run s)"
    using assms(3) by (auto simp: demo_run_def)
  ultimately show ?thesis
    unfolding demo_work_def using hd_in_set [OF assms(1)] assms(2,4)
    by (intro authoritative.worker) (auto simp: demo_world_def)
qed

lemma served_run_terminates_witness:
  "r_step_runs (demo_run demo1) = [] \<and>
   (\<Sum>i < length (r_steps (demo_run demo1)). attempt_limit (demo_run demo1) i) + 1 = int 2 \<and>
   (case hm_get (y_store demo5) ''run-1'' of None \<Rightarrow> True
    | Some r' \<Rightarrow> r_status r' \<in> {''completed'', ''failed'', ''canceled''})"
proof (intro conjI)
  have i: "in_i64 1" "in_i64 20" by (simp_all add: in_i64_def i64_min_def i64_max_def)
  have auth: "authoritative ''run-1'' demo2 (demo_work demo2)" "authoritative ''run-1'' demo4 (demo_work demo4)"
    by (intro demo_authoritative demo_views; code_simp)+
  have "served 4 ''run-1'' 4 2 demo1 demo5"
    using served.serve [OF served.other [OF served.serve [OF served.other [OF served.none
      demo_claim_step [OF i(1)]] auth(1) [unfolded demo2_def]]
      demo_claim_step [OF i(2)]] auth(2) [unfolded demo4_def demo3_def demo2_def]]
    by (simp add: demo5_def demo4_def demo3_def demo2_def numeral_eq_Suc)
  moreover have "hm_get (y_store demo1) ''run-1'' \<noteq> None" by code_simp
  then have r: "hm_get (y_store demo1) ''run-1'' = Some (demo_run demo1)"
    by (auto simp: demo_run_def)
  moreover have "''waitSignal'' \<notin> step_type ` set (r_steps (demo_run demo1))" by code_simp
  moreover show "r_step_runs (demo_run demo1) = []" by code_simp
  moreover show "(\<Sum>i < length (r_steps (demo_run demo1)). attempt_limit (demo_run demo1) i) + 1 = int 2"
    by code_simp
  ultimately show "case hm_get (y_store demo5) ''run-1'' of None \<Rightarrow> True
      | Some r' \<Rightarrow> r_status r' \<in> {''completed'', ''failed'', ''canceled''}"
    using served_run_terminates [OF demo_reach(2)] by fastforce
qed

subsection \<open>The scheduler finds work\<close>

lemma env_int_range: "mn \<le> dflt \<Longrightarrow> dflt \<le> mx \<Longrightarrow> mn \<le> env_int env name dflt mn mx \<and> env_int env name dflt mn mx \<le> mx"
  by (auto simp: env_int_def split: option.split)

lemma schedule_bounds:
  assumes "engine_schedule env = Some sc"
  shows "0 < sch_max_inflight sc" "0 < sch_batch sc"
proof -
  have "1 \<le> env_int env ''WORKFLOW_MAX_INFLIGHT'' 16 1 512" "env_int env ''WORKFLOW_MAX_INFLIGHT'' 16 1 512 \<le> 512"
    "1 \<le> env_int env ''WORKFLOW_CLAIM_BATCH'' 25 1 200"
    using env_int_range by simp_all
  with assms show "0 < sch_max_inflight sc" "0 < sch_batch sc"
    by (auto simp: engine_schedule_def i64_as_u64_def word_less_def uint_word_of_int split: if_splits)
qed

lemma claim_loop_ids:
  assumes "\<And>i. i \<in> set is \<Longrightarrow> \<exists>r. hm_get st i = Some r \<and> r_id r = i"
  shows "map view_run_id (snd (claim_loop now lease is st)) = is"
  using assms
proof (induction "is" arbitrary: st)
  case (Cons i js)
  obtain r where r: "hm_get st i = Some r" "r_id r = i" using Cons.prems by auto
  have "\<exists>r'. hm_get (hm_put i (claim_one now lease r) st) k = Some r' \<and> r_id r' = k" if "k \<in> set js" for k
    using Cons.prems [of k] that r by (auto simp: hm_get_put claim_one_def)
  from Cons.IH [OF this] r show ?case
    by (simp add: Let_def case_prod_beta view_fields claim_one_def)
qed simp

text \<open>
  C22: The scheduler does not idle. Whatever the environment says, if the engine is enabled, a
  worker slot is free and some run is due, a tick claims a run: exactly the first of the due
  runs in the order of their identifiers, as many as there are free slots and the batch allows.
\<close>

theorem tick_claims_due:
  assumes "engine_schedule env = Some sc" and "reach (sch_max_inflight sc) n s" and "n < 2 ^ 64"
    and "y_running s < unat (sch_max_inflight sc)"
    and "hm_get (y_store s) j = Some r" and "is_due now r"
  shows "snd (poll_tick sc now (y_engine s)) \<noteq> [] \<and>
    map view_run_id (snd (poll_tick sc now (y_engine s))) =
      take (min (unat (sch_max_inflight sc) - y_running s) (sch_batch sc))
        (sort (map r_id (filter (is_due now) (map snd (y_store s)))))"
proof -
  let ?M = "sch_max_inflight sc" and ?st = "y_store s"
  let ?limit = "min (unat ?M - y_running s) (sch_batch sc)"
  from reach_inv [OF assms(2,3)] have inv: "store_inv n ?st (y_ids s)"
    and running: "unat (e_inflight (y_engine s)) = y_running s" by (simp_all add: sys_inv_def)
  have free: "e_inflight (y_engine s) < ?M" "unat (?M - e_inflight (y_engine s)) = unat ?M - y_running s"
    "?M - e_inflight (y_engine s) \<noteq> 0"
    using assms(4) running by (auto simp: word_less_nat_alt unat_sub word_le_nat_alt)
  have "snd (poll_tick sc now (y_engine s)) = snd (claim_due now ?st ?limit (sch_lease_ms sc))"
    using free by (simp add: poll_tick_def claim_and_dispatch_def Let_def case_prod_beta)
  moreover have "\<exists>r. hm_get ?st i = Some r \<and> r_id r = i" if "i \<in> set (due_ids now ?limit ?st)" for i
    using due_ids_due [OF inv that] store_invD [OF inv] by blast
  from claim_loop_ids [OF this]
  have "map view_run_id (snd (claim_due now ?st ?limit (sch_lease_ms sc))) = due_ids now ?limit ?st"
    by (simp add: claim_due_def)
  moreover have "due_ids now ?limit ?st \<noteq> []"
  proof -
    have "(j, r) \<in> set ?st" using assms(5) inv by (simp add: store_inv_def hm_get_mem)
    then have "r \<in> set (map snd ?st)" by force
    then have "r \<in> set (filter (is_due now) (map snd ?st))" using assms(6) by simp
    then have "map r_id (filter (is_due now) (map snd ?st)) \<noteq> []" by (auto simp del: set_filter)
    then have "sort (map r_id (filter (is_due now) (map snd ?st))) \<noteq> []"
      by (metis length_0_conv length_sort)
    then show ?thesis using assms(4) schedule_bounds(2) [OF assms(1)] by (simp add: due_ids_def)
  qed
  ultimately show ?thesis unfolding due_ids_def by (metis list.map_disc_iff)
qed

definition four_workers :: environ where
  "four_workers name = (if name = ''WORKFLOW_MAX_INFLIGHT'' then Some ''4'' else None)"

lemma tick_claims_due_witness:
  "map view_run_id (snd (poll_tick (the (engine_schedule four_workers)) 20 (y_engine demo1))) = [''run-1'']"
proof -
  have "engine_schedule four_workers \<noteq> None" by code_simp
  then obtain sc where sc: "engine_schedule four_workers = Some sc" by blast
  have "sch_max_inflight (the (engine_schedule four_workers)) = 4"
    "sch_batch (the (engine_schedule four_workers)) = 25" by code_simp+
  with sc have M: "sch_max_inflight sc = 4" "sch_batch sc = 25" by simp_all
  have "hm_get (y_store demo1) ''run-1'' \<noteq> None" by code_simp
  then have r: "hm_get (y_store demo1) ''run-1'' = Some (demo_run demo1)" by (auto simp: demo_run_def)
  have due: "is_due 20 (demo_run demo1)" and running: "y_running demo1 = 0" by code_simp+
  have "sort (map r_id (filter (is_due 20) (map snd (y_store demo1)))) = [''run-1'']" by code_simp
  with tick_claims_due [OF sc _ _ _ r due, of 1] M running demo_reach(2) sc show ?thesis by simp
qed

end
