(* ===== verification/Workflow_Data.thy ===== *)
theory Workflow_Data
  imports Workflow_Props "HOL-Library.Multiset"
begin

section \<open>Signals\<close>

text \<open>
  What becomes of the signals delivered to a run: none is lost, none is used twice, and every
  \<open>waitSignal\<close> step that is passed has used up one signal of its own name.
\<close>

lemma path_mono:
  assumes "S \<subseteq> T" and "(wf_step_in S M ^^ k) s s'"
  shows "(wf_step_in T M ^^ k) s s'"
  using assms(2) wf_step_mono [OF _ assms(1)] by (induction k arbitrary: s') (fastforce simp: OO_def)+

definition waits_at :: "run \<Rightarrow> nat \<Rightarrow> bool" where
  "waits_at r i \<longleftrightarrow> i < length (r_steps r) \<and> step_type (r_steps r ! i) = ''waitSignal''"

definition awaited_at :: "run \<Rightarrow> nat \<Rightarrow> string" where
  "awaited_at r i =
     (case Option.bind (jget (r_steps r ! i) ''signalName'') as_str of Some s \<Rightarrow> s | None \<Rightarrow> [])"

text \<open>The \<open>waitSignal\<close> steps from one step index up to another.\<close>

definition wait_steps :: "run \<Rightarrow> nat \<Rightarrow> nat \<Rightarrow> nat list" where
  "wait_steps r a b = filter (waits_at r) [a..<b]"

lemma wait_steps_same [simp]: "wait_steps r a a = []"
  by (simp add: wait_steps_def)

lemma wait_steps_Suc: "a \<le> b \<Longrightarrow> wait_steps r a (Suc b) = wait_steps r a b @ (if waits_at r b then [b] else [])"
  by (simp add: wait_steps_def)

lemma mset_remove_nth:
  assumes "i < length xs"
  shows "mset xs = mset (remove_nth i xs) + {#xs ! i#}"
  using arg_cong [OF id_take_nth_drop [OF assms], of mset] by (simp add: remove_nth_def)

text \<open>
  \<open>signal_read\<close>: the signal a request body stands for once the store has read its texts back.
  \<open>step_log M j s ds s'\<close>: a step, labelled with the signals it delivers to the run \<open>j\<close>: the one in
  the body of a request that \<open>signal_from_body\<close> answered with success for this run, none for
  any other step. \<open>log_path\<close> appends the labels along a path.
\<close>

definition signal_read :: "serde \<Rightarrow> string \<Rightarrow> json" where
  "signal_read sj body =
     (case parse_object sj body of
        Inr obj \<Rightarrow> JObj (obj_of [(''name'', parse_or_null sj (sj_print sj (jix obj ''name''))),
                                 (''payload'', parse_or_null sj (sj_print sj (jix obj ''payload'')))])
      | Inl _ \<Rightarrow> JNull)"

inductive step_log :: "u64 \<Rightarrow> string \<Rightarrow> sys \<Rightarrow> json list \<Rightarrow> sys \<Rightarrow> bool" for M :: u64 and j :: string
where
  accepted: "signal_from_body w j body (y_engine s) = (e', Inr out) \<Longrightarrow>
    step_log M j s [signal_read (w_serde w) body] (s\<lparr>y_engine := e'\<rparr>)"
| other: "wf_step M s s' \<Longrightarrow>
    (\<And>w body e' out. signal_from_body w j body (y_engine s) = (e', Inr out) \<Longrightarrow> s' \<noteq> s\<lparr>y_engine := e'\<rparr>) \<Longrightarrow>
    step_log M j s [] s'"

inductive log_path :: "u64 \<Rightarrow> string \<Rightarrow> nat \<Rightarrow> sys \<Rightarrow> json list \<Rightarrow> sys \<Rightarrow> bool" for M :: u64 and j :: string
where
  none: "log_path M j 0 s [] s"
| step: "log_path M j k s ds t \<Longrightarrow> step_log M j t d u \<Longrightarrow> log_path M j (Suc k) s (ds @ d) u"

lemma step_log_step: "step_log M j s ds s' \<Longrightarrow> wf_step M s s'"
  by (induction rule: step_log.induct) (auto intro: wf_step_in.signal)

lemma wf_step_log: "wf_step M s s' \<Longrightarrow> \<exists>ds. step_log M j s ds s'"
  using step_log.intros by metis

text \<open>The labels do not restrict the execution: every path has a log.\<close>

lemma wf_path_iff_log: "wf_path M k s s' \<longleftrightarrow> (\<exists>ds. log_path M j k s ds s')"
proof
  show "wf_path M k s s' \<Longrightarrow> \<exists>ds. log_path M j k s ds s'"
  proof (induction k arbitrary: s')
    case (Suc k)
    then obtain t where "wf_path M k s t" "wf_step M t s'" by auto
    with Suc.IH wf_step_log show ?case by (meson log_path.step)
  qed (use log_path.none in auto)
next
  assume "\<exists>ds. log_path M j k s ds s'"
  then obtain ds where "log_path M j k s ds s'" ..
  then show "wf_path M k s s'"
    by (induction rule: log_path.induct) (auto intro: step_log_step)
qed

text \<open>Only an accepted signal makes the buffer of a run grow.\<close>

lemma commit_effect_signals:
  assumes "store_inv n (e_store e) ids" and "view_inv (e_store e) ids view" and "commit_effect S view e e'"
    and "hm_get (e_store e) j = Some r" and "hm_get (e_store e') j = Some r'"
  shows "length (r_signals r') \<le> length (r_signals r)"
proof -
  from assms(3) obtain sj upd where
    store: "e_store e' = fst (commit_with sj upd (e_store e) (view_run_id view) (v_version view))" and
    upd: "\<And>r now. view = view_of now r \<Longrightarrow> in_i64 now \<Longrightarrow> run_ok r \<Longrightarrow>
      \<not> terminal_status (r_status r) \<Longrightarrow> advances S r (upd r)"
    unfolding commit_effect_def by blast
  show ?thesis
  proof (cases "j = view_run_id view \<and> r_version r = v_version view")
    case False
    with store assms(4,5) show ?thesis
      by (auto simp: commit_with_def guard_def Let_def hm_get_put split: option.splits if_splits)
  next
    case True
    with assms(2,4) obtain now where now: "view = view_of now r" "in_i64 now" "\<not> terminal_status (r_status r)"
      by (auto simp: view_inv_def view_fields)
    with upd store_invD [OF assms(1,4)] have "flows S r (upd r)" by (auto simp: advances_def)
    from flows_length [OF this] True now(3) store assms(4,5) commit_with_applied [of "e_store e" j r]
    show ?thesis by (cases "r_status r = ''canceled''") (auto simp: terminal_status_def hm_get_put)
  qed
qed

lemma accepted_signal:
  assumes "signal_from_body w j body e = (e', Inr out)" and "hm_get (e_store e) j = Some r"
  shows "\<exists>r'. hm_get (e_store e') j = Some r' \<and> r_signals r' = r_signals r @ [signal_read (w_serde w) body] \<and>
    same_identity r r' \<and> r_current_step_index r' = r_current_step_index r"
  using assms
  by (auto simp: signal_from_body_def signal_read_def deliver_signal_def jix_def Let_def hm_get_put
      same_identity_def case_prod_beta split: sum.splits option.splits prod.splits if_splits)

lemma other_signals:
  assumes inv: "sys_inv M n s" and step: "wf_step M s s'"
    and other: "\<And>w body e' out. signal_from_body w j body (y_engine s) = (e', Inr out) \<Longrightarrow>
        s' \<noteq> s\<lparr>y_engine := e'\<rparr>"
    and get: "hm_get (y_store s) j = Some r" "hm_get (y_store s') j = Some r'"
  shows "length (r_signals r') \<le> length (r_signals r)"
proof -
  from inv have st: "store_inv n (y_store s) (y_ids s)" by (simp add: sys_inv_def)
  from step show ?thesis
  proof cases
    case (create steps uuid e' sj now d inp retry idem)
    with get store_invD [OF st get(1)] show ?thesis
      by (auto simp: create_run_insert_def hm_get_put new_run_def split: if_splits)
  next
    case (signal w i body e' res)
    show ?thesis
    proof (cases "i = j \<and> \<not> isl res")
      case True
      with signal other show ?thesis by (cases res) auto
    next
      case False
      with signal(2) get signal(1) show ?thesis
        by (auto simp: signal_from_body_def deliver_signal_def Let_def hm_get_put
            split: sum.splits option.splits if_splits)
    qed
  next
    case (cancel w i e' res)
    from cancel_effect [OF cancel(2)] cancel(1) get show ?thesis
      by (auto simp: cancel_run_def Let_def hm_get_put split: option.splits if_splits)
  next
    case (collect t retain st' k)
    then have "y_store s' = fst (gc_terminal t retain (y_store s))" by simp
    with st get show ?thesis
      by (auto simp: gc_terminal_def Let_def store_inv_def hm_get_retain split: if_splits)
  next
    case (claim now lease batch e' views)
    from claim(3) show ?thesis
    proof (rule claim_effect)
      fix limit
      assume "e_store e' = fst (claim_due now (y_store s) limit lease)"
      with get claim(1) due_ids_distinct [OF st] show ?thesis
        by (auto simp: claim_due_def claim_loop_get claim_one_def split: if_splits)
    qed (use claim(1) get in simp)
  next
    case (work view w cl c race)
    from process_run_effect [of w cl c race view "y_engine s"] show ?thesis
      using commit_effect_signals [OF st _ _ get(1), of view "{w_serde w}" "y_engine s'" r'] inv work get
      by (auto simp: sys_inv_def defer_effect_def)
  next
    case (task t w)
    with inv obtain view where v: "view_inv (y_store s) (y_ids s) view" "task_of (view_run_id view) view t"
      unfolding sys_inv_def by blast
    from run_detached_effect [OF v(2), of w "y_engine s" UNIV] task(1)
    have "commit_effect UNIV view (y_engine s) (y_engine s')" by simp
    from commit_effect_signals [OF st v(1) this get] show ?thesis .
  qed (use get in \<open>simp add: worker_done_def\<close>)
qed

text \<open>
  \<open>ledger r ds q\<close>: from \<open>r\<close> to \<open>q\<close>, the signals \<open>ds\<close> came in, some went out, and those that went out
  are, in order, one for each \<open>waitSignal\<close> step passed, of the name it waits for.
\<close>

definition ledger :: "run \<Rightarrow> json list \<Rightarrow> run \<Rightarrow> bool" where
  "ledger r ds q \<longleftrightarrow> same_identity r q \<and> r_current_step_index r \<le> r_current_step_index q \<and>
     (\<exists>used. mset (r_signals r) + mset ds = mset (r_signals q) + mset used \<and>
        list_all2 (\<lambda>i sig. signal_matches (awaited_at r i) sig)
          (wait_steps r (r_current_step_index r) (r_current_step_index q)) used)"

lemma ledger_refl: "ledger r [] r"
  unfolding ledger_def by (auto simp: same_identity_def intro!: exI [of _ "[]"])

lemma ledgerI:
  assumes "same_identity r q" and "r_current_step_index r \<le> r_current_step_index q"
    and "mset (r_signals r) + mset ds = mset (r_signals q) + mset used"
    and "list_all2 (\<lambda>i sig. signal_matches (awaited_at r i) sig)
          (wait_steps r (r_current_step_index r) (r_current_step_index q)) used"
  shows "ledger r ds q"
  using assms unfolding ledger_def by blast

lemma ledger_accepted:
  assumes "ledger r ds q" and "same_identity q q'" and "r_signals q' = r_signals q @ d"
    and "r_current_step_index q' = r_current_step_index q"
  shows "ledger r (ds @ d) q'"
  using assms unfolding ledger_def by (fastforce simp: same_identity_def union_assoc [symmetric])

lemma ledger_flows:
  assumes "ledger r ds q" and "same_identity q q'" and "flows S q q'"
  shows "ledger r ds q'"
proof -
  let ?a = "r_current_step_index r" and ?b = "r_current_step_index q"
  from assms(1) obtain used where l: "same_identity r q" "?a \<le> ?b"
    "mset (r_signals r) + mset ds = mset (r_signals q) + mset used"
    "list_all2 (\<lambda>i sig. signal_matches (awaited_at r i) sig) (wait_steps r ?a ?b) used"
    unfolding ledger_def by blast
  have same: "same_identity r q'" and steps: "r_steps q = r_steps r"
    using l(1) assms(2) by (simp_all add: same_identity_def)
  have at: "waits_at r ?b = waits_for_signal q" "awaited_at r ?b = awaited q"
    using steps by (simp_all add: waits_at_def waits_for_signal_def awaited_at_def awaited_def current_def)
  consider (used) "consumes q q'"
    | (kept) "r_signals q' = r_signals q" "wait_steps r ?a (r_current_step_index q') = wait_steps r ?a ?b"
        "?a \<le> r_current_step_index q'"
    using assms(3) l(2) at(1) wait_steps_Suc [OF l(2), of r] unfolding flows_def
    by (auto split: if_splits)
  then show ?thesis
  proof cases
    case used
    then obtain p sig where p: "waits_for_signal q"
      "find_pos (signal_matches (awaited q)) 0 (r_signals q) = Some (p, sig)"
      "r_signals q' = remove_nth p (r_signals q)" "r_current_step_index q' = Suc ?b"
      by (auto simp: consumes_def)
    from find_pos_Some [OF p(2)] have sig: "p < length (r_signals q)" "r_signals q ! p = sig"
      "signal_matches (awaited q) sig" by auto
    show ?thesis
    proof (rule ledgerI [OF same])
      show "mset (r_signals r) + mset ds = mset (r_signals q') + mset (used @ [sig])"
        using l(3) mset_remove_nth [OF sig(1)] p(3) sig(2) by simp
      show "list_all2 (\<lambda>i sig. signal_matches (awaited_at r i) sig)
          (wait_steps r ?a (r_current_step_index q')) (used @ [sig])"
        using l(4) p(1,4) at sig(3) wait_steps_Suc [OF l(2), of r] by (simp add: list_all2_appendI)
    qed (use l(2) p(4) in simp)
  next
    case kept
    with l show ?thesis by (intro ledgerI [OF same, of ds used]) simp_all
  qed
qed

lemma ledger_step:
  assumes inv: "sys_inv M n s" and step: "step_log M j s d s'"
    and get: "hm_get (y_store s) j = Some q" "hm_get (y_store s') j = Some q'" and "ledger r ds q"
  shows "ledger r (ds @ d) q'"
  using step
proof cases
  case (accepted w body e' out)
  from accepted_signal [OF accepted(3) get(1)] get(2) accepted(2)
  obtain "r_signals q' = r_signals q @ d" "same_identity q q'"
    "r_current_step_index q' = r_current_step_index q" using accepted(1) by auto
  with ledger_accepted [OF assms(5)] show ?thesis by blast
next
  case other
  from other_signals [OF inv other(2,3) get] have "\<not> delivers q q'" by (auto simp: delivers_def)
  with step_change [OF inv other(2), where j = j]
  have "q' = q \<or> same_identity q q' \<and> flows UNIV q q'" unfolding get run_change_from_Some
    by (auto simp: evolves_in_def)
  with ledger_flows [OF assms(5)] assms(5) other(1) show ?thesis by auto
qed

text \<open>
  C6: Signals are neither lost, nor invented, nor used twice. Take any execution, with \<open>delivered\<close>
  the signals of the requests for this run that \<open>signal_from_body\<close> answered with success, in order.
  The signals the run had and the delivered ones are, counted with multiplicity, those still in
  its buffer and those used up; and the used ones are, in order, exactly one for each \<open>waitSignal\<close>
  step the run has passed, each of the name its step waits for. So what a step used is no longer
  in the buffer, and no such step is passed without a signal.
\<close>

theorem signals_conserved:
  assumes "reach M n s" and "log_path M j k s delivered s'" and "n + k < 2 ^ 64"
    and "hm_get (y_store s) j = Some r" and "hm_get (y_store s') j = Some r'"
  shows "r_current_step_index r \<le> r_current_step_index r' \<and>
    (\<exists>used. mset (r_signals r) + mset delivered = mset (r_signals r') + mset used \<and>
      list_all2 (\<lambda>i sig. signal_matches (awaited_at r i) sig)
        (wait_steps r (r_current_step_index r) (r_current_step_index r')) used)"
proof -
  have "j \<in> set (y_ids s') \<and> (case hm_get (y_store s') j of None \<Rightarrow> True | Some q \<Rightarrow> ledger r delivered q)"
    using assms(2,1,3,4)
  proof (induction rule: log_path.induct)
    case (none s)
    then show ?case using reach_inv [OF none.prems(1)] store_invD ledger_refl
      by (fastforce simp: sys_inv_def)
  next
    case (step k s ds t d u)
    then have IH: "j \<in> set (y_ids t)" "\<And>q. hm_get (y_store t) j = Some q \<Longrightarrow> ledger r ds q"
      and inv: "sys_inv M (n + k) t"
      using path_inv [OF step.prems(1), of k t] wf_path_iff_log [where j = j and M = M] by auto
    have w: "wf_step M t u" by (rule step_log_step [OF step.hyps(2)])
    show ?case
    proof (cases "hm_get (y_store t) j")
      case None
      with step_change [OF inv w, where j = j] IH(1) step_ids [OF w] show ?thesis
        by (auto simp: run_change_from_None)
    next
      case (Some q)
      with ledger_step [OF inv step.hyps(2) Some _ IH(2)] IH(1) step_ids [OF w] show ?thesis
        by (auto split: option.split)
    qed
  qed
  with assms(5) show ?thesis by (simp add: ledger_def)
qed

text \<open>A run that parks at a \<open>waitSignal\<close> step, is given a signal and passes the step.\<close>

definition sig_serde :: serde where
  "sig_serde = \<lparr> sj_parse = (\<lambda>t. Inr (if t = ''go'' then JStr ''go'' else if t = ''null'' then JNull
       else if t = ''body'' then JObj [(''name'', JStr ''go'')]
       else if t = ''ctx'' then JObj [(''step-0'', JNull)] else JObj [])),
     sj_print = (\<lambda>v. if v = JStr ''go'' then ''go'' else if v = JNull then ''null''
       else if v = JObj [(''step-0'', JNull)] then ''ctx'' else ''{}'') \<rparr>"

definition sig_world :: world where
  "sig_world = demo_world\<lparr>w_serde := sig_serde\<rparr>"

definition sig_steps :: "json list" where
  "sig_steps = [JObj [(''signalName'', JStr ''go''), (''type'', JStr ''waitSignal'')]]"

definition sig_work :: "sys \<Rightarrow> sys" where
  "sig_work s = s\<lparr>y_engine := process_run sig_world demo_client demo_local WorkFinished
     (hd (y_views s)) (y_engine s)\<rparr>"

definition "sig1 = demo0\<lparr>y_engine := (y_engine demo0)\<lparr>e_store := fst (create_run_insert sig_serde
      (y_store demo0) (new_run ''run-1'' 0 ''demo'' JNull sig_steps (JObj []) []))\<rparr>,
    y_ids := ''run-1'' # y_ids demo0\<rparr>"
definition "sig2 = sig_work (demo_claim 1 sig1)"
definition "sig3 = sig2\<lparr>y_engine := fst (signal_from_body sig_world ''run-1'' ''body'' (y_engine sig2))\<rparr>"
definition "sig4 = sig_work (demo_claim 20 sig3)"

lemma sig_work_step: "y_views s \<noteq> [] \<Longrightarrow> wf_step_in {sig_serde} 4 s (sig_work s)"
  unfolding sig_work_def by (intro wf_step_in.work hd_in_set) (simp_all add: sig_world_def)

lemma sig_create_step: "wf_step_in S 4 demo0 sig1"
  unfolding sig1_def
  by (rule wf_step_in.create [where steps = sig_steps])
    (simp_all add: sig_steps_def i64_max_def demo0_def)

lemma sig_reach: "reach 4 1 sig1"
  using reach.step [OF demo_reach(1) sig_create_step] by simp

lemma sig_path: "(wf_step_in {sig_serde} 4 ^^ 5) sig1 sig4"
proof -
  have i: "in_i64 1" "in_i64 20" by code_simp+
  have v: "y_views (demo_claim 1 sig1) \<noteq> []" "y_views (demo_claim 20 sig3) \<noteq> []" by code_simp+
  have "wf_step_in {sig_serde} 4 sig2 sig3" unfolding sig3_def
    by (rule wf_step_in.signal [where res = "snd (signal_from_body sig_world ''run-1'' ''body'' (y_engine sig2))"])
      simp
  moreover note demo_claim_step [OF i(1), of "{sig_serde}" sig1] sig_work_step [OF v(1)]
    demo_claim_step [OF i(2), of "{sig_serde}" sig3] sig_work_step [OF v(2)]
  ultimately have "(wf_step_in {sig_serde} 4 OO wf_step_in {sig_serde} 4 OO wf_step_in {sig_serde} 4 OO
      wf_step_in {sig_serde} 4 OO wf_step_in {sig_serde} 4) sig1 sig4"
    unfolding sig2_def sig4_def by blast
  then show ?thesis by (simp add: numeral_eq_Suc relcompp_assoc eq_OO)
qed

lemma sig_runs:
  "hm_get (y_store sig1) ''run-1'' \<noteq> None" "hm_get (y_store sig4) ''run-1'' \<noteq> None"
  "r_signals (demo_run sig1) = []" "r_signals (demo_run sig4) = []"
  "wait_steps (demo_run sig1) (r_current_step_index (demo_run sig1))
     (r_current_step_index (demo_run sig4)) = [0]"
  "awaited_at (demo_run sig1) 0 = ''go''"
  by code_simp+

lemma log_other:
  assumes "wf_step M s s'" and "hm_get (y_store s) j = Some r" and "hm_get (y_store s') j \<noteq> None"
    and "length (r_signals (the (hm_get (y_store s') j))) \<le> length (r_signals r)"
  shows "step_log M j s [] s'"
proof (rule step_log.other [OF assms(1)])
  fix w body e' out
  assume "signal_from_body w j body (y_engine s) = (e', Inr out)"
  from accepted_signal [OF this assms(2)] assms(3,4) show "s' \<noteq> s\<lparr>y_engine := e'\<rparr>" by auto
qed

definition go_signal :: json where
  "go_signal = JObj (obj_of [(''name'', JStr ''go''), (''payload'', JNull)])"

lemma sig_log: "log_path 4 ''run-1'' 5 sig1 [go_signal] sig4"
proof -
  let ?j = "''run-1''" and ?m1 = "demo_claim 1 sig1" and ?m2 = "demo_claim 20 sig3"
  let ?res = "signal_from_body sig_world ?j ''body'' (y_engine sig2)"
  have i: "in_i64 1" "in_i64 20" by code_simp+
  have v: "y_views ?m1 \<noteq> []" "y_views ?m2 \<noteq> []" by code_simp+
  have some: "hm_get (y_store s) ?j = Some (demo_run s)" if "hm_get (y_store s) ?j \<noteq> None" for s
    using that by (auto simp: demo_run_def)
  have at: "hm_get (y_store sig1) ?j \<noteq> None" "hm_get (y_store ?m1) ?j \<noteq> None" "hm_get (y_store sig2) ?j \<noteq> None"
    "hm_get (y_store sig3) ?j \<noteq> None" "hm_get (y_store ?m2) ?j \<noteq> None" "hm_get (y_store sig4) ?j \<noteq> None"
    by code_simp+
  have len: "length (r_signals (the (hm_get (y_store s) ?j))) = length (r_signals (demo_run s))" for s
    by (simp add: demo_run_def)
  have lens: "length (r_signals (demo_run sig1)) = 0" "length (r_signals (demo_run ?m1)) = 0"
    "length (r_signals (demo_run sig2)) = 0" "length (r_signals (demo_run sig3)) = 1"
    "length (r_signals (demo_run ?m2)) = 1" "length (r_signals (demo_run sig4)) = 0" by code_simp+
  have s1: "step_log 4 ?j sig1 [] ?m1"
    using demo_claim_step [OF i(1), of UNIV sig1] by (rule log_other [OF _ some [OF at(1)] at(2)]) (simp add: len lens)
  have s2: "step_log 4 ?j ?m1 [] sig2"
    using wf_step_mono [OF sig_work_step [OF v(1)] subset_UNIV] unfolding sig2_def [symmetric]
    by (rule log_other [OF _ some [OF at(2)] at(3)]) (simp add: len lens)
  have "\<not> isl (snd ?res)" "signal_read (w_serde sig_world) ''body'' = go_signal" by code_simp+
  then have s3: "step_log 4 ?j sig2 [go_signal] sig3"
    using step_log.accepted [of sig_world ?j "''body''" sig2 "fst ?res" "projr (snd ?res)" 4]
    unfolding sig3_def by simp
  have s4: "step_log 4 ?j sig3 [] ?m2"
    using demo_claim_step [OF i(2), of UNIV sig3] by (rule log_other [OF _ some [OF at(4)] at(5)]) (simp add: len lens)
  have s5: "step_log 4 ?j ?m2 [] sig4"
    using wf_step_mono [OF sig_work_step [OF v(2)] subset_UNIV] unfolding sig4_def [symmetric]
    by (rule log_other [OF _ some [OF at(5)] at(6)]) (simp add: len lens)
  from log_path.step [OF log_path.step [OF log_path.step [OF log_path.step [OF log_path.step
      [OF log_path.none s1] s2] s3] s4] s5] show ?thesis by (simp add: numeral_eq_Suc)
qed

lemma signals_conserved_witness:
  "log_path 4 ''run-1'' 5 sig1 [go_signal] sig4 \<and>
   (\<exists>used. {#go_signal#} = mset used \<and>
     list_all2 (\<lambda>i sig. signal_matches (awaited_at (demo_run sig1) i) sig) [0] used)"
proof -
  have "hm_get (y_store sig1) ''run-1'' = Some (demo_run sig1)"
    "hm_get (y_store sig4) ''run-1'' = Some (demo_run sig4)"
    using sig_runs(1,2) by (auto simp: demo_run_def)
  from signals_conserved [OF sig_reach sig_log _ this] show ?thesis
    by (simp add: sig_runs sig_log)
qed

section \<open>The context\<close>

text \<open>
  The context of a run travels as JSON text: a handler prints the snapshot's context with the new
  entry, the store parses the text, and what does not parse to an object counts as an empty one.
  So the context is what the run's history says, as long as the text can be read back.
\<close>

definition replay :: "json list \<Rightarrow> jobject" where
  "replay rows = fold apply_row rows []"

definition survives :: "serde \<Rightarrow> json list \<Rightarrow> bool" where
  "survives sj rows \<longleftrightarrow>
     (\<forall>n \<le> length rows. reprint sj (replay (take n rows)) = replay (take n rows))"

lemma survives_prefix:
  assumes "survives sj (rows @ rows')"
  shows "survives sj rows"
  unfolding survives_def
proof (intro allI impI)
  fix n
  assume "n \<le> length rows"
  with assms show "reprint sj (replay (take n rows)) = replay (take n rows)"
    unfolding survives_def by (auto dest: spec [of _ n])
qed

lemma survives_reprint: "survives sj rows \<Longrightarrow> reprint sj (replay rows) = replay rows"
  unfolding survives_def by (metis order_refl take_all)

lemma replay_step:
  assumes "records {sj} r r'" and "survives sj (r_step_runs r')"
    and "survives sj (r_step_runs r) \<Longrightarrow> r_context r = replay (r_step_runs r)"
  shows "r_context r' = replay (r_step_runs r')"
proof -
  from assms(1) obtain rows where rows: "r_step_runs r' = r_step_runs r @ rows"
    "r_context r' = fold apply_row rows (r_context r) \<or>
     r_context r' = reprint sj (fold apply_row rows (r_context r))" by (auto simp: records_def)
  with assms(2,3) survives_prefix have "fold apply_row rows (r_context r) = replay (r_step_runs r')"
    by (simp add: replay_def)
  with rows(2) survives_reprint [OF assms(2)] show ?thesis by auto
qed

text \<open>
  C5: The context of a run is the replay of its history. In any execution of a process linked with
  one JSON library, if the contexts the recorded rows produce can be read back from their text,
  the context of every run is exactly its rows' outputs, each put under the name of its step, in
  order: no output is lost, none comes from elsewhere.
\<close>

theorem context_is_replay:
  assumes "initial s0" and "(wf_step_in {sj} M ^^ k) s0 s" and "k < 2 ^ 64"
    and "hm_get (y_store s) j = Some r" and "survives sj (r_step_runs r)"
  shows "r_context r = replay (r_step_runs r)"
  using assms(2-)
proof (induction k arbitrary: s r)
  case 0
  with assms(1) show ?case by (simp add: initial_def hm_get_def)
next
  case (Suc k)
  then obtain t where t: "(wf_step_in {sj} M ^^ k) s0 t" "wf_step_in {sj} M t s" by auto
  have "reach M k t"
    using reach_path [OF reach.start [OF assms(1)] path_mono [OF _ t(1)]] by simp
  then have inv: "sys_inv M k t" using reach_inv Suc.prems(2) by simp
  have IH: "r_context q = replay (r_step_runs q)"
    if "hm_get (y_store t) j = Some q" "survives sj (r_step_runs q)" for q
    using Suc.IH [OF t(1) _ that] Suc.prems(2) by simp
  show ?case
    using step_change [OF inv t(2), where j = j] unfolding Suc.prems(3) run_change_to_Some
  proof (elim disjE exE conjE)
    assume "abs_run r = initial_progress" "r_context r = []"
    then show ?thesis by (simp add: abs_run_def initial_progress_def replay_def)
  next
    fix q
    assume q: "hm_get (y_store t) j = Some q" "evolves_in {sj} q r"
    then consider "records {sj} q r" | "delivers q r" by (auto simp: evolves_in_def flows_def)
    then show ?thesis
      by cases (use replay_step [OF _ Suc.prems(4) IH [OF q(1)]] IH [OF q(1)] Suc.prems(4)
        in \<open>simp_all add: delivers_def\<close>)
  qed (use IH Suc.prems(4) in simp)
qed

lemma context_is_replay_witness:
  "r_context (demo_run sig4) = replay (r_step_runs (demo_run sig4)) \<and>
   r_context (demo_run sig4) = [(''step-0'', JNull)]"
proof -
  have init: "initial demo0" by (simp add: initial_def demo0_def)
  have path: "(wf_step_in {sig_serde} 4 ^^ Suc 5) demo0 sig4"
    by (rule relpowp_Suc_I2 [OF sig_create_step sig_path])
  have get: "hm_get (y_store sig4) ''run-1'' = Some (demo_run sig4)"
    using sig_runs(2) by (auto simp: demo_run_def)
  have "length (r_step_runs (demo_run sig4)) = 1" by code_simp
  moreover have "reprint sig_serde (replay (take 0 (r_step_runs (demo_run sig4)))) =
      replay (take 0 (r_step_runs (demo_run sig4))) \<and>
    reprint sig_serde (replay (take 1 (r_step_runs (demo_run sig4)))) =
      replay (take 1 (r_step_runs (demo_run sig4)))" by code_simp
  ultimately have "survives sig_serde (r_step_runs (demo_run sig4))"
    unfolding survives_def by (auto simp: le_Suc_eq)
  from context_is_replay [OF init path _ get this]
  have "r_context (demo_run sig4) = replay (r_step_runs (demo_run sig4))" by simp
  moreover have "replay (r_step_runs (demo_run sig4)) = [(''step-0'', JNull)]" by code_simp
  ultimately show ?thesis by simp
qed

lemma step_row_error: "jget (step_row idx nm ty fr att st inp out None dur) ''error'' = None"
  by (simp add: step_row_def opt_insert_def obj_get_insert obj_get_obj_of split: option.split)

text \<open>
  C32: What happens when the text cannot be read back. When an activity answers, its context still
  fits the size limit but the printed context does not parse (\<open>serde_json\<close> refuses text nested
  deeper than 128 levels: an output nested 127 levels deep is accepted, and the context object
  adds one), the step is recorded as succeeded, the run goes on (or is completed), and the stored
  context is empty: the outputs of all earlier steps are gone. No error is reported: neither the
  row nor the run gets one, and neither a failed step nor a commit error is counted.
\<close>

theorem context_erased:
  assumes "hm_get (e_store e) (r_id r) = Some r" and "run_ok r" and "\<not> terminal_status (r_status r)"
    and "r_current_step_index r < length (r_steps r)"
    and "step_type (current r) = ''activity''" and "activity_function_ref (current r) = Inr f"
    and "try_lease_run cl c (r_id r) = Inr (Some lease)" and "w_invoke w = (\<lambda>_ _ _ _ _. Inr out)"
    and "ctx = sj_print (w_serde w) (JObj (obj_insert (step_name (current r) (r_current_step_index r))
           (decode_output (w_serde w) out) (r_context r)))"
    and "length ctx \<le> MAX_CONTEXT_BYTES" and "sj_parse (w_serde w) ctx = Inl err"
    and "e' = process_run w cl c WorkFinished (view_of now r) e"
  shows "\<exists>r' row. hm_get (e_store e') (r_id r) = Some r' \<and>
    r_context r' = [] \<and> r_status r' \<in> {''running'', ''completed''} \<and>
    r_step_runs r' = r_step_runs r @ [row] \<and> row_key_of row = ok_row (r_current_step_index r) \<and>
    jget row ''error'' = None \<and> r_error r' \<in> {None, r_error r} \<and>
    m_steps_failed (e_metrics e') = m_steps_failed (e_metrics e) \<and>
    m_commit_errors (e_metrics e') = m_commit_errors (e_metrics e) \<and>
    apply_row row (r_context r) = obj_insert (step_name (current r) (r_current_step_index r))
      (decode_output (w_serde w) out) (r_context r)"
proof -
  have view: "view_steps (view_of now r) = r_steps r" "view_index (view_of now r) = r_current_step_index r"
    "view_context (view_of now r) = r_context r" "view_run_id (view_of now r) = r_id r"
    using run_ok_index [OF assms(2)] by (simp_all add: view_fields)
  have read: "parse_obj (w_serde w) ctx = []" using assms(11) by (simp add: parse_obj_def)
  have status: "r_status r \<noteq> ''canceled''" using assms(3) by (auto simp: terminal_status_def)
  let ?w = "activity_success w True (r_id r) (view_of now r) (current r) (r_current_step_index r)
      (length (r_steps r)) f (case jget (current r) ''input'' of Some v \<Rightarrow> v | None \<Rightarrow> JObj []) out e"
  have "e' \<in> {?w, worker_exception ?w}"
    using assms(4-8) unfolding assms(12)
    by (auto simp: process_run_def view Let_def case_prod_beta do_process_run_def
        run_activity_def current_def split: sum.split)
  then have "e_store e' = e_store ?w"
    and "m_steps_failed (e_metrics e') = m_steps_failed (e_metrics ?w)"
    and "m_commit_errors (e_metrics e') = m_commit_errors (e_metrics ?w)"
    by (auto simp: worker_exception_def bump_def)
  then show ?thesis
    using assms(1,9,10) status commit_with_applied [OF assms(1) status refl]
    by (simp add: activity_success_def view Let_def succeed_complete_def succeed_advance_def
        read [unfolded assms(9)] commit_then_def handle_commit_def publish_event_def bump_def nudge_def
        step_row_error)
qed

definition shallow_serde :: serde where
  "shallow_serde = \<lparr> sj_parse = (\<lambda>t. if t = ''nested'' then Inl ''recursion limit exceeded'' else Inr JNull),
     sj_print = (\<lambda>v. case v of JObj m \<Rightarrow> ''nested'' | _ \<Rightarrow> ''null'') \<rparr>"

definition activity_run :: run where
  "activity_run = (new_run ''run-1'' 0 ''demo'' JNull
       [JObj [(''functionId'', JStr ''f''), (''type'', JStr ''activity'')]] (JObj []) [])
     \<lparr>r_context := [(''earlier'', JNull)]\<rparr>"

lemma activity_run_ok: "run_ok activity_run"
proof -
  have "abs_run activity_run = initial_progress"
    by (simp add: abs_run_def activity_run_def new_run_def initial_progress_def phase_of_def)
  then show ?thesis using run_machine.initial_ok [of activity_run]
    by (simp add: run_ok_def run_statuses_def activity_run_def new_run_def i64_max_def)
qed

lemma context_erased_witness:
  "\<exists>r'. hm_get (e_store (process_run (demo_world\<lparr>w_serde := shallow_serde\<rparr>) demo_client demo_local
       WorkFinished (view_of 1 activity_run)
       ((y_engine demo0)\<lparr>e_store := [(''run-1'', activity_run)]\<rparr>))) ''run-1'' = Some r' \<and>
     r_context r' = [] \<and> r_status r' \<in> {''running'', ''completed''} \<and> r_error r' = None"
proof -
  let ?w = "demo_world\<lparr>w_serde := shallow_serde\<rparr>" and ?e = "(y_engine demo0)\<lparr>e_store := [(''run-1'', activity_run)]\<rparr>"
  let ?ctx = "sj_print (w_serde ?w) (JObj (obj_insert (step_name (current activity_run)
      (r_current_step_index activity_run)) (decode_output (w_serde ?w) ''{}'') (r_context activity_run)))"
  have id: "r_id activity_run = ''run-1''" by code_simp
  have get: "hm_get (e_store ?e) (r_id activity_run) = Some activity_run"
    by (simp add: id hm_get_def)
  have run: "terminal_status (r_status activity_run) = False"
    "r_current_step_index activity_run < length (r_steps activity_run)"
    "step_type (current activity_run) = ''activity''"
    "activity_function_ref (current activity_run) = Inr ''f''" by code_simp+
  have "isl (try_lease_run demo_client demo_local (r_id activity_run)) = False \<and>
      projr (try_lease_run demo_client demo_local (r_id activity_run)) \<noteq> None" by code_simp
  then obtain lease where lease: "try_lease_run demo_client demo_local (r_id activity_run) = Inr (Some lease)"
    by (cases "try_lease_run demo_client demo_local (r_id activity_run)") auto
  have ctx: "length ?ctx \<le> MAX_CONTEXT_BYTES" "sj_parse (w_serde ?w) ?ctx = Inl ''recursion limit exceeded''"
    by (simp_all add: shallow_serde_def MAX_CONTEXT_BYTES_def)
  have inv: "w_invoke ?w = (\<lambda>_ _ _ _ _. Inr ''{}'')" by (simp add: demo_world_def)
  have "r_error activity_run = None" by (simp add: activity_run_def new_run_def)
  with context_erased [OF get activity_run_ok _ run(2-4) lease inv refl ctx refl, of 1] run(1) id
  show ?thesis by auto
qed

end
