(* ===== verification/Coord_Props.thy ===== *)
theory Coord_Props
  imports Coord
begin

section \<open>Properties of the coordination with fiducia-node\<close>

text \<open>
  The claims on \<open>src/coord.rs\<close>: a run lease is only accepted, renewed and released as the
  exact grant the node gave; authority is lost as soon as a renewal is not exactly that; the
  registration supervisor's state and counters stay consistent; a process never falls back to
  local coordination by accident.
\<close>

subsection \<open>Sample node behaviours\<close>

definition down_client :: client where
  "down_client = \<lparr> cl_service_register = (\<lambda>_ _ _ _. RequestFailed ''down''),
     cl_service_heartbeat = (\<lambda>_ _ _. RequestFailed ''down''),
     cl_service_deregister = (\<lambda>_ _. RequestFailed ''down''),
     cl_idempotency_claim = (\<lambda>_ _ _. RequestFailed ''down''),
     cl_try_lock = (\<lambda>keys ttl holder. Returned (Some \<lparr> lh_keys = keys, lh_holder = holder,
       lh_fencing_token = 7, lh_lease_expires_ms = Some 99, lh_ttl_ms = ttl \<rparr>)),
     cl_renew_lock = (\<lambda>_ _. RequestFailed ''down''),
     cl_release_lock = (\<lambda>_. RequestFailed ''down''), cl_service_instance = (\<lambda>_. Inl ''none''),
     cl_lock_renew_response = (\<lambda>_. Inl ''none''), cl_lock_release_response = (\<lambda>_. Inl ''none'') \<rparr>"

definition sample_coordinator :: coordinator where
  "sample_coordinator = fresh_coordinator (Some (''http://node'', ''secret'', ''org'')) ''me'' ''addr''"

subsection \<open>Leases\<close>

text \<open>
  A granted lease is the exact grant. When \<open>try_lease_run\<close> says the run may be advanced, it
  is for the key of this run and the requested time; with a configured node, the node granted
  exactly this key to a named holder under a non-zero fencing token and a real expiry; without
  one, the lease says that it is not authoritative.
\<close>

theorem lease_exact:
  assumes "try_lease_run cl c run_id = Inr (Some l)"
  shows "rl_key l = ''workflow/run/'' @ run_id \<and> rl_ttl_ms l = 60000 \<and>
    rl_authoritative l = enabled c \<and>
    (if enabled c then
       (\<exists>h t. cl_try_lock cl [rl_key l] 60000 (c_instance_id c) = Returned (Some h) \<and>
          lh_keys h = [rl_key l] \<and> rl_holder l = lh_holder h \<and> trim (rl_holder l) \<noteq> [] \<and>
          rl_fencing_token l = lh_fencing_token h \<and> rl_fencing_token l \<noteq> 0 \<and>
          rl_lease_expires_ms l = Some t \<and> lh_lease_expires_ms h = Some t \<and> t \<noteq> 0)
     else rl_fencing_token l = 1 \<and> rl_holder l = c_instance_id c)"
  using assms
  by (auto simp: try_lease_run_def try_lease_run_with_ttl_def run_lease_from_handle_def run_key_def
      RUN_LEASE_TTL_MS_def split: if_splits call.splits option.splits sum.splits)

lemma lease_exact_witness:
  "\<exists>l. try_lease_run down_client sample_coordinator ''r'' = Inr (Some l) \<and>
     rl_authoritative l = enabled sample_coordinator \<and> rl_fencing_token l = 7"
proof -
  let ?t = "try_lease_run down_client sample_coordinator ''r''"
  have h: "(case ?t of Inr (Some l) \<Rightarrow> rl_fencing_token l = 7 | _ \<Rightarrow> False) = True" by code_simp
  then obtain l where l: "?t = Inr (Some l)" by (auto split: sum.splits option.splits)
  with h lease_exact [OF l] show ?thesis by auto
qed








text \<open>
  Renewal is in time. For every lease time the interval is between 1 ms and 20 s, and for a
  lease of at least 3 ms three intervals fit into it, so a renewal can be missed by a delay of
  two intervals before the lease can expire.
\<close>

theorem renewal_interval_bounds:
  "1 \<le> unat (renewal_interval_ms l) \<and> unat (renewal_interval_ms l) \<le> 20000 \<and>
   (if 3 \<le> unat (rl_ttl_ms l) then 3 * unat (renewal_interval_ms l) \<le> unat (rl_ttl_ms l)
    else renewal_interval_ms l = 1)"
proof -
  have third: "unat (rl_ttl_ms l div 3) = unat (rl_ttl_ms l) div 3"
    by (simp add: unat_div)
  show ?thesis
    using third by (auto simp: renewal_interval_ms_def Let_def MAX_RENEWAL_INTERVAL_MS_def
        word_less_nat_alt word_le_nat_alt not_less)
qed

subsection \<open>Registration\<close>

text \<open>What the calls to the node change: the log of the calls, and nothing else.\<close>

lemma once_sends [simp]:
  "fst (register_service_once cl c) =
     (if enabled c then sends (SentRegister (c_instance_id c) (c_service_address c)) c else c)"
  "fst (heartbeat_service_once cl c) = (if enabled c then sends (SentHeartbeat (c_instance_id c)) c else c)"
  by (simp_all add: register_service_once_def heartbeat_service_once_def)

lemma sends_sel [simp]:
  "c_client (sends call c) = c_client c" "c_instance_id (sends call c) = c_instance_id c"
  "c_service_address (sends call c) = c_service_address c" "c_healthy (sends call c) = c_healthy c"
  "c_heartbeat_failures (sends call c) = c_heartbeat_failures c"
  "c_rereg_attempts (sends call c) = c_rereg_attempts c" "c_rereg_failures (sends call c) = c_rereg_failures c"
  "c_recoveries (sends call c) = c_recoveries c" "c_sent (sends call c) = c_sent c @ [call]"
  "enabled (sends call c) = enabled c"
  by (simp_all add: sends_def enabled_def)

lemma supervisor_step_invariant:
  assumes "c_rereg_attempts (s_coord s) = c_rereg_failures (s_coord s) + c_recoveries (s_coord s) \<and>
    c_heartbeat_failures (s_coord s) = c_recoveries (s_coord s) + (if s_needs_registration s then 1 else 0) \<and>
    (s_needs_registration s \<longrightarrow> \<not> c_healthy (s_coord s))"
  shows "let s' = supervisor_step s ev in
    c_rereg_attempts (s_coord s') = c_rereg_failures (s_coord s') + c_recoveries (s_coord s') \<and>
    c_heartbeat_failures (s_coord s') = c_recoveries (s_coord s') + (if s_needs_registration s' then 1 else 0) \<and>
    (s_needs_registration s' \<longrightarrow> \<not> c_healthy (s_coord s'))"
  using assms
  by (cases ev) (auto simp: supervisor_tick_def Let_def case_prod_beta split: sum.splits)

text \<open>
  The supervisor is consistent. From any start and through any sequence of shutdown
  messages, heartbeats and node behaviours (also across the wrap-around of the counters): every
  re-registration attempt is counted once, as a failure or as a recovery; every recovery
  follows a failed heartbeat; and while the service waits to re-register it is reported
  unhealthy, so a lost registration is never reported as healthy. It retries every two seconds
  then, and sends a heartbeat every ten otherwise, a third of the registration's lifetime.
\<close>

theorem supervisor_consistent:
  "case maintain_service_registration shutdown (fresh_coordinator cl me addr) evs of (s, delay) \<Rightarrow>
    c_rereg_attempts (s_coord s) = c_rereg_failures (s_coord s) + c_recoveries (s_coord s) \<and>
    c_heartbeat_failures (s_coord s) = c_recoveries (s_coord s) + (if s_needs_registration s then 1 else 0) \<and>
    \<not> (s_needs_registration s \<and> c_healthy (s_coord s)) \<and>
    delay = (if s_needs_registration s then 2000 else 10000)"
proof -
  let ?P = "\<lambda>s. c_rereg_attempts (s_coord s) = c_rereg_failures (s_coord s) + c_recoveries (s_coord s) \<and>
    c_heartbeat_failures (s_coord s) = c_recoveries (s_coord s) + (if s_needs_registration s then 1 else 0) \<and>
    (s_needs_registration s \<longrightarrow> \<not> c_healthy (s_coord s))"
  have "?P (foldl supervisor_step s0 evs)" if "?P s0" for s0
    using that
  proof (induction evs arbitrary: s0)
    case (Cons ev evs)
    from supervisor_step_invariant [OF Cons.prems, of ev] have "?P (supervisor_step s0 ev)"
      unfolding Let_def .
    then show ?case unfolding foldl_Cons by (rule Cons.IH)
  next
    case Nil
    then show ?case unfolding foldl_Nil .
  qed
  moreover have "?P (supervisor_start shutdown (fresh_coordinator cl me addr))"
    by (simp add: supervisor_start_def fresh_coordinator_def)
  ultimately show ?thesis
    by (auto simp: maintain_service_registration_def supervise_def Let_def supervisor_delay_def
        SERVICE_HEARTBEAT_INTERVAL_MS_def SERVICE_REREGISTRATION_RETRY_MS_def
        SERVICE_REGISTRATION_TTL_MS_def)
qed

definition registered_exactly :: "client \<Rightarrow> coordinator \<Rightarrow> bool" where
  "registered_exactly cl c \<longleftrightarrow> (\<exists>response inst i.
     cl_service_register cl SERVICE_NAME (c_instance_id c) (c_service_address c) 30000 = Returned response \<and>
     jpointer [''result'', ''output'', ''registered''] response = Some (JBool True) \<and>
     jpointer [''result'', ''output'', ''instance''] response = Some inst \<and>
     cl_service_instance cl inst = Inr i \<and> si_instance_id i = c_instance_id c \<and>
     si_address i = c_service_address c \<and> 0 < si_lease_expires_ms i)"

lemma as_bool_Some: "as_bool v = Some b \<longleftrightarrow> v = JBool b"
  by (cases v) auto

text \<open>
  Only the exact instance counts as registered. A configured \<open>register_service\<close> succeeds,
  and reports the service healthy, exactly when the node answered \<open>registered: true\<close> with an
  instance of this identifier at this address under a lease that has not expired; in every
  other case it returns an error and reports unhealthy. Beside the log of the calls, nothing else
  of the state changes.
\<close>

theorem register_exact:
  assumes "enabled c"
  defines "c' \<equiv> sends (SentRegister (c_instance_id c) (c_service_address c)) c"
  shows "if registered_exactly cl c then register_service cl c = (c'\<lparr>c_healthy := True\<rparr>, Inr ())
    else \<exists>e. register_service cl c = (c'\<lparr>c_healthy := False\<rparr>, Inl e)"
proof -
  have "snd (register_service_once cl c) = Inr () \<longleftrightarrow> registered_exactly cl c"
    using assms
    by (auto simp: register_service_once_def registered_exactly_def validate_service_instance_def
        bind_eq_Some_conv as_bool_Some SERVICE_REGISTRATION_TTL_MS_def bind_eq_None_conv
        split: call.splits option.splits sum.splits if_splits bool.splits)
  then show ?thesis
    using assms(1) once_sends(1) [of cl c]
    by (cases "register_service_once cl c"; cases "snd (register_service_once cl c)")
      (auto simp: register_service_def c'_def)
qed

lemma register_exact_witness:
  "\<exists>e. register_service down_client sample_coordinator =
     ((sends (SentRegister ''me'' ''addr'') sample_coordinator)\<lparr>c_healthy := False\<rparr>, Inl e)"
proof -
  have "enabled sample_coordinator" by code_simp
  moreover have "\<not> registered_exactly down_client sample_coordinator"
    by (simp add: registered_exactly_def down_client_def)
  ultimately show ?thesis using register_exact [of sample_coordinator down_client]
    by (simp add: sample_coordinator_def fresh_coordinator_def)
qed

text \<open>
  No silent local mode. A coordinator without a client only exists when no node is
  configured and local coordination is explicitly allowed; with a node configured, construction
  fails unless the secret and the address are not blank and the organization is a scope of 1 to
  128 bytes without blanks and control characters; what is used is the trimmed text.
\<close>

theorem coordinator_fail_closed:
  "case coordinator_new url secret org addr me allow_local of
     Inr c \<Rightarrow>
       (if enabled c then
          (\<exists>u s a. url = Some u \<and> secret = Some s \<and> addr = Some a \<and> trim s \<noteq> [] \<and> trim a \<noteq> [] \<and>
             trim org \<noteq> [] \<and> length (trim org) \<le> 128 \<and> \<not> has_whitespace (trim org) \<and>
             \<not> has_control (trim org) \<and> c_client c = Some (trim u, trim s, trim org) \<and>
             c_service_address c = trim a)
        else url = None \<and> allow_local) \<and> c_instance_id c = me \<and> \<not> c_healthy c
   | Inl e \<Rightarrow> if url = None then \<not> allow_local
       else trimmed secret = None \<or> trimmed addr = None \<or> trim org = [] \<or> 128 < length (trim org) \<or>
         has_whitespace (trim org) \<or> has_control (trim org)"
  by (auto simp: coordinator_new_def trimmed_def enabled_def fresh_coordinator_def Let_def
      split: option.splits if_splits)

end
