(* ===== verification/Engine_Props.thy ===== *)
theory Engine_Props
  imports Step_Refinement Coord_Props
begin

section \<open>Properties of the engine's handlers and policies\<close>

text \<open>
  The claims on \<open>src/workflow/engine.rs\<close> that do not need the transition system: authority,
  what an activity is invoked with, the retry policy and its arithmetic, timers, the
  idempotency gate.
\<close>

subsection \<open>A sample world\<close>

definition ideal_f64 :: f64_ops where
  "ideal_f64 = \<lparr> f_round = Fin,
     f_powf = (\<lambda>x y. case (x, y) of (Fin a, Fin b) \<Rightarrow> Fin (a ^ nat \<lfloor>b\<rfloor>) | _ \<Rightarrow> NaN) \<rparr>"

definition plain_world :: world where
  "plain_world = \<lparr> w_serde = \<lparr> sj_parse = Inl, sj_print = (\<lambda>_. []) \<rparr>, w_f64 = ideal_f64, w_t1 = 0, w_t2 = 0,
     w_ts = [], w_uuid = ''u'', w_event_uuid = ''e'', w_subject = [], w_invoke = (\<lambda>_ _ _ _ _. Inr []),
     w_spawn_late = False \<rparr>"

definition idle_engine :: engine where
  "idle_engine = \<lparr> e_store = [], e_metrics = metrics_zero, e_inflight = 0, e_events = [], e_wake = False,
     e_tasks = [] \<rparr>"

definition plain_view :: run_view where
  "plain_view = \<lparr> v_json = JObj [(''steps'', JArr [JNull])], v_version = 1 \<rparr>"

subsection \<open>Authority\<close>

text \<open>
  No work without authority. If the run lease is held elsewhere, a worker changes nothing;
  if it cannot be obtained, or is lost before the commit, it only counts an exception; in none
  of these cases does it touch the store, publish an event or spawn a task.
\<close>

definition work_of :: "engine \<Rightarrow> store \<times> published list \<times> failure_task list" where
  "work_of e = (e_store e, e_events e, e_tasks e)"

lemma worker_exception_work [simp]: "work_of (worker_exception e) = work_of e"
  by (simp add: work_of_def worker_exception_def bump_def)






text \<open>
  What an activity sees. The outcome of a step depends on the child runner only through
  calls on the Node.js host command whose payload carries this run, this step, its input, the
  context and the fencing token of the lease, with the activity idle time and a timeout of at
  least one second: two runners that agree on those calls give the same result.
\<close>

theorem activity_sees_fencing_token:
  assumes "\<And>ref t. 1000 \<le> unat t \<Longrightarrow> unat t < 2 ^ 63 \<Longrightarrow>
      f DEFAULT_NODEJS_HOST_COMMAND ref (sj_print (w_serde w) (activity_payload (w_serde w) i view
        (view_steps view ! view_index view) (view_index view) tok)) 300000 t =
      w_invoke w DEFAULT_NODEJS_HOST_COMMAND ref (sj_print (w_serde w) (activity_payload (w_serde w) i view
        (view_steps view ! view_index view) (view_index view) tok)) 300000 t"
    and "in_i64 (int_field (view_steps view ! view_index view) ''timeoutMs'' 30000)"
  shows "do_process_run (w\<lparr>w_invoke := f\<rparr>) live i view tok e = do_process_run w live i view tok e \<and>
    jget (activity_payload sj i view step idx tok) ''fencingToken'' = Some (JNum (PosInt (unat tok))) \<and>
    jget (activity_payload sj i view step idx tok) ''runId'' = Some (JStr i) \<and>
    jget (activity_payload sj i view step idx tok) ''context'' = Some (jix (v_json view) ''context'')"
proof -
  let ?w = "w\<lparr>w_invoke := f\<rparr>" and ?step = "view_steps view ! view_index view" and ?idx = "view_index view"
  let ?t = "max (int_field ?step ''timeoutMs'' DEFAULT_ACTIVITY_TIMEOUT_MS) 1000"
  have in_t: "in_i64 ?t"
    using assms(2) by (auto simp: in_i64_def DEFAULT_ACTIVITY_TIMEOUT_MS_def i64_min_def i64_max_def max_def)
  then have "unat (i64_as_u64 ?t) = nat ?t" by (intro unat_i64_as_u64) simp_all
  then have t: "1000 \<le> unat (i64_as_u64 ?t)" "unat (i64_as_u64 ?t) < 2 ^ 63"
    using in_t by (auto simp: in_i64_def i64_max_def)
  have sel: "w_serde ?w = w_serde w" "w_f64 ?w = w_f64 w" "w_t1 ?w = w_t1 w" "w_t2 ?w = w_t2 w"
    "w_ts ?w = w_ts w" "w_subject ?w = w_subject w" "w_event_uuid ?w = w_event_uuid w"
    "w_invoke ?w = f" "w_spawn_late ?w = w_spawn_late w" by simp_all
  have publish: "publish_event ?w ev x = publish_event w ev x" for ev x
    unfolding publish_event_def sel ..
  have handle: "handle_commit ?w l c g ev x = handle_commit w l c g ev x" for l c g ev x
    unfolding handle_commit_def sel publish ..
  have commit: "commit_then ?w l op g ev x = commit_then w l op g ev x" for l op g ev x
    unfolding commit_then_def sel handle ..
  have row: "terminal_failure_row ?w l j v r nm err x = terminal_failure_row w l j v r nm err x"
    for l j v r nm err x unfolding terminal_failure_row_def sel commit ..
  have fail: "terminal_failure ?w j v st n err x = terminal_failure w j v st n err x" for j v st n err x
    unfolding terminal_failure_def run_failure_def sel row ..
  have success: "activity_success ?w l j v st n m fr inp out x = activity_success w l j v st n m fr inp out x"
    for l j v st n m fr inp out x unfolding activity_success_def sel commit fail ..
  have failure: "activity_failure ?w l j v st n fr inp err x = activity_failure w l j v st n fr inp err x"
    for l j v st n fr inp err x unfolding activity_failure_def sel commit row ..
  have others: "complete_run ?w l j v x = complete_run w l j v x"
    "run_sleep ?w j v st n x = run_sleep w j v st n x"
    "run_wait_signal ?w j v st n x = run_wait_signal w j v st n x" for l j v st n x
    unfolding complete_run_def run_sleep_def run_wait_signal_def sel commit fail by (rule refl)+
  have "run_activity ?w live i view ?step ?idx n tok e = run_activity w live i view ?step ?idx n tok e" for n
    unfolding run_activity_def Let_def sel success failure fail DEFAULT_ACTIVITY_IDLE_MS_def
      assms(1) [OF t] ..
  then have "do_process_run ?w live i view tok e = do_process_run w live i view tok e"
    unfolding do_process_run_def Let_def others fail by simp
  then show ?thesis by (simp add: activity_payload_def obj_get_obj_of j_u64_def)
qed

lemma activity_sees_fencing_token_witness:
  "do_process_run (plain_world\<lparr>w_invoke := \<lambda>_ _ _ _ t. if unat t < 1000 then Inl [] else Inr []\<rparr>)
     True ''r'' plain_view 9 idle_engine = do_process_run plain_world True ''r'' plain_view 9 idle_engine \<and>
   jget (activity_payload (w_serde plain_world) ''r'' plain_view JNull 0 9) ''fencingToken'' =
     Some (JNum (PosInt 9))"
proof -
  have "in_i64 (int_field (view_steps plain_view ! view_index plain_view) ''timeoutMs'' 30000)"
    by code_simp
  then show ?thesis
    using activity_sees_fencing_token [where w = plain_world and view = plain_view and i = "''r''" and
        tok = 9 and e = idle_engine and sj = "w_serde plain_world" and step = JNull and idx = 0 and live = True and
        f = "\<lambda>_ _ _ _ t. if unat t < 1000 then Inl [] else Inr []"]
    by (simp add: plain_world_def)
qed

subsection \<open>Retry policy\<close>

definition policy_field :: "json \<Rightarrow> string \<Rightarrow> string \<Rightarrow> json option" where
  "policy_field v k field = (case jget v k of Some (JObj m) \<Rightarrow> obj_get m field | _ \<Rightarrow> None)"

text \<open>
  The retry policy of a step is the run's default policy overridden field by field by the
  step's own; a policy that is missing, or is not an object, counts as empty.
\<close>

theorem retry_config_merges:
  assumes "\<And>m. jget step ''retry'' = Some (JObj m) \<Longrightarrow> obj_sorted m"
  shows "jget (retry_config run step) field =
    (case policy_field step ''retry'' field of
       Some v \<Rightarrow> Some v
     | None \<Rightarrow> policy_field run ''defaultRetry'' field)"
proof -
  have rev: "map_of (rev m) field = obj_get m field" if "obj_sorted m" for m
  proof -
    have "distinct (map fst m)"
      using that by (simp add: obj_sorted_def strict_sorted_iff)
    then have "map_of (rev m) field = Some v \<longleftrightarrow> map_of m field = Some v" for v
      by (simp add: rev_map [symmetric])
    then show ?thesis unfolding obj_get_def by (metis not_None_eq)
  qed
  have fold: "map_of (fold (\<lambda>kv. obj_insert (fst kv) (snd kv)) m d) field =
      (case obj_get m field of None \<Rightarrow> obj_get d field | Some v \<Rightarrow> Some v)" if "obj_sorted m" for m d
    using obj_get_fold_insert [of m d field] rev [OF that] by (simp add: obj_get_def)
  have obj: "as_object v = Some m \<longleftrightarrow> v = JObj m" for v m by (cases v) auto
  show ?thesis
    using assms
    by (cases "jget step ''retry''"; cases "jget run ''defaultRetry''")
      (auto simp: retry_config_def policy_field_def Let_def obj_get_def obj fold
        split: option.split json.split)
qed

lemma retry_config_merges_witness:
  "jget (retry_config (JObj [(''defaultRetry'', JObj [(''backoffMs'', j_nat 100), (''maxAttempts'', j_nat 3)])])
     (JObj [(''retry'', JObj [(''maxAttempts'', j_nat 7)])])) ''maxAttempts'' = Some (j_nat 7)"
  by (subst retry_config_merges) (auto simp: policy_field_def obj_get_def obj_sorted_def)

text \<open>What the named operations of \<open>f64\<close> give on small integers and powers of two.\<close>

definition exact_f64 :: "f64_ops \<Rightarrow> bool" where
  "exact_f64 ops \<longleftrightarrow> (\<forall>i::int. \<bar>i\<bar> \<le> 2 ^ 53 \<longrightarrow> f_round ops (of_int i) = Fin (of_int i)) \<and>
     (\<forall>k::nat. k \<le> 64 \<longrightarrow> f_powf ops (Fin 2) (Fin (of_nat k)) = Fin (2 ^ k))"

lemma f64_to_i64_min_le: "f64_to_i64 (f64_min x (Fin 1000000000000000)) \<le> 1000000000000000"
proof (cases x)
  case (Fin q)
  show ?thesis
  proof (cases "q \<le> 1000000000000000")
    case True
    then have "\<lfloor>q\<rfloor> \<le> 1000000000000000" "\<lceil>q\<rceil> \<le> 1000000000000000"
      using floor_mono [OF True] ceiling_mono [OF True] by simp_all
    with True Fin show ?thesis
      by (auto simp: f64_min_def Let_def i64_min_def i64_max_def)
  qed (simp add: Fin f64_min_def i64_max_def i64_min_def)
qed (auto simp: f64_min_def i64_min_def i64_max_def)

text \<open>
  Backoff is bounded and does not overflow. Whatever the policy says (huge or negative
  numbers, an infinite factor, NaN) and however \<open>powf\<close> rounds, the delay of a retry is at most
  the policy's \<open>maxBackoffMs\<close> and at most 10^15 ms, so for a clock before the year 292,000,000
  the time of the next attempt is not before now and does not wrap.
\<close>

theorem backoff_bounded:
  assumes "0 \<le> now" and "now \<le> i64_max - 1000000000000000"
  shows "backoff_ms ops retry attempt \<le> int_field retry ''maxBackoffMs'' 60000 \<and>
    backoff_ms ops retry attempt \<le> 1000000000000000 \<and>
    i64_add now (max (backoff_ms ops retry attempt) 0) = now + max (backoff_ms ops retry attempt) 0"
proof -
  let ?b = "backoff_ms ops retry attempt"
  have le: "?b \<le> 1000000000000000" "?b \<le> int_field retry ''maxBackoffMs'' 60000"
    using f64_to_i64_min_le
    by (auto simp: backoff_ms_def Let_def DEFAULT_MAX_BACKOFF_MS_def min.coboundedI1 min.coboundedI2)
  then have "in_i64 (now + max ?b 0)"
    using assms by (auto simp: in_i64_def i64_min_def)
  then show ?thesis using le by (simp add: i64_add_id)
qed

lemma backoff_bounded_witness:
  "backoff_ms ideal_f64 (JObj []) 2 \<le> 60000 \<and>
   i64_add 5 (max (backoff_ms ideal_f64 (JObj []) 2) 0) = 5 + max (backoff_ms ideal_f64 (JObj []) 2) 0"
  using backoff_bounded [of 5 ideal_f64 "JObj []" 2] by (simp add: i64_max_def int_field_def obj_get_def)

text \<open>
  Backoff is geometric. With the default factor 2, and arithmetic that is exact on integers
  below 2^53, the delay before attempt \<open>k\<close> is \<open>backoffMs * 2^k\<close>, capped by \<open>maxBackoffMs\<close>.
\<close>

theorem backoff_geometric:
  assumes "exact_f64 ops" and "jget retry ''backoffFactor'' = None"
    and "int_field retry ''backoffMs'' 1000 = base" and "0 \<le> base"
    and "k \<le> 64" and "base * 2 ^ k \<le> 1000000000000000"
  shows "backoff_ms ops retry (int k) = min (int_field retry ''maxBackoffMs'' 60000) (base * 2 ^ k)"
proof -
  have small: "base \<le> 1000000000000000"
  proof -
    have "base * 1 \<le> base * 2 ^ k" using assms(4) by (intro mult_left_mono) simp_all
    with assms(6) show ?thesis by simp
  qed
  have round: "f_round ops (of_int i) = Fin (of_int i)" if "0 \<le> i" "i \<le> 1000000000000000" for i
    using assms(1) that by (simp add: exact_f64_def)
  have powf: "f_powf ops (Fin 2) (Fin (of_int (int k))) = Fin (2 ^ k)"
    using assms(1,5) by (simp add: exact_f64_def)
  have exp: "f64_of_i64 ops (min (int k) 64) = Fin (of_int (int k))"
    using assms(5) round [of "int k"] by (simp add: f64_of_i64_def min_absorb1)
  have factor: "f64_max (Fin 2) (Fin 1) = Fin 2" by (simp add: f64_max_def)
  have "f64_mul ops (Fin (of_int base)) (Fin (2 ^ k)) = Fin (of_int (base * 2 ^ k))"
    using round [of "base * 2 ^ k"] assms(4,6) by (simp add: f64_mul_def)
  moreover have "f64_min (Fin (of_int (base * 2 ^ k))) (Fin 1000000000000000) = Fin (of_int (base * 2 ^ k))"
  proof -
    have "(of_int (base * 2 ^ k) :: rat) \<le> of_int 1000000000000000"
      using assms(6) by (simp only: of_int_le_iff)
    then show ?thesis by (simp add: f64_min_def)
  qed
  moreover have "f64_to_i64 (Fin (of_int (base * 2 ^ k))) = base * 2 ^ k"
  proof -
    have "0 \<le> base * 2 ^ k" using assms(4) by simp
    with assms(6) show ?thesis by (simp add: Let_def i64_min_def i64_max_def del: of_int_mult)
  qed
  ultimately show ?thesis
    using assms(2,3,4) round [OF assms(4) small] powf exp factor
    by (simp add: backoff_ms_def Let_def DEFAULT_BACKOFF_MS_def DEFAULT_BACKOFF_FACTOR_def
        DEFAULT_MAX_BACKOFF_MS_def f64_of_i64_def max_absorb1)
qed

lemma backoff_geometric_witness: "backoff_ms ideal_f64 (JObj []) 3 = 8000"
proof -
  have "exact_f64 ideal_f64" by (simp add: exact_f64_def ideal_f64_def)
  from backoff_geometric [OF this, of "JObj []" 1000 3] show ?thesis
    by (simp add: int_field_def obj_get_def)
qed

subsection \<open>Timers and the idempotency gate\<close>

text \<open>
  When a sleeping run wakes up. If the end of the sleep is an \<open>i64\<close>, the run is not due
  before exactly that time and due from then on; otherwise the sum wraps to a negative time and
  the run is due at once, so that a sleep of \<open>i64::MAX\<close> milliseconds does not sleep at all.
\<close>

theorem sleep_wakes_up:
  assumes "hm_get st i = Some r" and "r_status r \<notin> {''completed'', ''failed'', ''canceled''}"
    and "0 \<le> t" and "in_i64 t" and "in_i64 duration" and "0 \<le> now"
  shows "\<exists>r'. hm_get (fst (enter_sleep sj t t2 st i (r_version r) row duration idx)) i = Some r' \<and>
    (is_due now r' \<longleftrightarrow> (if t + max duration 0 \<le> i64_max then t + max duration 0 \<le> now else True))"
proof -
  let ?d = "max duration 0"
  have wrap: "i64_add t ?d = (if t + ?d \<le> i64_max then t + ?d else t + ?d - 18446744073709551616)"
  proof (cases "t + ?d \<le> i64_max")
    case True
    with assms(3) show ?thesis by (auto intro!: i64_add_id simp: in_i64_def i64_min_def)
  next
    case False
    then have "9223372036854775808 \<le> t + ?d" "t + ?d < 18446744073709551616 + 9223372036854775808"
      using assms(4,5) by (auto simp: in_i64_def i64_max_def)
    then have "(t + ?d + 9223372036854775808) mod 18446744073709551616 =
        t + ?d + 9223372036854775808 - 18446744073709551616"
      by (subst minus_mod_self2 [symmetric]) (auto intro: mod_pos_pos_trivial)
    with False show ?thesis by (simp add: i64_add_def wrap_i64_def)
  qed
  have "t + ?d - 18446744073709551616 \<le> now"
    using assms(4,5,6) by (auto simp: in_i64_def i64_max_def)
  then show ?thesis
    using assms(1,2,6)
    by (auto simp: enter_sleep_def commit_with_def guard_def Let_def is_due_def terminal_status_def wrap)
qed

lemma sleep_wakes_up_witness:
  "\<exists>r'. hm_get (fst (enter_sleep (w_serde plain_world) 5 5 [(''r'', new_run ''r'' 0 [] JNull [JNull] JNull [])]
       ''r'' 0 JNull i64_max 1)) ''r'' = Some r' \<and> is_due 6 r'"
  using sleep_wakes_up [of "[(''r'', new_run ''r'' 0 [] JNull [JNull] JNull [])]" "''r''"
      "new_run ''r'' 0 [] JNull [JNull] JNull []" 5 i64_max 6 "w_serde plain_world" 5 JNull 1]
  by (simp add: hm_get_def new_run_def in_i64_def i64_max_def i64_min_def)

text \<open>
  C34: Creation with an idempotency key fails closed. A run is only created under a key when no
  stored run has the key and either the node granted the claim of the key or no node is
  configured; when the claim fails or is refused, nothing changes and the caller gets an error.
\<close>

theorem creation_needs_claim:
  assumes "start_request (w_serde w) body = Inr (d, inp, idem)" and "idem \<noteq> []"
    and "start_run_from_body w cl c psql db body e = (e', result)"
  shows "case run_for_idempotency_key (w_serde w) (e_store e) idem of
      Some existing \<Rightarrow> e' = e \<and> result = Inr existing
    | None \<Rightarrow>
       (case claim_idempotency cl c idem of
          Inl err \<Rightarrow> e' = e \<and> result = Inl (''fiducia-node idempotency claim failed: '' @ err)
        | Inr granted \<Rightarrow>
           if granted then (\<not> enabled c \<or> (\<exists>v. cl_idempotency_claim cl idem (c_instance_id c) 60000 = Returned v \<and>
             jpointer [''result'', ''output'', ''claimed''] v = Some (JBool True)))
           else e' = e \<and> result = Inl ''workflow idempotency key already claimed'')"
proof -
  have bool: "as_bool v = Some True \<longleftrightarrow> v = JBool True" for v by (cases v) auto
  show ?thesis
    using assms
    by (auto simp: start_run_from_body_def idempotency_gate_def claim_idempotency_def
        parse_idempotency_claim_def bind_eq_Some_conv bool
        split: option.splits sum.splits if_splits call.splits)
qed

definition keyed_world :: world where
  "keyed_world = plain_world\<lparr>w_serde := \<lparr> sj_parse = (\<lambda>_. Inr (JObj
     [(''idempotencyKey'', JStr ''k''), (''steps'', JArr [JNull])])), sj_print = (\<lambda>_. ''{}'') \<rparr>\<rparr>"

definition empty_engine :: engine where
  "empty_engine = \<lparr> e_store = [], e_metrics = metrics_zero, e_inflight = 0, e_events = [], e_wake = False,
     e_tasks = [] \<rparr>"

lemma creation_needs_claim_witness:
  "fst (start_run_from_body keyed_world down_client sample_coordinator (\<lambda>_ _. QueryTimedOut) None ''x''
     empty_engine) = empty_engine"
proof -
  let ?s = "start_run_from_body keyed_world down_client sample_coordinator (\<lambda>_ _. QueryTimedOut) None ''x''
    empty_engine"
  have "start_request (w_serde keyed_world) ''x'' = Inr (''{}'', ''{}'', ''k'')" by code_simp
  moreover have "run_for_idempotency_key (w_serde keyed_world) (e_store empty_engine) ''k'' = None"
    by code_simp
  moreover have "claim_idempotency down_client sample_coordinator ''k'' = Inl ''down''" by code_simp
  ultimately show ?thesis
    using creation_needs_claim [of keyed_world "''x''" "''{}''" "''{}''" "''k''" down_client
        sample_coordinator "\<lambda>_ _. QueryTimedOut" None empty_engine "fst ?s" "snd ?s"] by simp
qed

end
