(* ===== verification/Creation.thy ===== *)
theory Creation
  imports Workflow_Props Engine_Props
begin

section \<open>Creating runs on several replicas\<close>

text \<open>
  \<open>start_run_from_body\<close> of \<open>src/workflow/engine.rs\<close> awaits the node and the database between its
  accesses to the store, and the stores of two replicas are separate maps. Here any number of
  replicas, each a system of the theory Workflow, serve creations that interleave at every
  \<open>await\<close>; the node grants a key that it has not granted before or whose claim has expired.
\<close>

text \<open>
  How far a creation has come: the lookup of its key found nothing; the node granted the key (or
  was not asked, without a key or a node); the definition is resolved and the second lookup
  found nothing.
\<close>

datatype stage = Asked | Granted | Resolved "json list" json

record creation =
  cr_replica :: nat
  cr_key :: string
  cr_stage :: stage

record cluster =
  cu_replica :: "nat \<Rightarrow> sys"
  cu_claimed :: "string set"
  cu_creations :: "creation list"

abbreviation replica_store :: "cluster \<Rightarrow> nat \<Rightarrow> store" where
  "replica_store s k \<equiv> y_store (cu_replica s k)"

text \<open>
  \<open>drop\<close> is every way a creation ends without a run: an early return, an error, a client that
  went away. \<open>run\<close> is any other operation of a replica.
\<close>

inductive cl_step :: "u64 \<Rightarrow> (nat \<Rightarrow> coordinator) \<Rightarrow> cluster \<Rightarrow> cluster \<Rightarrow> bool"
  for M :: u64 and cs :: "nat \<Rightarrow> coordinator"
where
  ask: "key = [] \<or> run_for_idempotency_key sj (replica_store s k) key = None \<Longrightarrow>
    cl_step M cs s (s\<lparr>cu_creations := \<lparr> cr_replica = k, cr_key = key, cr_stage = Asked \<rparr> # cu_creations s\<rparr>)"
| pass: "cu_creations s = cs1 @ \<lparr> cr_replica = k, cr_key = [], cr_stage = Asked \<rparr> # cs2 \<Longrightarrow>
    cl_step M cs s (s\<lparr>cu_creations := cs1 @ \<lparr> cr_replica = k, cr_key = [], cr_stage = Granted \<rparr> # cs2\<rparr>)"
| grant: "cu_creations s = cs1 @ \<lparr> cr_replica = k, cr_key = key, cr_stage = Asked \<rparr> # cs2 \<Longrightarrow> key \<noteq> [] \<Longrightarrow>
    claim_idempotency cl (cs k) key = Inr True \<Longrightarrow> (enabled (cs k) \<Longrightarrow> key \<notin> cu_claimed s) \<Longrightarrow>
    cl_step M cs s (s\<lparr>cu_creations := cs1 @ \<lparr> cr_replica = k, cr_key = key, cr_stage = Granted \<rparr> # cs2,
      cu_claimed := (if enabled (cs k) then insert key (cu_claimed s) else cu_claimed s)\<rparr>)"
| resolve: "cu_creations s = cs1 @ \<lparr> cr_replica = k, cr_key = key, cr_stage = Granted \<rparr> # cs2 \<Longrightarrow>
    create_run_check sj psql db (replica_store s k) d key = Inr (Inr (steps, retry)) \<Longrightarrow>
    cl_step M cs s (s\<lparr>cu_creations := cs1 @ \<lparr> cr_replica = k, cr_key = key,
      cr_stage = Resolved steps retry \<rparr> # cs2\<rparr>)"
| insert: "cu_creations s = cs1 @ \<lparr> cr_replica = k, cr_key = key, cr_stage = Resolved steps retry \<rparr> # cs2 \<Longrightarrow>
    int (length steps) \<le> i64_max \<Longrightarrow> uuid \<notin> set (y_ids (cu_replica s k)) \<Longrightarrow>
    e_store e' = fst (create_run_insert sj (replica_store s k) (new_run uuid now d inp steps retry key)) \<Longrightarrow>
    e_inflight e' = e_inflight (y_engine (cu_replica s k)) \<Longrightarrow>
    e_tasks e' = e_tasks (y_engine (cu_replica s k)) \<Longrightarrow>
    cl_step M cs s (s\<lparr>cu_creations := cs1 @ cs2, cu_replica := (cu_replica s)(k := (cu_replica s k)
      \<lparr>y_engine := e', y_ids := uuid # y_ids (cu_replica s k)\<rparr>)\<rparr>)"
| drop: "cu_creations s = cs1 @ c # cs2 \<Longrightarrow> cl_step M cs s (s\<lparr>cu_creations := cs1 @ cs2\<rparr>)"
| run: "wf_step M (cu_replica s k) y \<Longrightarrow> y_ids y = y_ids (cu_replica s k) \<Longrightarrow>
    cl_step M cs s (s\<lparr>cu_replica := (cu_replica s)(k := y)\<rparr>)"

text \<open>\<open>cl_reach M cs X n s\<close>: \<open>s\<close> is reached in \<open>n\<close> steps, while the claims of the keys \<open>X\<close> expired.\<close>

inductive cl_reach :: "u64 \<Rightarrow> (nat \<Rightarrow> coordinator) \<Rightarrow> string set \<Rightarrow> nat \<Rightarrow> cluster \<Rightarrow> bool"
  for M :: u64 and cs :: "nat \<Rightarrow> coordinator"
where
  start: "(\<And>k. initial (cu_replica s k)) \<Longrightarrow> cu_claimed s = {} \<Longrightarrow> cu_creations s = [] \<Longrightarrow>
    cl_reach M cs {} 0 s"
| step: "cl_reach M cs X n s \<Longrightarrow> cl_step M cs s s' \<Longrightarrow> cl_reach M cs X (Suc n) s'"
| expire: "cl_reach M cs X n s \<Longrightarrow>
    cl_reach M cs (Set.insert x X) (Suc n) (s\<lparr>cu_claimed := cu_claimed s - {x}\<rparr>)"

subsection \<open>The creation of the source as a path\<close>

text \<open>
  An uninterrupted \<open>start_run_from_body\<close> that stores a run is the four steps in a row.
\<close>

lemma gate_passes:
  "idempotency_gate sj cl c st key = None \<longleftrightarrow>
     key = [] \<or> run_for_idempotency_key sj st key = None \<and> claim_idempotency cl c key = Inr True"
  by (auto simp: idempotency_gate_def split: option.splits sum.splits if_splits)

lemma create_run_stores:
  assumes "create_run sj psql db uuid now st d inp key = (st', res)" and "st' \<noteq> st"
  shows "\<exists>steps retry. create_run_check sj psql db st d key = Inr (Inr (steps, retry)) \<and>
    st' = fst (create_run_insert sj st (new_run uuid now d (parse_or_null sj inp) steps retry key))"
  using assms by (auto simp: create_run_def Let_def case_prod_beta split: sum.splits)

lemma start_run_stores:
  assumes "start_run_from_body w cl c psql db body e = (e', res)" and "e_store e' \<noteq> e_store e"
    and "start_request (w_serde w) body = Inr (d, inp, key)"
  shows "(key = [] \<or> run_for_idempotency_key (w_serde w) (e_store e) key = None \<and>
      claim_idempotency cl c key = Inr True) \<and>
    (\<exists>steps retry. create_run_check (w_serde w) psql db (e_store e) d key = Inr (Inr (steps, retry)) \<and>
      e_store e' = fst (create_run_insert (w_serde w) (e_store e)
        (new_run (w_uuid w) (w_t1 w) d (parse_or_null (w_serde w) inp) steps retry key))) \<and>
    e_inflight e' = e_inflight e \<and> e_tasks e' = e_tasks e"
proof (cases "idempotency_gate (w_serde w) cl c (e_store e) key")
  case None
  obtain st' r where c: "create_run (w_serde w) psql db (w_uuid w) (w_t1 w) (e_store e) d inp key = (st', r)"
    by fastforce
  have e': "e_store e' = st' \<and> e_inflight e' = e_inflight e \<and> e_tasks e' = e_tasks e"
  proof (cases r)
    case (Inl err)
    with assms(1,3) None c show ?thesis by (auto simp: start_run_from_body_def)
  next
    case (Inr out)
    with assms(1,3) None c show ?thesis by (auto simp: start_run_from_body_def)
  qed
  with c assms(2) create_run_stores [OF c] None show ?thesis unfolding gate_passes by simp
next
  case (Some r)
  with assms show ?thesis by (simp add: start_run_from_body_def)
qed

lemma four_steps: "R a b \<Longrightarrow> R b c \<Longrightarrow> R c d \<Longrightarrow> R d e \<Longrightarrow> (R ^^ 4) a e"
  by (auto simp: numeral_eq_Suc)

theorem start_run_is_creation:
  assumes "start_run_from_body w cl (cs k) psql db body (y_engine (cu_replica s k)) = (e', res)"
    and "e_store e' \<noteq> replica_store s k" and "w_uuid w \<notin> set (y_ids (cu_replica s k))"
    and "start_request (w_serde w) body = Inr (d, inp, key)"
    and "enabled (cs k) \<Longrightarrow> key \<notin> cu_claimed s"
    and "create_run_check (w_serde w) psql db (replica_store s k) d key = Inr (Inr (steps, retry))"
    and "int (length steps) \<le> i64_max"
  shows "\<exists>s'. (cl_step M cs ^^ 4) s s' \<and> cu_replica s' = (cu_replica s)(k := (cu_replica s k)
      \<lparr>y_engine := e', y_ids := w_uuid w # y_ids (cu_replica s k)\<rparr>) \<and> cu_creations s' = cu_creations s"
proof -
  let ?c = "\<lambda>g. \<lparr> cr_replica = k, cr_key = key, cr_stage = g \<rparr>"
  let ?claimed = "if key \<noteq> [] \<and> enabled (cs k) then Set.insert key (cu_claimed s) else cu_claimed s"
  let ?s1 = "s\<lparr>cu_creations := ?c Asked # cu_creations s\<rparr>"
  let ?s2 = "?s1\<lparr>cu_creations := [] @ ?c Granted # cu_creations s, cu_claimed := ?claimed\<rparr>"
  let ?s3 = "?s2\<lparr>cu_creations := [] @ ?c (Resolved steps retry) # cu_creations s\<rparr>"
  let ?s4 = "?s3\<lparr>cu_creations := [] @ cu_creations s, cu_replica := (cu_replica s)(k := (cu_replica s k)
      \<lparr>y_engine := e', y_ids := w_uuid w # y_ids (cu_replica s k)\<rparr>)\<rparr>"
  from start_run_stores [OF assms(1,2,4)] assms(6)
  have key: "key = [] \<or> run_for_idempotency_key (w_serde w) (replica_store s k) key = None"
    "key \<noteq> [] \<Longrightarrow> claim_idempotency cl (cs k) key = Inr True"
    and e': "e_store e' = fst (create_run_insert (w_serde w) (replica_store s k)
      (new_run (w_uuid w) (w_t1 w) d (parse_or_null (w_serde w) inp) steps retry key))"
    "e_inflight e' = e_inflight (y_engine (cu_replica s k))"
    "e_tasks e' = e_tasks (y_engine (cu_replica s k))" by auto
  have "cl_step M cs s ?s1" using key(1) by (rule cl_step.ask)
  moreover have "cl_step M cs ?s1 ?s2"
  proof (cases "key = []")
    case True
    then show ?thesis using cl_step.pass [of ?s1 "[]" k "cu_creations s" M cs] by simp
  next
    case False
    then show ?thesis
      using cl_step.grant [of ?s1 "[]" k key "cu_creations s" cl cs M] key(2) assms(5)
      by (cases "enabled (cs k)") simp_all
  qed
  moreover have "cl_step M cs ?s2 ?s3"
    using cl_step.resolve [of ?s2 "[]" k key "cu_creations s", OF _, of "w_serde w" psql db d steps retry] assms(6) by simp
  moreover have "cl_step M cs ?s3 ?s4"
    using cl_step.insert [of ?s3 "[]" k key steps retry "cu_creations s" "w_uuid w" e' "w_serde w"] assms(3,7) e' by simp
  ultimately have "(cl_step M cs ^^ 4) s ?s4" by (rule four_steps)
  then show ?thesis by (intro exI [of _ ?s4]) simp
qed

subsection \<open>One run for one key\<close>

definition key_at :: "cluster \<Rightarrow> nat \<Rightarrow> string \<Rightarrow> string option" where
  "key_at s k j = Option.bind (hm_get (replica_store s k) j) r_idempotency_key"

text \<open>The creations that have been granted the key \<open>x\<close> and have not ended.\<close>

definition holders :: "string \<Rightarrow> cluster \<Rightarrow> creation list" where
  "holders x s = filter (\<lambda>c. cr_key c = x \<and> cr_stage c \<noteq> Asked) (cu_creations s)"

definition unused :: "string \<Rightarrow> cluster \<Rightarrow> bool" where
  "unused x s \<longleftrightarrow> (\<forall>k j. key_at s k j \<noteq> Some x)"

definition sole :: "string \<Rightarrow> cluster \<Rightarrow> bool" where
  "sole x s \<longleftrightarrow> (\<forall>k j k' j'. key_at s k j = Some x \<longrightarrow> key_at s k' j' = Some x \<longrightarrow> k = k' \<and> j = j')"

definition once :: "string \<Rightarrow> cluster \<Rightarrow> bool" where
  "once x s \<longleftrightarrow> (x \<notin> cu_claimed s \<longrightarrow> holders x s = [] \<and> unused x s) \<and>
     (holders x s \<noteq> [] \<longrightarrow> unused x s \<and> length (holders x s) = 1) \<and> sole x s"

definition steps_present :: "cluster \<Rightarrow> bool" where
  "steps_present s \<longleftrightarrow> (\<forall>c \<in> set (cu_creations s). \<forall>steps retry.
     cr_stage c = Resolved steps retry \<longrightarrow> steps \<noteq> [])"

definition replicas_ok :: "u64 \<Rightarrow> nat \<Rightarrow> cluster \<Rightarrow> bool" where
  "replicas_ok M n s \<longleftrightarrow> (\<forall>k. \<exists>m \<le> n. reach M m (cu_replica s k)) \<and> steps_present s"

lemma cluster_sels [simp]:
  "key_at (s\<lparr>cu_creations := c\<rparr>) = key_at s" "key_at (s\<lparr>cu_claimed := d\<rparr>) = key_at s"
  "unused x (s\<lparr>cu_creations := c\<rparr>) = unused x s" "unused x (s\<lparr>cu_claimed := d\<rparr>) = unused x s"
  "sole x (s\<lparr>cu_creations := c\<rparr>) = sole x s" "sole x (s\<lparr>cu_claimed := d\<rparr>) = sole x s"
  "holders x (s\<lparr>cu_replica := r\<rparr>) = holders x s" "holders x (s\<lparr>cu_claimed := d\<rparr>) = holders x s"
  by (simp_all add: key_at_def unused_def sole_def holders_def fun_eq_iff)

text \<open>A step of a replica that creates no run adds no key.\<close>

lemma run_adds_no_key:
  assumes "sys_inv M n y" and "wf_step M y y'" and "y_ids y' = y_ids y"
    and "hm_get (y_store y') j = Some r'"
  shows "\<exists>r. hm_get (y_store y) j = Some r \<and> r_idempotency_key r = r_idempotency_key r'"
proof (cases "hm_get (y_store y) j")
  case None
  from step_change [OF assms(1,2), where j = j] step_created [OF assms(1,2) None assms(4)] assms(3,4) None
  show ?thesis by (auto simp: run_change_from_None)
next
  case (Some r)
  with step_change [OF assms(1,2), where j = j] assms(4) show ?thesis
    by (auto simp: run_change_from_Some evolves_in_def same_identity_def)
qed

lemma replicas_ok_update:
  assumes "replicas_ok M n s" and "wf_step M (cu_replica s k) y"
    and "cu_replica s' = (cu_replica s)(k := y)" and "steps_present s'"
  shows "replicas_ok M (Suc n) s'"
  unfolding replicas_ok_def
proof (intro conjI allI)
  fix k'
  from assms(1) obtain m m' where "m \<le> n" "reach M m (cu_replica s k)" "m' \<le> n" "reach M m' (cu_replica s k')"
    unfolding replicas_ok_def by metis
  with reach.step [OF _ assms(2)] show "\<exists>m \<le> Suc n. reach M m (cu_replica s' k')"
    unfolding assms(3) by (cases "k' = k") (auto intro: le_SucI)
qed (rule assms(4))

lemma cl_step_replicas:
  assumes "cl_step M cs s s'" and "replicas_ok M n s"
  shows "replicas_ok M (Suc n) s'"
  using assms
proof (induction rule: cl_step.induct)
  case (insert s cs1 k key steps retry cs2 uuid e' sj now d inp)
  then have "steps \<noteq> []" by (fastforce simp: replicas_ok_def steps_present_def)
  from wf_step_in.create [OF this insert.hyps(2,3), of e' sj now d inp retry key] insert.hyps(4-6)
  have "wf_step M (cu_replica s k) ((cu_replica s k)\<lparr>y_engine := e', y_ids := uuid # y_ids (cu_replica s k)\<rparr>)"
    by simp
  then show ?case
    by (rule replicas_ok_update [OF insert.prems])
      (use insert.hyps(1) insert.prems in \<open>simp_all add: replicas_ok_def steps_present_def\<close>)
next
  case (run s k y)
  then show ?case
    by (intro replicas_ok_update [OF run.prems run.hyps(1)])
      (simp_all add: replicas_ok_def steps_present_def)
qed (auto simp: replicas_ok_def steps_present_def create_run_check_def le_Suc_eq
      split: sum.splits if_splits option.splits)

lemma cl_step_once:
  assumes "cl_step M cs s s'" and "replicas_ok M n s" and "n < 2 ^ 64" and "once x s" and "x \<noteq> []"
    and "\<And>k. enabled (cs k)"
  shows "once x s'"
  using assms
proof (induction rule: cl_step.induct)
  case (ask key sj s k)
  then show ?case by (simp add: once_def holders_def)
next
  case (pass s cs1 k cs2)
  then show ?case by (simp add: once_def holders_def)
next
  case (grant s cs1 k key cs2 cl)
  then show ?case by (auto simp: once_def holders_def)
next
  case (resolve s cs1 k key cs2 sj psql db d steps retry)
  then show ?case by (auto simp: once_def holders_def)
next
  case (drop s cs1 c cs2)
  then show ?case by (auto simp: once_def holders_def split: if_splits)
next
  case (insert s cs1 k key steps retry cs2 uuid e' sj now d inp)
  let ?s' = "s\<lparr>cu_creations := cs1 @ cs2, cu_replica := (cu_replica s)(k := (cu_replica s k)
      \<lparr>y_engine := e', y_ids := uuid # y_ids (cu_replica s k)\<rparr>)\<rparr>"
  have at: "key_at ?s' k' j = (if k' = k \<and> j = uuid then (if key = [] then None else Some key) else key_at s k' j)"
    for k' j
    using insert.hyps(4) by (simp add: key_at_def create_run_insert_def hm_get_put new_run_def)
  show ?case
  proof (cases "x = key")
    case True
    with insert.hyps(1) have "holders x s \<noteq> []" by (simp add: holders_def)
    with insert.prems(3) have "unused x s" "length (holders x s) = 1" "x \<in> cu_claimed s"
      by (auto simp: once_def)
    moreover from this(2) insert.hyps(1) True have "holders x ?s' = []" by (simp add: holders_def)
    ultimately show ?thesis using True insert.prems(4) at
      by (auto simp: once_def sole_def unused_def split: if_splits)
  next
    case False
    with insert.hyps(1) have "holders x ?s' = holders x s" by (simp add: holders_def)
    moreover have "key_at ?s' k' j = Some x \<Longrightarrow> key_at s k' j = Some x" for k' j
      using at False by (auto split: if_splits)
    then have "unused x s \<Longrightarrow> unused x ?s'" "sole x s \<Longrightarrow> sole x ?s'"
      unfolding unused_def sole_def by blast+
    ultimately show ?thesis using insert.prems(3) unfolding once_def by simp
  qed
next
  case (run s k y)
  let ?s' = "s\<lparr>cu_replica := (cu_replica s)(k := y)\<rparr>"
  from run.prems(1,2) obtain m where "m \<le> n" "reach M m (cu_replica s k)" by (auto simp: replicas_ok_def)
  with run.prems(2) have "sys_inv M m (cu_replica s k)" by (intro reach_inv) simp_all
  then have "key_at ?s' k' j = Some x \<Longrightarrow> key_at s k' j = Some x" for k' j
    using run_adds_no_key [OF _ run.hyps, of m j]
    by (cases "k' = k") (auto simp: key_at_def bind_eq_Some_conv)
  then have "unused x s \<Longrightarrow> unused x ?s'" "sole x s \<Longrightarrow> sole x ?s'"
    unfolding unused_def sole_def by blast+
  then show ?case using run.prems(3) unfolding once_def by simp
qed

lemma cl_reach_once:
  assumes "cl_reach M cs X n s" and "n < 2 ^ 64" and "\<And>k. enabled (cs k)"
  shows "replicas_ok M n s \<and> (\<forall>x. x \<noteq> [] \<longrightarrow> x \<notin> X \<longrightarrow> once x s)"
  using assms
proof (induction rule: cl_reach.induct)
  case (start s)
  then show ?case
    by (auto simp: replicas_ok_def steps_present_def once_def holders_def unused_def sole_def key_at_def
        initial_def intro: reach.start)
next
  case (step X n s s')
  then have "replicas_ok M n s" "\<forall>x. x \<noteq> [] \<longrightarrow> x \<notin> X \<longrightarrow> once x s" "n < 2 ^ 64" by simp_all
  with cl_step_replicas [OF step.hyps(2)] cl_step_once [OF step.hyps(2)] assms(3) show ?case by blast
next
  case (expire X n s x)
  then have "replicas_ok M n s" "\<forall>x. x \<noteq> [] \<longrightarrow> x \<notin> X \<longrightarrow> once x s" by simp_all
  then show ?case by (auto simp: replicas_ok_def steps_present_def once_def le_Suc_eq)
qed

text \<open>
  C7: One run for one key. Every replica has the node, which grants a key at most once until its
  claim expires. Then, however creations on any number of replicas overlap, and whatever else the
  replicas do meanwhile (workers, signals, cancellations, collections), no two stored runs of the
  whole cluster ever carry the same idempotency key, as long as its claim has not expired.
\<close>

theorem one_run_per_key:
  assumes "cl_reach M cs X n s" and "n < 2 ^ 64" and "\<And>k. enabled (cs k)"
    and "x \<noteq> []" and "x \<notin> X"
    and "key_at s k j = Some x" and "key_at s k' j' = Some x"
  shows "k = k' \<and> j = j'"
  using cl_reach_once [OF assms(1-3)] assms(4-7) unfolding once_def sole_def by blast

subsection \<open>Sample creations\<close>

definition granting_client :: client where
  "granting_client = down_client\<lparr>cl_idempotency_claim := (\<lambda>_ _ _. Returned
     (JObj [(''result'', JObj [(''output'', JObj [(''claimed'', JBool True)])])]))\<rparr>"

definition put_run :: "string \<Rightarrow> sys \<Rightarrow> sys" where
  "put_run uuid y = y\<lparr>y_engine := (y_engine y)\<lparr>e_store := fst (create_run_insert (w_serde keyed_world)
     (y_store y) (new_run uuid 0 ''{}'' JNull [JNull] (JObj []) ''k''))\<rparr>, y_ids := uuid # y_ids y\<rparr>"

definition empty_cluster :: cluster where
  "empty_cluster = \<lparr> cu_replica = (\<lambda>_. demo0), cu_claimed = {}, cu_creations = [] \<rparr>"

lemma empty_cluster_reach: "cl_reach M cs {} 0 empty_cluster"
  by (rule cl_reach.start) (simp_all add: empty_cluster_def initial_def demo0_def)

lemma sample_granted: "claim_idempotency granting_client c ''k'' = Inr True"
proof -
  have "parse_idempotency_claim (JObj [(''result'', JObj [(''output'', JObj [(''claimed'', JBool True)])])]) =
      Inr True" by code_simp
  then show ?thesis by (simp add: claim_idempotency_def granting_client_def)
qed

lemma sample_check:
  assumes "run_for_idempotency_key (w_serde keyed_world) st ''k'' = None"
  shows "create_run_check (w_serde keyed_world) psql db st ''{}'' ''k'' = Inr (Inr ([JNull], JObj []))"
proof -
  have "resolve_definition (w_serde keyed_world) psql db ''{}'' = Inr ([JNull], JObj [])"
    by code_simp
  with assms show ?thesis by (simp add: create_run_check_def)
qed

abbreviation creation_k :: "nat \<Rightarrow> stage \<Rightarrow> creation" where
  "creation_k k g \<equiv> \<lparr> cr_replica = k, cr_key = ''k'', cr_stage = g \<rparr>"

lemma put_run_step:
  assumes "cu_creations s = cs1 @ creation_k k (Resolved [JNull] (JObj [])) # cs2"
    and "uuid \<notin> set (y_ids (cu_replica s k))"
  shows "cl_step M cs s (s\<lparr>cu_creations := cs1 @ cs2,
    cu_replica := (cu_replica s)(k := put_run uuid (cu_replica s k))\<rparr>)"
  unfolding put_run_def
  by (rule cl_step.insert [OF assms(1) _ assms(2), where sj = "w_serde keyed_world" and now = 0 and
        d = "''{}''" and inp = JNull]) (simp_all add: i64_max_def)

text \<open>An uninterrupted creation with the key \<open>k\<close>.\<close>

lemma creation_path:
  assumes "cl_reach M cs X n s" and "cu_creations s = []" and "enabled (cs k)" and "''k'' \<notin> cu_claimed s"
    and "run_for_idempotency_key (w_serde keyed_world) (replica_store s k) ''k'' = None"
    and "uuid \<notin> set (y_ids (cu_replica s k))"
  shows "cl_reach M cs X (n + 4) (s\<lparr>cu_claimed := Set.insert ''k'' (cu_claimed s),
    cu_replica := (cu_replica s)(k := put_run uuid (cu_replica s k))\<rparr>)"
proof -
  let ?s1 = "s\<lparr>cu_creations := [creation_k k Asked]\<rparr>"
  let ?s2 = "?s1\<lparr>cu_creations := [] @ creation_k k Granted # [], cu_claimed := Set.insert ''k'' (cu_claimed s)\<rparr>"
  let ?s3 = "?s2\<lparr>cu_creations := [] @ creation_k k (Resolved [JNull] (JObj [])) # []\<rparr>"
  let ?s4 = "?s3\<lparr>cu_creations := [] @ [], cu_replica := (cu_replica s)(k := put_run uuid (cu_replica s k))\<rparr>"
  have "cl_step M cs s ?s1"
    using cl_step.ask [of "''k''" "w_serde keyed_world" s k M cs] assms(2,5) by simp
  moreover have "cl_step M cs ?s1 ?s2"
    using cl_step.grant [of ?s1 "[]" k "''k''" "[]", OF _ _ sample_granted, of cs M] assms(3,4) by simp
  moreover have "cl_step M cs ?s2 ?s3"
    by (rule cl_step.resolve [where sj = "w_serde keyed_world" and psql = "\<lambda>_ _. QueryTimedOut" and
          db = None and d = "''{}''"]) (use assms(5) in \<open>simp_all add: sample_check\<close>)
  moreover have "cl_step M cs ?s3 ?s4" using put_run_step [of ?s3 "[]" k "[]" uuid M cs] assms(6) by simp
  ultimately have "cl_reach M cs X (Suc (Suc (Suc (Suc n)))) ?s4"
    using cl_reach.step [OF cl_reach.step [OF cl_reach.step [OF cl_reach.step [OF assms(1)]]]] by blast
  moreover have "?s4 = s\<lparr>cu_claimed := Set.insert ''k'' (cu_claimed s),
      cu_replica := (cu_replica s)(k := put_run uuid (cu_replica s k))\<rparr>" using assms(2) by simp
  moreover have "n + 4 = Suc (Suc (Suc (Suc n)))" by simp
  ultimately show ?thesis by (simp only:)
qed

text \<open>Two creations with the key \<open>k\<close> that overlap on replica 0, without a node.\<close>

lemma overlap_path:
  "\<exists>s. cl_reach M (\<lambda>_. demo_local) {} 8 s \<and>
     cu_replica s 0 = put_run ''v'' (put_run ''u'' demo0)"
proof -
  let ?cs = "\<lambda>_::nat. demo_local" and ?A = "creation_k 0 Asked" and ?G = "creation_k 0 Granted"
    and ?R = "creation_k 0 (Resolved [JNull] (JObj []))"
  let ?s = "\<lambda>c. empty_cluster\<lparr>cu_creations := c\<rparr>"
  have off: "\<not> enabled demo_local" by code_simp
  have none: "run_for_idempotency_key (w_serde keyed_world) (replica_store (?s c) 0) ''k'' = None" for c
    by (simp add: empty_cluster_def demo0_def run_for_idempotency_key_def)
  have ask: "cl_step M ?cs (?s c) (?s (?A # c))" for c
    using cl_step.ask [of "''k''" "w_serde keyed_world" "?s c" 0 M ?cs] none [of c] by simp
  have grant: "cl_step M ?cs (?s (cs1 @ ?A # cs2)) (?s (cs1 @ ?G # cs2))" for cs1 cs2
    using cl_step.grant [of "?s (cs1 @ ?A # cs2)" cs1 0 "''k''" cs2, OF _ _ sample_granted, of ?cs M] off by simp
  have resolve: "cl_step M ?cs (?s (cs1 @ ?G # cs2)) (?s (cs1 @ ?R # cs2))" for cs1 cs2
    using cl_step.resolve [of "?s (cs1 @ ?G # cs2)" cs1 0 "''k''" cs2 "w_serde keyed_world" "\<lambda>_ _. QueryTimedOut" None
        "''{}''" "[JNull]" "JObj []" M ?cs] sample_check [OF none] by simp
  let ?one = "?s [?R]" and ?y = "put_run ''u'' demo0"
  let ?s1 = "?one\<lparr>cu_replica := (cu_replica empty_cluster)(0 := ?y)\<rparr>"
  have rep: "cu_replica empty_cluster k = demo0" for k by (simp add: empty_cluster_def)
  have "cl_step M ?cs (?s [?R, ?R]) ?s1"
    using put_run_step [of "?s [?R, ?R]" "[]" 0 "[?R]" "''u''" M ?cs] rep by (simp add: demo0_def)
  moreover have "cl_step M ?cs ?s1 (?s1\<lparr>cu_creations := [] @ [], cu_replica := (cu_replica ?s1)(0 := put_run ''v'' (cu_replica ?s1 0))\<rparr>)"
    by (rule put_run_step) (simp_all add: put_run_def demo0_def)
  moreover have "cl_reach M ?cs {} (Suc (Suc (Suc (Suc (Suc (Suc 0)))))) (?s [?R, ?R])"
    using cl_reach.step [OF cl_reach.step [OF cl_reach.step [OF cl_reach.step [OF cl_reach.step [OF cl_reach.step
      [OF empty_cluster_reach]]]]], of M ?cs "?s [?A]" "?s [?A, ?A]" "?s [?G, ?A]" "?s [?G, ?G]" "?s [?R, ?G]" "?s [?R, ?R]"]
      ask [of "[]"] ask [of "[?A]"] grant [of "[]" "[?A]"] grant [of "[?G]" "[]"] resolve [of "[]" "[?G]"]
      resolve [of "[?R]" "[]"]
    by (simp add: empty_cluster_def)
  ultimately have "cl_reach M ?cs {} (Suc (Suc (Suc (Suc (Suc (Suc (Suc (Suc 0))))))))
      (?s1\<lparr>cu_creations := [] @ [], cu_replica := (cu_replica ?s1)(0 := put_run ''v'' (cu_replica ?s1 0))\<rparr>)"
    (is "cl_reach _ _ _ _ ?end") using cl_reach.step by blast
  then have "cl_reach M ?cs {} 8 ?end" by (simp only: numeral_eq_Suc BitM.simps pred_numeral_simps)
  moreover have "cu_replica ?end 0 = put_run ''v'' (put_run ''u'' demo0)" by simp
  ultimately show ?thesis by blast
qed

text \<open>
  C33: What the guarantee needs. When the claim of a key has expired (the service asks for one
  minute, a terminal run is kept for an hour by default), a second replica creates a second run
  with the key although the first one is still stored; and without a node, two creations that
  overlap on a single replica both store a run.
\<close>

theorem key_stored_twice:
  "(\<exists>s. cl_reach 4 (\<lambda>_. sample_coordinator) {''k''} 9 s \<and>
      key_at s 0 ''u'' = Some ''k'' \<and> key_at s 1 ''v'' = Some ''k'') \<and>
   (\<exists>s. cl_reach 4 (\<lambda>_. demo_local) {} 8 s \<and>
      key_at s 0 ''u'' = Some ''k'' \<and> key_at s 0 ''v'' = Some ''k'')"
proof (rule conjI)
  let ?cs = "\<lambda>_::nat. sample_coordinator"
  have on: "enabled sample_coordinator" by code_simp
  have none: "run_for_idempotency_key (w_serde keyed_world) (y_store demo0) ''k'' = None" "y_ids demo0 = []"
    by (simp_all add: demo0_def run_for_idempotency_key_def)
  obtain s where s: "cl_reach 4 ?cs {} (0 + 4) s" "cu_creations s = []" "cu_claimed s = {''k''}"
    "cu_replica s = (\<lambda>_. demo0)(0 := put_run ''u'' demo0)"
    using creation_path [OF empty_cluster_reach, of ?cs 0 "''u''" 4] on none by (simp add: empty_cluster_def)
  let ?t = "s\<lparr>cu_claimed := cu_claimed s - {''k''}\<rparr>"
  have "cl_reach 4 ?cs {''k''} 5 ?t" using cl_reach.expire [OF s(1), of "''k''"] by (simp add: numeral_eq_Suc)
  from creation_path [OF this, of 1 "''v''"] on none s(2-4)
  obtain t where "cl_reach 4 ?cs {''k''} 9 t"
    "cu_replica t = (\<lambda>_. demo0)(0 := put_run ''u'' demo0, 1 := put_run ''v'' demo0)" by auto
  then show "\<exists>s. cl_reach 4 ?cs {''k''} 9 s \<and> key_at s 0 ''u'' = Some ''k'' \<and> key_at s 1 ''v'' = Some ''k''"
    by (intro exI [of _ t]) (simp add: key_at_def put_run_def create_run_insert_def hm_get_put new_run_def)
next
  from overlap_path [of 4] show "\<exists>s. cl_reach 4 (\<lambda>_. demo_local) {} 8 s \<and>
      key_at s 0 ''u'' = Some ''k'' \<and> key_at s 0 ''v'' = Some ''k''"
    by (auto simp: key_at_def put_run_def create_run_insert_def hm_get_put new_run_def)
qed

lemma one_run_per_key_witness:
  "\<exists>s. cl_reach 4 (\<lambda>_. sample_coordinator) {} 4 s \<and> key_at s 0 ''u'' = Some ''k'' \<and>
     key_at s 1 ''v'' \<noteq> Some ''k''"
proof -
  let ?cs = "\<lambda>_::nat. sample_coordinator"
  have on: "enabled sample_coordinator" by code_simp
  have none: "run_for_idempotency_key (w_serde keyed_world) (y_store demo0) ''k'' = None" "y_ids demo0 = []"
    by (simp_all add: demo0_def run_for_idempotency_key_def)
  obtain s where s: "cl_reach 4 ?cs {} 4 s" "cu_replica s = (\<lambda>_. demo0)(0 := put_run ''u'' demo0)"
    using creation_path [OF empty_cluster_reach, of ?cs 0 "''u''" 4] on none by (simp add: empty_cluster_def)
  then have "key_at s 0 ''u'' = Some ''k''"
    by (simp add: key_at_def put_run_def create_run_insert_def hm_get_put new_run_def)
  with one_run_per_key [OF s(1) _ on, of "''k''" 0 "''u''" 1 "''v''"] s show ?thesis by fastforce
qed

end
