(* ===== verification/Store_Props.thy ===== *)
theory Store_Props
  imports Workflow
begin

section \<open>Properties of the run store\<close>

text \<open>
  The claims on \<open>src/workflow/store.rs\<close> itself: its optimistic commits, the scheduler's claims,
  idempotent creation, signals and collection.
\<close>

subsection \<open>Commits\<close>

text \<open>The eight operations a worker commits with.\<close>

inductive is_commit :: "(store \<Rightarrow> string \<Rightarrow> u64 \<Rightarrow> store \<times> commit) \<Rightarrow> bool" where
  "is_commit (\<lambda>st i v. succeed_complete sj t st i v row out ctx)"
| "is_commit (\<lambda>st i v. succeed_advance sj t1 t2 st i v row' idx ctx)"
| "is_commit (\<lambda>st i v. fail_retry sj t1 t2 st i v row' attempt backoff err)"
| "is_commit (\<lambda>st i v. fail_terminal sj t st i v row' err)"
| "is_commit (\<lambda>st i v. enter_sleep sj t1 t2 st i v row' duration idx)"
| "is_commit (\<lambda>st i v. consume_signal sj t1 t2 st i v row' idx ctx position)"
| "is_commit (\<lambda>st i v. park_wait sj t1 t2 st i v deadline)"
| "is_commit (\<lambda>st i v. repark_wait sj t st i v)"

lemma is_commit_contract: "is_commit f \<Longrightarrow> optimistic_commit f"
  by (erule is_commit.cases)
    (simp_all add: complete_op.optimistic_commit_axioms advance_op.optimistic_commit_axioms
      retry_op.optimistic_commit_axioms fail_op.optimistic_commit_axioms
      sleep_op.optimistic_commit_axioms consume_op.optimistic_commit_axioms
      park_op.optimistic_commit_axioms repark_op.optimistic_commit_axioms)

definition sample_serde :: serde where
  "sample_serde = \<lparr> sj_parse = (\<lambda>_. Inr JNull), sj_print = (\<lambda>_. ''null'') \<rparr>"

definition sample_store :: store where
  "sample_store = [(''r'', new_run ''r'' 5 ''d'' JNull [JNull, JNull] (JObj []) ''key'')]"

text \<open>
  Optimistic concurrency. Of any two worker commits (of the same kind or of different
  kinds) that carry the same version of a run, at most one succeeds: after the first has
  committed, the second is a conflict and changes nothing.
\<close>

theorem commits_exclusive:
  assumes "is_commit f" and "is_commit g" and "f st i v = (st', Committed out)"
  shows "g st' i v = (st', Conflict i)"
  using optimistic_commit.exclusive [OF is_commit_contract [OF assms(1)]
      is_commit_contract [OF assms(2)] assms(3)] .

lemma commits_exclusive_witness:
  "fail_terminal sample_serde 9 (fst (succeed_advance sample_serde 9 9 sample_store ''r'' 0 JNull 1 []))
     ''r'' 0 JNull ''late'' =
   (fst (succeed_advance sample_serde 9 9 sample_store ''r'' 0 JNull 1 []), Conflict ''r'')"
proof -
  let ?f = "\<lambda>st i v. succeed_advance sample_serde 9 9 st i v JNull 1 []"
  have "case snd (?f sample_store ''r'' 0) of Committed _ \<Rightarrow> True | _ \<Rightarrow> False" by code_simp
  then obtain out where "?f sample_store ''r'' 0 = (fst (?f sample_store ''r'' 0), Committed out)"
    by (cases "?f sample_store ''r'' 0") (auto split: commit.splits)
  from commits_exclusive [OF is_commit.intros(2) is_commit.intros(4) this] show ?thesis .
qed

text \<open>
  What a worker commit does, on every branch. An unknown run is an error; a canceled run or
  a version that is not the current one is a conflict; both leave the store as it is. Otherwise
  the commit succeeds: the version is incremented, the lease is released, the history is
  extended, the identity is kept, no other run changes, and no entry is added or lost.
\<close>

theorem commit_outcome:
  assumes "is_commit f"
  shows "case hm_get st i of
      None \<Rightarrow> f st i v = (st, CommitErr ''workflow run not found'')
    | Some r \<Rightarrow>
        if r_status r = ''canceled'' \<or> r_version r \<noteq> v then f st i v = (st, Conflict i)
        else \<exists>st' r' out. f st i v = (st', Committed out) \<and> hm_get st' i = Some r' \<and>
          successor r r' \<and> (\<forall>j. j \<noteq> i \<longrightarrow> hm_get st' j = hm_get st j)"
proof -
  note contract = is_commit_contract [OF assms]
  note laws = optimistic_commit.absent_law [OF contract] optimistic_commit.refused_law [OF contract]
    optimistic_commit.applied_law [OF contract]
  show ?thesis using laws by (fastforce split: option.split simp: hm_get_put)
qed

lemma commit_outcome_witness:
  "case hm_get sample_store ''r'' of
      None \<Rightarrow> repark_wait sample_serde 7 sample_store ''r'' 0 =
        (sample_store, CommitErr ''workflow run not found'')
    | Some r \<Rightarrow>
        if r_status r = ''canceled'' \<or> r_version r \<noteq> 0 then
          repark_wait sample_serde 7 sample_store ''r'' 0 = (sample_store, Conflict ''r'')
        else \<exists>st' r' out. repark_wait sample_serde 7 sample_store ''r'' 0 = (st', Committed out) \<and>
          hm_get st' ''r'' = Some r' \<and> successor r r' \<and>
          (\<forall>j. j \<noteq> ''r'' \<longrightarrow> hm_get st' j = hm_get sample_store j)"
  by (rule commit_outcome [OF is_commit.intros(8)])

subsection \<open>Claims of the scheduler\<close>

text \<open>A store whose keys are the identifiers of its runs (what every operation keeps).\<close>

definition store_wf :: "store \<Rightarrow> bool" where
  "store_wf st \<longleftrightarrow> hm_wf st \<and> (\<forall>j r. hm_get st j = Some r \<longrightarrow> r_id r = j)"

lemma store_wf_due:
  assumes "store_wf st"
  shows "distinct (map r_id (filter (is_due now) (map snd st)))"
    and "i \<in> set (map r_id (filter (is_due now) (map snd st))) \<longleftrightarrow>
      (\<exists>r. hm_get st i = Some r \<and> is_due now r)"
proof -
  have key: "\<forall>x \<in> set st. r_id (snd x) = fst x"
    using assms by (auto simp: store_wf_def hm_get_mem [symmetric])
  then have "map r_id (map snd st) = map fst st" by simp
  moreover have "distinct (map fst st)" using assms by (simp add: store_wf_def hm_wf_def)
  ultimately have "distinct (map r_id (map snd st))" by (simp only:)
  then show "distinct (map r_id (filter (is_due now) (map snd st)))" by (rule distinct_map_filter)
  show "i \<in> set (map r_id (filter (is_due now) (map snd st))) \<longleftrightarrow>
      (\<exists>r. hm_get st i = Some r \<and> is_due now r)"
    using key assms by (force simp: store_wf_def hm_get_mem [symmetric])
qed

lemma due_ids_facts:
  assumes "store_wf st"
  shows "sorted (due_ids now limit st)" "distinct (due_ids now limit st)"
    "length (due_ids now limit st) \<le> limit"
    "i \<in> set (due_ids now limit st) \<Longrightarrow> \<exists>r. hm_get st i = Some r \<and> is_due now r"
    "hm_get st i = Some r \<Longrightarrow> is_due now r \<Longrightarrow> length st \<le> limit \<Longrightarrow> i \<in> set (due_ids now limit st)"
proof -
  note due = store_wf_due [OF assms]
  show "sorted (due_ids now limit st)" by (simp add: due_ids_def sorted_wrt_take)
  show "distinct (due_ids now limit st)" using due(1) by (simp add: due_ids_def distinct_take)
  show "length (due_ids now limit st) \<le> limit" by (simp add: due_ids_def)
  show "\<exists>r. hm_get st i = Some r \<and> is_due now r" if "i \<in> set (due_ids now limit st)"
    using that due(2) take_sort_subset unfolding due_ids_def by blast
  show "i \<in> set (due_ids now limit st)"
    if "hm_get st i = Some r" "is_due now r" "length st \<le> limit"
  proof -
    have "length (map r_id (filter (is_due now) (map snd st))) \<le> limit"
      using that(3) order_trans [OF length_filter_le [of "is_due now" "map snd st"]]
      unfolding length_map by blast
    then show ?thesis using that(1,2) due(2) [of i now] by (auto simp: due_ids_def)
  qed
qed

text \<open>The snapshots a claim returns, in the order of the identifiers.\<close>

lemma claim_loop_snd:
  "distinct is \<Longrightarrow> (\<And>i. i \<in> set is \<Longrightarrow> hm_get st i \<noteq> None) \<Longrightarrow>
     snd (claim_loop now lease is st) = map (\<lambda>i. view_of now (claim_one now lease (the (hm_get st i)))) is"
proof (induction "is" arbitrary: st)
  case (Cons i js)
  from Cons.prems(2) [of i] obtain r where r: "hm_get st i = Some r" by auto
  have "snd (claim_loop now lease js (hm_put i (claim_one now lease r) st)) =
      map (\<lambda>j. view_of now (claim_one now lease (the (hm_get (hm_put i (claim_one now lease r) st) j)))) js"
    using Cons.prems by (intro Cons.IH) (auto simp: hm_get_put)
  also have "\<dots> = map (\<lambda>j. view_of now (claim_one now lease (the (hm_get st j)))) js"
    using Cons.prems(1) by (intro map_cong refl) (auto simp: hm_get_put)
  finally show ?case by (simp add: r case_prod_beta Let_def)
qed simp

lemma claim_due_get:
  assumes "store_wf st"
  shows "hm_get (fst (claim_due now st limit lease)) j =
    (if j \<in> set (due_ids now limit st) then map_option (claim_one now lease) (hm_get st j)
     else hm_get st j)"
  by (simp add: claim_due_def claim_loop_get due_ids_facts [OF assms])

lemma store_wf_claim:
  assumes "store_wf st"
  shows "store_wf (fst (claim_due now st limit lease))"
  using assms claim_due_get [OF assms, of now limit lease]
  by (auto simp: store_wf_def claim_due_def claim_loop_wf claim_one_def split: if_splits)

text \<open>
  What \<open>claim_due\<close> returns: at most \<open>limit\<close> snapshots, one for each of its due runs in
  the order of their identifiers, all of them due (not terminal, their time come, not leased),
  all due runs if the limit allows it; each is leased until \<open>now + lease_ms\<close> under a new
  version, and the snapshot carries this version; the other runs are not touched.
\<close>

theorem claim_due_exact:
  assumes "store_wf st"
  shows "\<exists>ids. sorted ids \<and> distinct ids \<and> length ids \<le> limit \<and>
    set ids \<subseteq> {i. \<exists>r. hm_get st i = Some r \<and> is_due now r} \<and>
    (length st \<le> limit \<longrightarrow> set ids = {i. \<exists>r. hm_get st i = Some r \<and> is_due now r}) \<and>
    snd (claim_due now st limit lease) =
      map (\<lambda>i. view_of now (claim_one now lease (the (hm_get st i)))) ids \<and>
    (\<forall>j. hm_get (fst (claim_due now st limit lease)) j =
      (if j \<in> set ids then map_option (claim_one now lease) (hm_get st j) else hm_get st j))"
proof (intro exI conjI)
  note facts = due_ids_facts [OF assms, where limit = limit]
  show "sorted (due_ids now limit st)" "distinct (due_ids now limit st)"
    "length (due_ids now limit st) \<le> limit" by (rule facts)+
  show "set (due_ids now limit st) \<subseteq> {i. \<exists>r. hm_get st i = Some r \<and> is_due now r}"
    using facts(4) by blast
  then show "length st \<le> limit \<longrightarrow>
      set (due_ids now limit st) = {i. \<exists>r. hm_get st i = Some r \<and> is_due now r}"
    using facts(5) by blast
  show "snd (claim_due now st limit lease) =
      map (\<lambda>i. view_of now (claim_one now lease (the (hm_get st i)))) (due_ids now limit st)"
    unfolding claim_due_def using facts(4) by (intro claim_loop_snd facts(2)) fastforce
  show "\<forall>j. hm_get (fst (claim_due now st limit lease)) j =
      (if j \<in> set (due_ids now limit st) then map_option (claim_one now lease) (hm_get st j)
       else hm_get st j)"
    using claim_due_get [OF assms] by blast
qed

lemma sample_wf: "store_wf sample_store"
  by (simp add: store_wf_def sample_store_def hm_wf_def hm_get_def new_run_def)

lemma claim_due_exact_witness:
  "length (snd (claim_due 6 sample_store 3 100)) \<le> 3 \<and> snd (claim_due 6 sample_store 3 100) \<noteq> []"
proof -
  have "snd (claim_due 6 sample_store 3 100) \<noteq> []" by code_simp
  moreover obtain ids where "length ids \<le> 3" "snd (claim_due 6 sample_store 3 100) =
      map (\<lambda>i. view_of 6 (claim_one 6 100 (the (hm_get sample_store i)))) ids"
    using claim_due_exact [OF sample_wf, of 3 6 100] by blast
  ultimately show ?thesis by simp
qed

text \<open>
  A lease is exclusive while it lasts. Between a claim at \<open>now\<close> and \<open>now + lease_ms\<close> (as
  long as the sum is an \<open>i64\<close>), no other claim returns a run the first one returned, and it
  leaves the run as it is.
\<close>

theorem claim_excludes_claim:
  assumes "store_wf st" and "in_i64 (now + lease)" and "now' < now + lease"
    and "j \<in> set (due_ids now limit st)"
  shows "j \<notin> set (due_ids now' limit' (fst (claim_due now st limit lease))) \<and>
    hm_get (fst (claim_due now' (fst (claim_due now st limit lease)) limit' lease')) j =
    hm_get (fst (claim_due now st limit lease)) j"
proof -
  let ?st = "fst (claim_due now st limit lease)"
  have wf: "store_wf ?st" by (rule store_wf_claim [OF assms(1)])
  from due_ids_facts(4) [OF assms(1,4)] obtain r where "hm_get st j = Some r" by blast
  then have "hm_get ?st j = Some (claim_one now lease r)"
    using claim_due_get [OF assms(1)] assms(4) by simp
  then have "\<not> (\<exists>q. hm_get ?st j = Some q \<and> is_due now' q)"
    using assms(2,3) by (simp add: is_due_def claim_one_def i64_add_id)
  then have "j \<notin> set (due_ids now' limit' ?st)" using due_ids_facts(4) [OF wf] by blast
  then show ?thesis using claim_due_get [OF wf] by simp
qed

lemma claim_excludes_claim_witness:
  "''r'' \<in> set (due_ids 6 3 sample_store) \<and>
   ''r'' \<notin> set (due_ids 105 3 (fst (claim_due 6 sample_store 3 100)))"
proof -
  have "''r'' \<in> set (due_ids 6 3 sample_store)" by code_simp
  with claim_excludes_claim [OF sample_wf, of 6 100 105 "''r''" 3 3 100] show ?thesis
    by (simp add: in_i64_def i64_min_def i64_max_def)
qed

subsection \<open>Collection, signals, creation\<close>

text \<open>
  The collector evicts exactly the terminal runs whose last update is older than the
  retention window (a negative window counts as zero), returns how many it evicted, and keeps
  every other run as it is; a run that is still active is never evicted.
\<close>

theorem gc_exact:
  assumes "store_wf st" and "in_i64 (t - max retain 0)"
  shows "(\<forall>j. hm_get (fst (gc_terminal t retain st)) j =
      (case hm_get st j of None \<Rightarrow> None
       | Some r \<Rightarrow> if terminal_status (r_status r) \<and> r_updated_at r + max retain 0 < t then None
                   else Some r)) \<and>
    snd (gc_terminal t retain st) = length st - length (fst (gc_terminal t retain st)) \<and>
    store_wf (fst (gc_terminal t retain st))"
proof -
  have wf: "hm_wf st" using assms(1) by (simp add: store_wf_def)
  have get: "hm_get (fst (gc_terminal t retain st)) j =
      (case hm_get st j of None \<Rightarrow> None
       | Some r \<Rightarrow> if terminal_status (r_status r) \<and> r_updated_at r + max retain 0 < t then None
                   else Some r)" for j
    using assms(2)
    by (auto simp: gc_terminal_def Let_def hm_get_retain [OF wf] i64_sub_id split: option.split)
  moreover have "store_wf (fst (gc_terminal t retain st))"
    using assms(1) get wf
    by (auto simp: store_wf_def gc_terminal_def Let_def split: option.splits if_splits)
  ultimately show ?thesis by (simp add: gc_terminal_def Let_def)
qed

lemma gc_exact_witness:
  "hm_get (fst (gc_terminal 100 50 (fst (cancel_run sample_serde 7 sample_store ''r'')))) ''r'' = None \<and>
   snd (gc_terminal 100 50 (fst (cancel_run sample_serde 7 sample_store ''r''))) = 1"
proof -
  let ?st = "fst (cancel_run sample_serde 7 sample_store ''r'')"
  have "store_wf ?st"
    by (simp add: store_wf_def cancel_run_def sample_store_def hm_get_def new_run_def
        terminal_status_def hm_wf_def hm_put_def Let_def)
  moreover have "in_i64 (100 - max 50 0)" by (simp add: in_i64_def i64_min_def i64_max_def)
  ultimately have "hm_get (fst (gc_terminal 100 50 ?st)) ''r'' =
      (case hm_get ?st ''r'' of None \<Rightarrow> None
       | Some r \<Rightarrow> if terminal_status (r_status r) \<and> r_updated_at r + max 50 0 < 100 then None
                   else Some r)" using gc_exact [of ?st 100 50] by blast
  moreover have "(case hm_get ?st ''r'' of None \<Rightarrow> None
       | Some r \<Rightarrow> if terminal_status (r_status r) \<and> r_updated_at r + max 50 0 < 100 then None
                   else Some r) = None" by code_simp
  moreover have "snd (gc_terminal 100 50 ?st) = 1" by code_simp
  ultimately show ?thesis by simp
qed

definition unique_keys :: "store \<Rightarrow> bool" where
  "unique_keys st \<longleftrightarrow> (\<forall>i j r q. hm_get st i = Some r \<longrightarrow> hm_get st j = Some q \<longrightarrow>
     r_idempotency_key r \<noteq> None \<longrightarrow> r_idempotency_key r = r_idempotency_key q \<longrightarrow> i = j)"

lemma run_for_key:
  assumes "hm_wf st"
  shows "run_for_idempotency_key sj st key = None \<longleftrightarrow>
      (\<forall>i r. hm_get st i = Some r \<longrightarrow> r_idempotency_key r \<noteq> Some key)"
    and "run_for_idempotency_key sj st key = Some out \<Longrightarrow>
      \<exists>i r. hm_get st i = Some r \<and> r_idempotency_key r = Some key \<and> out = run_json sj r"
proof -
  have mem: "r \<in> set (map snd st) \<longleftrightarrow> (\<exists>i. hm_get st i = Some r)" for r
    using hm_get_mem [OF assms] by force
  show "run_for_idempotency_key sj st key = None \<longleftrightarrow>
      (\<forall>i r. hm_get st i = Some r \<longrightarrow> r_idempotency_key r \<noteq> Some key)"
    unfolding run_for_idempotency_key_def using mem by (auto simp: find_None_iff)
  show "run_for_idempotency_key sj st key = Some out \<Longrightarrow>
      \<exists>i r. hm_get st i = Some r \<and> r_idempotency_key r = Some key \<and> out = run_json sj r"
  proof -
    assume "run_for_idempotency_key sj st key = Some out"
    then obtain r where r: "find (\<lambda>r. r_idempotency_key r = Some key) (map snd st) = Some r"
      and out: "out = run_json sj r" unfolding run_for_idempotency_key_def by auto
    from r obtain n where "n < length (map snd st)" "r = map snd st ! n"
      and key: "r_idempotency_key r = Some key" unfolding find_Some_iff by auto
    then have "r \<in> set (map snd st)" by simp
    with mem key out show ?thesis by blast
  qed
qed

lemma unique_keys_put:
  assumes "unique_keys st"
    and fresh: "\<And>i q. hm_get st i = Some q \<Longrightarrow> r_idempotency_key r \<noteq> None \<Longrightarrow>
      r_idempotency_key q \<noteq> r_idempotency_key r"
  shows "unique_keys (hm_put u r st)"
  unfolding unique_keys_def
proof (intro allI impI)
  fix i j p q
  assume h: "hm_get (hm_put u r st) i = Some p" "hm_get (hm_put u r st) j = Some q"
    "r_idempotency_key p \<noteq> None" "r_idempotency_key p = r_idempotency_key q"
  show "i = j"
  proof (cases "i = u"; cases "j = u")
    assume "i \<noteq> u" "j \<noteq> u"
    with h assms(1) show ?thesis unfolding unique_keys_def by auto
  next
    assume "i = u" "j \<noteq> u"
    with h fresh [of j q] show ?thesis by auto
  next
    assume "i \<noteq> u" "j = u"
    with h fresh [of i p] show ?thesis by auto
  qed simp
qed

text \<open>
  Idempotent creation. With a key that a stored run already has, \<open>create_run\<close> returns that
  run and stores nothing; with a fresh key it stores exactly one new \<open>pending\<close> run, at step 0
  and due at once, under the generated identifier; on an error nothing is stored. Two stored
  runs never share a key when creations do not overlap.
\<close>

theorem create_run_idempotent:
  assumes "store_wf st" and "unique_keys st" and "hm_get st uuid = None"
    and "create_run sj psql db uuid now st def_ref inp key = (st', result)"
  shows "unique_keys st' \<and> store_wf st' \<and>
    (case result of
       Inl err \<Rightarrow> st' = st
     | Inr out \<Rightarrow>
         if key \<noteq> [] \<and> (\<exists>i r. hm_get st i = Some r \<and> r_idempotency_key r = Some key) then
           st' = st \<and> (\<exists>i r. hm_get st i = Some r \<and> r_idempotency_key r = Some key \<and>
             out = run_json sj r)
         else \<exists>r. st' = hm_put uuid r st \<and> out = run_json sj r \<and> r_id r = uuid \<and>
           r_status r = ''pending'' \<and> r_current_step_index r = 0 \<and> r_steps r \<noteq> [] \<and>
           r_next_run_at_ms r = now \<and> r_lease_until_ms r = 0 \<and> r_version r = 0 \<and>
           r_idempotency_key r = (if key \<noteq> [] then Some key else None))"
proof (cases "create_run_check sj psql db st def_ref key")
  case (Inl e)
  with assms show ?thesis by (auto simp: create_run_def)
next
  case (Inr found)
  have wf: "hm_wf st" using assms(1) by (simp add: store_wf_def)
  show ?thesis
  proof (cases found)
    case (Inl existing)
    with Inr have "key \<noteq> []" "run_for_idempotency_key sj st key = Some existing"
      by (auto simp: create_run_check_def split: sum.splits if_splits option.splits)
    with run_for_key(2) [OF wf] Inl Inr assms show ?thesis
      by (fastforce simp: create_run_def)
  next
    case new: (Inr body)
    obtain steps retry where body: "body = (steps, retry)" by (cases body)
    from Inr new body have none: "key \<noteq> [] \<Longrightarrow> run_for_idempotency_key sj st key = None"
      and steps: "steps \<noteq> []"
      by (auto simp: create_run_check_def split: sum.splits if_splits option.splits)
    let ?r = "new_run uuid now def_ref (parse_or_null sj inp) steps retry key"
    from Inr new body assms(4) have st': "st' = hm_put uuid ?r st"
      and result: "result = Inr (run_json sj ?r)"
      by (simp_all add: create_run_def create_run_insert_def new_run_def)
    have fields: "r_id ?r = uuid" "r_idempotency_key ?r = (if key \<noteq> [] then Some key else None)"
      by (simp_all add: new_run_def)
    have nokey: "\<not> (key \<noteq> [] \<and> (\<exists>i r. hm_get st i = Some r \<and> r_idempotency_key r = Some key))"
      using none run_for_key(1) [OF wf] by blast
    then have "unique_keys st'"
      unfolding st' by (intro unique_keys_put [OF assms(2)]) (auto simp: fields(2) split: if_splits)
    moreover have "store_wf st'"
      using assms(1) fields(1) unfolding st' store_wf_def by (auto simp: hm_get_put)
    ultimately show ?thesis
      unfolding st' result using nokey steps
      by (auto simp: new_run_def intro!: exI [of _ ?r])
  qed
qed

lemma sample_unique: "unique_keys sample_store"
  by (simp add: unique_keys_def sample_store_def hm_get_def)

definition steps_serde :: serde where
  "steps_serde = \<lparr> sj_parse = (\<lambda>_. Inr (JObj [(''steps'', JArr [JNull])])), sj_print = (\<lambda>_. ''run'') \<rparr>"

lemma create_run_idempotent_witness:
  "fst (create_run steps_serde (\<lambda>_ _. QueryTimedOut) None ''u'' 3 sample_store ''{}'' [] ''key'') =
   sample_store"
proof -
  let ?c = "create_run steps_serde (\<lambda>_ _. QueryTimedOut) None ''u'' 3 sample_store ''{}'' [] ''key''"
  have none: "hm_get sample_store ''u'' = None" by code_simp
  have "isl (snd ?c) = False" by code_simp
  then obtain out where "?c = (fst ?c, Inr out)" by (cases ?c; cases "snd ?c") auto
  from create_run_idempotent [OF sample_wf sample_unique none this] show ?thesis
    by (auto simp: sample_store_def hm_get_def new_run_def split: if_splits)
qed

text \<open>
  C35: What a signal does, on every branch: an unknown run, a terminal run and a full buffer are
  refused without any change; otherwise the signal is appended behind the undelivered ones, the
  run becomes due at the time of delivery with no lease, and its version changes, so that the
  commit of a worker that was running without having seen the signal is a conflict.
\<close>

theorem deliver_signal_outcome:
  assumes "is_commit f"
  shows "case hm_get st i of
      None \<Rightarrow> deliver_signal sj t1 t2 st i nm pl = (st, Inl ''workflow run not found'')
    | Some r \<Rightarrow>
        if terminal_status (r_status r) then
          deliver_signal sj t1 t2 st i nm pl = (st, Inl ''workflow run is not active'')
        else if 1024 \<le> length (r_signals r) then
          deliver_signal sj t1 t2 st i nm pl =
            (st, Inl ''workflow run has too many undelivered signals'')
        else \<exists>r' sig. deliver_signal sj t1 t2 st i nm pl = (hm_put i r' st, Inr (run_json sj r')) \<and>
          r_signals r' = r_signals r @ [sig] \<and>
          jget sig ''name'' = Some (parse_or_null sj nm) \<and>
          jget sig ''payload'' = Some (parse_or_null sj pl) \<and>
          same_identity r r' \<and> is_due t1 r' = (0 \<le> t1) \<and>
          f (hm_put i r' st) i (r_version r) = (hm_put i r' st, Conflict i)"
proof (cases "hm_get st i")
  case None
  then show ?thesis by (simp add: deliver_signal_def)
next
  case (Some r)
  let ?sig = "JObj (obj_of [(''name'', parse_or_null sj nm), (''payload'', parse_or_null sj pl)])"
  let ?r' = "r\<lparr>r_signals := r_signals r @ [?sig], r_next_run_at_ms := t1, r_lease_until_ms := 0,
     r_updated_at := t2, r_version := r_version r + 1\<rparr>"
  have "f (hm_put i ?r' st) i (r_version r) = (hm_put i ?r' st, Conflict i)"
    by (rule optimistic_commit.refused_law [OF is_commit_contract [OF assms], of _ _ ?r']) simp_all
  moreover have "jget ?sig ''name'' = Some (parse_or_null sj nm)"
    "jget ?sig ''payload'' = Some (parse_or_null sj pl)" by (simp_all add: obj_get_obj_of)
  ultimately show ?thesis
    using Some
    by (auto simp: deliver_signal_def Let_def MAX_PENDING_SIGNALS_def same_identity_def is_due_def
        intro!: exI [of _ ?r'] exI [of _ ?sig])
qed

lemma deliver_signal_outcome_witness:
  "\<exists>r'. repark_wait sample_serde 9 (hm_put ''r'' r' sample_store) ''r'' 0 =
     (hm_put ''r'' r' sample_store, Conflict ''r'') \<and> length (r_signals r') = 1"
proof -
  let ?r = "new_run ''r'' 5 ''d'' JNull [JNull, JNull] (JObj []) ''key''"
  have r: "hm_get sample_store ''r'' = Some ?r" by (simp add: sample_store_def hm_get_def)
  have "r_version ?r = 0" "r_signals ?r = []" "\<not> terminal_status (r_status ?r)"
    by (simp_all add: new_run_def terminal_status_def)
  then show ?thesis
    using deliver_signal_outcome [OF is_commit.intros(8) [of sample_serde 9], where st = sample_store
        and i = "''r''" and sj = sample_serde and ?t1.0 = 6 and ?t2.0 = 6 and nm = "[]" and pl = "[]"]
    unfolding r by auto
qed

end
