(* ===== verification/Policy_Props.thy ===== *)
theory Policy_Props
  imports Definition
begin

section \<open>Properties of the runtime policy, the commands and the SQL\<close>

text \<open>
  The claims on \<open>src/runtime.rs\<close> and \<open>src/definition.rs\<close>: untrusted text (identifiers, reuse
  keys, images, organizations) cannot leave the SQL literal, shell word or JSON string it is
  put in; the policy on runtimes and limits; the isolation of worker keys.
\<close>

subsection \<open>Validators\<close>

text \<open>
  What a validator promises to the code that splices the text it accepts: only letters, digits
  and the characters of \<open>._:/@-\<close>.
\<close>

definition word_char :: "char \<Rightarrow> bool" where
  "word_char c \<longleftrightarrow> in_class ''._:/@-'' c"

lemma word_char_class: "set extra \<subseteq> set ''._:/@-'' \<Longrightarrow> in_class extra c \<Longrightarrow> word_char c"
  by (auto simp: word_char_def in_class_def)

lemma not_word_char:
  "\<not> word_char squote" "\<not> word_char dquote" "\<not> word_char (CHR 0x5C)" "\<not> word_char (CHR 0x20)"
  "\<not> word_char (CHR 0x0A)" "\<not> word_char (CHR 0x0D)" "\<not> word_char (CHR 0x09)"
  "\<not> word_char (CHR ''$'')" "\<not> word_char (CHR ''%'')" "\<not> word_char (CHR '';'')"
  by (simp_all add: word_char_def in_class_def ascii_class_defs squote_def dquote_def)

locale word_validator =
  fixes valid :: "string \<Rightarrow> bool"
  assumes valid_word: "valid s \<Longrightarrow> list_all word_char s"
begin

lemma avoids: "valid s \<Longrightarrow> \<not> word_char c \<Longrightarrow> c \<notin> set s"
  using valid_word by (auto simp: list_all_iff)

lemma json_plain: "valid s \<Longrightarrow> json_escape s = s"
proof -
  assume v: "valid s"
  have skip: "c \<notin> set s \<Longrightarrow> str_replace [c] r s = s" for c r
    unfolding str_replace_single by (induction s) auto
  show ?thesis
    using avoids [OF v] not_word_char by (simp add: json_escape_def skip dquote_def)
qed

lemma shell_plain: "valid s \<Longrightarrow> shell_word s = squote # s @ [squote]"
proof -
  assume v: "valid s"
  have "c \<notin> set s \<Longrightarrow> str_replace [c] r s = s" for c r
    unfolding str_replace_single by (induction s) auto
  with avoids [OF v] not_word_char show ?thesis by (simp add: shell_word_def)
qed

end

lemma list_all_split_on:
  assumes "list_all (list_all P) (split_on c s)" and "P c"
  shows "list_all P s"
  using assms(1)
proof (induction s)
  case (Cons x xs)
  then show ?case
    using assms(2) by (cases "split_on c xs") (auto split: if_splits)
qed simp

interpretation reuse_key: word_validator safe_reuse_key
  by unfold_locales
    (auto simp: safe_reuse_key_def list_all_iff word_char_def in_class_def split: list.splits)

interpretation container_image: word_validator safe_container_image
  by unfold_locales
    (auto simp: safe_container_image_def list_all_iff word_char_def in_class_def split: list.splits)

interpretation uuid: word_validator is_uuid
proof
  fix s
  assume "is_uuid s"
  then have "list_all (list_all is_ascii_hexdigit) (split_on (CHR ''-'') s)"
    by (simp add: is_uuid_def)
  moreover have "is_ascii_hexdigit c \<Longrightarrow> word_char c" for c
    by (auto simp: word_char_def in_class_def ascii_class_defs)
  ultimately have "list_all (list_all word_char) (split_on (CHR ''-'') s)"
    by (auto simp: list_all_iff)
  then show "list_all word_char s"
    by (rule list_all_split_on) (simp add: word_char_def in_class_def)
qed

interpretation slug: word_validator is_slug
  by unfold_locales
    (auto simp: is_slug_def list_all_iff slug_char_def word_char_def in_class_def
      is_ascii_alphanumeric_def)

interpretation org_id: word_validator valid_org_id
  by unfold_locales
    (auto simp: valid_org_id_def list_all_iff org_char_def word_char_def in_class_def)

interpretation pool_slug: word_validator safe_pool_slug
  by unfold_locales (auto simp: safe_pool_slug_def list_all_iff word_char_def in_class_def)

interpretation pool_language: word_validator safe_pool_language
  by unfold_locales (auto simp: safe_pool_language_def list_all_iff word_char_def in_class_def)

interpretation nats_subject: word_validator safe_nats_subject
proof
  fix s
  assume "safe_nats_subject s"
  then have "list_all (list_all word_char) (split_on (CHR ''.'') s)"
    by (auto simp: safe_nats_subject_def list_all_iff word_char_def in_class_def)
  then show "list_all word_char s"
    by (rule list_all_split_on) (simp add: word_char_def in_class_def)
qed

subsection \<open>SQL\<close>

text \<open>
  How SQL reads a statement, as far as literals go: outside a literal a quote opens one; inside,
  the next quote closes it (a doubled quote reads as two adjacent literals). \<open>sql_skeleton\<close>
  is the statement with the contents of its literals blanked out.
\<close>

fun sql_skeleton :: "bool \<Rightarrow> string \<Rightarrow> string" where
  "sql_skeleton inside [] = (if inside then ''?'' else [])"
| "sql_skeleton False (c # s) = (if c = squote then c # sql_skeleton True s else c # sql_skeleton False s)"
| "sql_skeleton True (c # s) = (if c = squote then c # sql_skeleton False s else sql_skeleton True s)"

definition sql_closed :: "string \<Rightarrow> bool" where
  "sql_closed s \<longleftrightarrow> (\<forall>r. sql_skeleton False (s @ r) = sql_skeleton False s @ sql_skeleton False r)"

lemma squote_iff: "c = squote \<longleftrightarrow> c = CHR 0x27" "squote = c \<longleftrightarrow> CHR 0x27 = c"
  by (simp_all add: squote_def)

lemma byte_high: "byte c div 16 < 16"
  by (simp add: byte_def less_mult_imp_div_less)

lemma skeleton_plain: "squote \<notin> set s \<Longrightarrow> sql_skeleton False (s @ r) = s @ sql_skeleton False r"
  by (induction s) auto

lemma skeleton_inside: "squote \<notin> set s \<Longrightarrow>
    sql_skeleton True (s @ squote # r) = squote # sql_skeleton False r"
  by (induction s) auto

lemma skeleton_lit:
  "squote \<notin> set s \<Longrightarrow> sql_skeleton False (sql_lit s @ r) = squote # squote # sql_skeleton False r"
  by (simp add: sql_lit_def skeleton_inside)

lemma sql_closed_append: "sql_closed s \<Longrightarrow> sql_closed t \<Longrightarrow> sql_closed (s @ t)"
  by (simp add: sql_closed_def)

lemma sql_closed_plain: "squote \<notin> set s \<Longrightarrow> sql_closed s"
  using skeleton_plain [of s "[]"] by (simp add: sql_closed_def skeleton_plain)

lemma sql_closed_Cons: "c \<noteq> squote \<Longrightarrow> sql_closed s \<Longrightarrow> sql_closed (c # s)"
  by (simp add: sql_closed_def)

lemma sql_closed_Nil: "sql_closed []"
  by (simp add: sql_closed_def)

lemma sql_closed_lit: "squote \<notin> set s \<Longrightarrow> sql_closed (sql_lit s)"
  using skeleton_lit [of s "[]"] by (simp add: sql_closed_def skeleton_lit)

lemma hex_digit_plain: "n < 16 \<Longrightarrow> hex_digit n \<noteq> squote"
proof -
  assume "n < 16"
  then have "n \<in> set [0..<16]" by simp
  then show ?thesis by (auto simp: hex_digit_def squote_def upt_rec)
qed

lemma hex_encode_plain: "squote \<notin> set (hex_encode s)"
proof -
  have "squote \<noteq> hex_digit (byte c div 16)" "squote \<noteq> hex_digit (byte c mod 16)" for c
    using hex_digit_plain [of "byte c div 16"] hex_digit_plain [of "byte c mod 16"] byte_high [of c]
    by auto
  then show ?thesis by (simp add: hex_encode_def)
qed

lemma sql_text_split: "sql_text v = ''convert_from(decode('' @ sql_lit (hex_encode v) @ '','' @
     sql_lit ''hex'' @ ''),'' @ sql_lit ''UTF8'' @ '')''"
  by (simp add: sql_text_def sql_lit_def)

lemma skeleton_sql_text:
  "sql_skeleton False (sql_text v @ r) = sql_skeleton False (sql_text [] @ r)"
  unfolding sql_text_split append_assoc
  by (simp add: skeleton_lit hex_encode_plain squote_iff)

text \<open>
  Inputs cannot change the statement. Whatever identifier of a kind and whatever
  organization text a definition is looked up with (the organization is not even validated
  here), the statement sent to psql is the same outside its string literals; and an identifier
  that is neither a UUID nor a slug yields no statement at all.
\<close>

theorem definition_sql_injection_free:
  assumes "identifier_kind_of i = identifier_kind_of j"
  shows "case (lambda_definition_sql (identifier_kind_of i) i (Some org),
               lambda_definition_sql (identifier_kind_of j) j (Some org')) of
      (Some sql, Some sql') \<Rightarrow> sql_skeleton False sql = sql_skeleton False sql' \<and>
        identifier_kind_of i \<noteq> Invalid
    | (None, None) \<Rightarrow> identifier_kind_of i = Invalid
    | _ \<Rightarrow> False"
proof -
  have quote: "squote \<notin> set k" if "identifier_kind_of k \<noteq> Invalid" for k
    using that uuid.avoids [of k squote] slug.avoids [of k squote] not_word_char(1)
    by (auto simp: identifier_kind_of_def split: if_splits)
  have skeleton: "sql_skeleton False (pre @ sql_lit i @ mid @ sql_text org @ post) =
      sql_skeleton False (pre @ sql_lit j @ mid @ sql_text org' @ post)"
    if "sql_closed pre" "sql_closed mid" "squote \<notin> set i" "squote \<notin> set j" for pre mid post
    using that skeleton_sql_text [of org post] skeleton_sql_text [of org' post]
    by (simp add: sql_closed_def skeleton_lit)
  have projection: "sql_closed projection"
    by (simp add: projection_def)
      (intro sql_closed_append sql_closed_Cons sql_closed_lit sql_closed_Nil; simp add: squote_iff)
  have pre: "sql_closed (''select jsonb_build_object('' @ projection @
      '')::text from lambda_functions as lambda_function_row where '' @ col)"
    if "squote \<notin> set col" for col
  proof -
    have "sql_closed ''select jsonb_build_object(''"
      "sql_closed (CHR '')'' # ''::text from lambda_functions as lambda_function_row where '')"
      "sql_closed col" using that by (simp_all add: sql_closed_plain squote_iff)
    from sql_closed_append [OF this(1) sql_closed_append [OF projection
        sql_closed_append [OF this(2,3)]]] show ?thesis by simp
  qed
  have mid: "sql_closed ('' and is_soft_deleted = false and meta_data->>'' @ sql_lit ''fiduciaOrgId'' @ '' = '')"
    by (intro sql_closed_append sql_closed_plain sql_closed_lit) (simp_all add: squote_iff)
  show ?thesis
    using skeleton [OF pre [of "''id = ''"] mid] skeleton [OF pre [of "''slug = ''"] mid]
      quote [of i] quote [of j] assms
    by (cases "identifier_kind_of j") (simp_all add: lambda_definition_sql_def Let_def squote_def)
qed

lemma definition_sql_injection_free_witness:
  "sql_skeleton False (the (lambda_definition_sql (identifier_kind_of ''abc'') ''abc''
      (Some (squote # '' or true --'')))) =
   sql_skeleton False (the (lambda_definition_sql (identifier_kind_of ''x-1'') ''x-1'' (Some ''org'')))"
proof -
  have "identifier_kind_of ''abc'' = Slug" "identifier_kind_of ''x-1'' = Slug" by code_simp+
  with definition_sql_injection_free [of "''abc''" "''x-1''" "squote # '' or true --''" "''org''"]
  show ?thesis by (auto split: option.splits)
qed

definition hex_value :: "char \<Rightarrow> nat option" where
  "hex_value c = (if is_ascii_digit c then Some (byte c - 48)
     else if 97 \<le> byte c \<and> byte c \<le> 102 then Some (byte c - 87) else None)"

fun hex_decode :: "string \<Rightarrow> string option" where
  "hex_decode [] = Some []"
| "hex_decode [c] = None"
| "hex_decode (c # d # s) =
     (case (hex_value c, hex_value d, hex_decode s) of
        (Some h, Some l, Some t) \<Rightarrow> Some (char_of (16 * h + l) # t) | _ \<Rightarrow> None)"

lemma hex_value_digit: "n < 16 \<Longrightarrow> hex_value (hex_digit n) = Some n"
proof -
  assume "n < 16"
  then have "n \<in> set [0..<16]" by simp
  then show ?thesis by (auto simp: hex_digit_def upt_rec hex_value_def ascii_class_defs)
qed

text \<open>
  The organization reaches the database exactly: \<open>convert_from(decode(..., 'hex'), 'UTF8')\<close>
  of the generated expression decodes to the bytes of the organization, for every byte string.
\<close>

theorem sql_text_exact:
  "sql_text v = ''convert_from(decode('' @ sql_lit (hex_encode v) @ '','' @ sql_lit ''hex'' @ ''),'' @
     sql_lit ''UTF8'' @ '')'' \<and> hex_decode (hex_encode v) = Some v \<and> squote \<notin> set (hex_encode v)"
proof (intro conjI sql_text_split hex_encode_plain)
  show "hex_decode (hex_encode v) = Some v"
  proof (induction v)
    case (Cons c v)
    have "hex_value (hex_digit (byte c div 16)) = Some (byte c div 16)"
      "hex_value (hex_digit (byte c mod 16)) = Some (byte c mod 16)"
      by (simp_all add: hex_value_digit byte_high)
    moreover have "char_of (16 * (byte c div 16) + byte c mod 16) = c" by (simp add: byte_def)
    ultimately show ?case using Cons by (simp add: hex_encode_def)
  qed (simp add: hex_encode_def)
qed

subsection \<open>Shell words\<close>

text \<open>
  How a POSIX shell reads the word at the start of its input: unquoted until a blank, literally
  between single quotes; between double quotes literally except for \<open>$\<close>, \<open>`\<close> and \<open>\\<close>.
  \<open>None\<close> on anything that expands, escapes, or ends inside a quotation.
\<close>

datatype quoting = Unquoted | Single | Double

definition shell_special :: "char \<Rightarrow> bool" where
  "shell_special c \<longleftrightarrow> c \<in> set ''$`&|;<>()*?[#~!{}'' \<or> c = CHR 0x5C \<or> c = CHR 0x0A"

fun sh_read :: "quoting \<Rightarrow> string \<Rightarrow> (string \<times> string) option" where
  "sh_read q [] = (if q = Unquoted then Some ([], []) else None)"
| "sh_read Unquoted (c # s) =
     (if c = CHR '' '' then Some ([], c # s)
      else if c = squote then sh_read Single s
      else if c = dquote then sh_read Double s
      else if shell_special c then None
      else map_option (\<lambda>(w, r). (c # w, r)) (sh_read Unquoted s))"
| "sh_read Single (c # s) =
     (if c = squote then sh_read Unquoted s else map_option (\<lambda>(w, r). (c # w, r)) (sh_read Single s))"
| "sh_read Double (c # s) =
     (if c = dquote then sh_read Unquoted s
      else if c \<in> set ''$`'' \<or> c = CHR 0x5C then None
      else map_option (\<lambda>(w, r). (c # w, r)) (sh_read Double s))"

lemma dquote_iff: "c = dquote \<longleftrightarrow> c = CHR 0x22" "dquote = c \<longleftrightarrow> CHR 0x22 = c"
  by (simp_all add: dquote_def)

text \<open>
  C27: Shell quoting is exact. For every byte string, the shell reads \<open>shell_word v\<close> back as the
  single word \<open>v\<close> and continues with the rest of the command: nothing in \<open>v\<close> is expanded,
  split, or run.
\<close>

theorem shell_word_exact:
  "sh_read Unquoted (shell_word v @ CHR '' '' # rest) = Some (v, CHR '' '' # rest)"
proof -
  have "sh_read Single (str_replace [squote] [squote, dquote, squote, dquote, squote] v @
      squote # CHR '' '' # rest) = Some (v, CHR '' '' # rest)"
  proof (induction v)
    case (Cons c v)
    then show ?case
      by (auto simp: str_replace_single squote_iff dquote_iff)
  qed (simp add: squote_iff)
  then show ?thesis by (simp add: shell_word_def squote_iff)
qed

subsection \<open>JSON payloads\<close>

lemma json_escape_char:
  "json_escape v = concat (map (\<lambda>c.
     if c = CHR 0x5C then [CHR 0x5C, CHR 0x5C] else if c = CHR 0x22 then [CHR 0x5C, CHR 0x22]
     else if c = CHR 0x0A then [CHR 0x5C, CHR ''n''] else if c = CHR 0x0D then [CHR 0x5C, CHR ''r'']
     else if c = CHR 0x09 then [CHR 0x5C, CHR ''t''] else [c]) v)"
  unfolding json_escape_def str_replace_single by (induction v) simp_all

lemma json_escape_Cons: "json_escape (c # v) = json_escape [c] @ json_escape v"
  by (simp add: json_escape_char)

lemma quoted_body_escape:
  "quoted_body (json_escape v @ CHR 0x22 # rest) = Some (json_escape v)"
proof (induction v)
  case (Cons c v)
  then show ?case
    by (subst (1 2) json_escape_Cons) (auto simp: json_escape_char [of "[c]"])
qed (simp add: json_escape_char)

text \<open>The two replacements of \<open>json_unescape\<close>, on an escaped text.\<close>

definition no_controls :: "string \<Rightarrow> bool" where
  "no_controls v \<longleftrightarrow> CHR 0x0A \<notin> set v \<and> CHR 0x0D \<notin> set v \<and> CHR 0x09 \<notin> set v"

lemma unescape_quotes:
  "no_controls v \<Longrightarrow> str_replace [CHR 0x5C, CHR 0x22] [CHR 0x22] (json_escape v) =
     concat (map (\<lambda>c. if c = CHR 0x5C then [CHR 0x5C, CHR 0x5C] else [c]) v)"
proof (induction v)
  case (Cons c v)
  have skip: "str_replace [CHR 0x5C, CHR 0x22] [CHR 0x22] (CHR 0x5C # CHR 0x5C # json_escape v) =
      CHR 0x5C # str_replace [CHR 0x5C, CHR 0x22] [CHR 0x22] (CHR 0x5C # json_escape v)"
    by (rule str_replace_skip) simp
  have "\<not> prefix [CHR 0x22] (json_escape v)"
    by (cases v) (auto simp: json_escape_char split: if_splits)
  then have skip2: "str_replace [CHR 0x5C, CHR 0x22] [CHR 0x22] (CHR 0x5C # json_escape v) =
      CHR 0x5C # str_replace [CHR 0x5C, CHR 0x22] [CHR 0x22] (json_escape v)"
    by (intro str_replace_skip) simp
  have match: "str_replace [CHR 0x5C, CHR 0x22] [CHR 0x22] (CHR 0x5C # CHR 0x22 # json_escape v) =
      CHR 0x22 # str_replace [CHR 0x5C, CHR 0x22] [CHR 0x22] (json_escape v)"
    using str_replace_match [of "[CHR 0x5C, CHR 0x22]" "[CHR 0x22]" "json_escape v"] by simp
  have other: "c \<noteq> CHR 0x5C \<Longrightarrow> str_replace [CHR 0x5C, CHR 0x22] [CHR 0x22] (c # json_escape v) =
      c # str_replace [CHR 0x5C, CHR 0x22] [CHR 0x22] (json_escape v)"
    by (intro str_replace_skip) simp
  from Cons show ?case
    by (subst json_escape_Cons)
      (auto simp: json_escape_char [of "[c]"] skip skip2 match other no_controls_def)
qed (simp add: json_escape_char)

lemma unescape_backslashes:
  "str_replace [CHR 0x5C, CHR 0x5C] [CHR 0x5C]
     (concat (map (\<lambda>c. if c = CHR 0x5C then [CHR 0x5C, CHR 0x5C] else [c]) v)) = v"
proof (induction v)
  case (Cons c v)
  let ?d = "concat (map (\<lambda>c. if c = CHR 0x5C then [CHR 0x5C, CHR 0x5C] else [c]) v)"
  have "str_replace [CHR 0x5C, CHR 0x5C] [CHR 0x5C] (CHR 0x5C # CHR 0x5C # ?d) =
      CHR 0x5C # str_replace [CHR 0x5C, CHR 0x5C] [CHR 0x5C] ?d"
    using str_replace_match [of "[CHR 0x5C, CHR 0x5C]" "[CHR 0x5C]" ?d] by simp
  moreover have "c \<noteq> CHR 0x5C \<Longrightarrow> str_replace [CHR 0x5C, CHR 0x5C] [CHR 0x5C] (c # ?d) =
      c # str_replace [CHR 0x5C, CHR 0x5C] [CHR 0x5C] ?d"
    by (intro str_replace_skip) simp
  ultimately show ?case using Cons by simp
qed simp

text \<open>
  The slug of an invocation payload is read back exactly: for a slug without newlines,
  carriage returns and tabs (quotes and backslashes allowed), a runner that extracts the field
  \<open>slug\<close> from the payload gets the slug, whatever the definition and the request contain.
\<close>

theorem invocation_payload_slug:
  assumes "no_controls slug"
  shows "json_string_field (invocation_payload slug def request) ''slug'' = slug"
proof -
  let ?rest = "'','' @ [CHR 0x22] @ ''definition'' @ [CHR 0x22] @ '':'' @ def @ '','' @ [CHR 0x22] @
    ''request'' @ [CHR 0x22] @ '':'' @ request @ ''}''"
  let ?field = "[CHR 0x22] @ ''slug'' @ [CHR 0x22] @ '':'' @ [CHR 0x22] @ json_escape slug @ [CHR 0x22] @ ?rest"
  have payload: "invocation_payload slug def request = CHR ''{'' # ?field"
    by (simp add: invocation_payload_def)
  have ws: "trim_start (CHR '':'' # r) = CHR '':'' # r" "trim_start (CHR 0x22 # r) = CHR 0x22 # r" for r
    by (rule trim_start_other, code_simp)+
  have "string_field_at ''slug'' ?field = Some (json_escape slug)"
    by (simp add: string_field_at_def after_key_def Let_def ws quoted_body_escape)
  moreover have "string_field_at ''slug'' (CHR ''{'' # ?field) = None"
    by (simp add: string_field_at_def after_key_def)
  ultimately have "search (string_field_at ''slug'') (CHR ''{'' # ?field) = Some (json_escape slug)"
    by simp
  then show ?thesis
    unfolding payload
    by (simp only: json_string_field_def option.case json_unescape_def
        unescape_quotes [OF assms] unescape_backslashes)
qed

lemma invocation_payload_slug_witness:
  "json_string_field (invocation_payload [CHR 0x22, CHR 0x5C, CHR ''a''] ''{}'' ''null'') ''slug'' =
     [CHR 0x22, CHR 0x5C, CHR ''a'']"
  by (rule invocation_payload_slug) (simp add: no_controls_def)

subsection \<open>Execution policy\<close>

text \<open>What every container command ends with: the sandbox options, then the image.\<close>

definition sandbox_options :: string where
  "sandbox_options = '' run --rm -i --pull=never --read-only --tmpfs /tmp:rw,noexec,nosuid,size=16m --network ''"

definition privilege_options :: string where
  "privilege_options = '' --user 10001:10001 --cap-drop ALL --security-opt no-new-privileges --pids-limit 64 --ulimit nofile=64:64 --memory ''"

text \<open>
  C26: Containers are sandboxed. Whatever the definition and the environment say, a container
  command runs a validated image, named as the last word of the command, with a read-only root,
  no pull, a dropped user, no capabilities, no new privileges and limits on processes, files,
  memory and CPU.
\<close>

theorem container_sandboxed:
  assumes "container_command env rt def = Inr cmd"
  shows "\<exists>start network memory cpus img. safe_container_image img \<and>
    cmd = start @ sandbox_options @ shell_word network @ privilege_options @ shell_word memory @
      '' --cpus '' @ shell_word cpus @ '' '' @ squote # img @ [squote] \<and>
    (json_string_field def ''containerBuildStatus'' \<noteq> ''built'' \<longrightarrow> img = default_container_image env rt)"
proof -
  let ?image0 = "if json_string_field def ''containerBuildStatus'' = ''built''
    then json_string_field def ''containerImage'' else []"
  let ?img = "if ?image0 = [] then default_container_image env rt else ?image0"
  from assms have safe: "safe_container_image ?img"
    by (auto simp: container_command_def Let_def split: if_splits)
  let ?args = "docker_compatible_run_args (env_binary env ''LAMBDA_CONTAINER_NETWORK'' ''bridge'')
    (env_binary env ''LAMBDA_CONTAINER_MEMORY'' ''256m'')
    (env_binary env ''LAMBDA_CONTAINER_CPUS'' ''0.50'') ?img"
  let ?wrap = "wrap_with_timeout (env_binary env ''LAMBDA_CONTAINER_INVOKE_TIMEOUT_SECONDS'' ''120'')"
  have wrap: "\<exists>pre. wrap_with_timeout t (x @ args) = pre @ args" for t x args
    by (cases "safe_timeout_value t") (auto simp: wrap_with_timeout_def)
  have "cmd = ?wrap (shell_word (env_binary env ''LAMBDA_CONTAINER_DOCKER'' ''/usr/bin/docker'') @ ?args) \<or>
      cmd = ?wrap (shell_word (env_binary env ''LAMBDA_CONTAINER_PODMAN'' ''/usr/bin/podman'') @ ?args) \<or>
      cmd = ?wrap (shell_word (env_binary env ''LAMBDA_CONTAINER_NERDCTL'' ''/usr/local/bin/nerdctl'') @
        '' -n '' @ shell_word (env_binary env ''LAMBDA_CONTAINER_NAMESPACE'' ''dd-lambda'') @ ?args)"
    using assms unfolding container_command_def Let_def by (simp split: if_split_asm)
  then obtain x where "cmd = ?wrap (x @ ?args)"
  proof (elim disjE)
    assume "cmd = ?wrap (shell_word (env_binary env ''LAMBDA_CONTAINER_NERDCTL'' ''/usr/local/bin/nerdctl'') @
        '' -n '' @ shell_word (env_binary env ''LAMBDA_CONTAINER_NAMESPACE'' ''dd-lambda'') @ ?args)"
    then show thesis
      by (intro that [of "shell_word (env_binary env ''LAMBDA_CONTAINER_NERDCTL'' ''/usr/local/bin/nerdctl'') @
          '' -n '' @ shell_word (env_binary env ''LAMBDA_CONTAINER_NAMESPACE'' ''dd-lambda'')"])
        (simp only: append_assoc)
  qed (rule that, assumption)+
  moreover from wrap obtain pre where "?wrap (x @ ?args) = pre @ ?args" by blast
  ultimately have "cmd = pre @ ?args" by (rule trans)
  then have cmd: "cmd = pre @ sandbox_options @ shell_word (env_binary env ''LAMBDA_CONTAINER_NETWORK'' ''bridge'') @
      privilege_options @ shell_word (env_binary env ''LAMBDA_CONTAINER_MEMORY'' ''256m'') @ '' --cpus '' @
      shell_word (env_binary env ''LAMBDA_CONTAINER_CPUS'' ''0.50'') @ '' '' @ shell_word ?img"
    unfolding docker_compatible_run_args_def sandbox_options_def privilege_options_def .
  have "json_string_field def ''containerBuildStatus'' \<noteq> ''built'' \<longrightarrow> ?img = default_container_image env rt"
    by simp
  with cmd [unfolded container_image.shell_plain [OF safe]] safe show ?thesis
    by (intro exI conjI)
qed

lemma container_sandboxed_witness:
  "\<exists>start network memory cpus img. safe_container_image img \<and>
    projr (container_command Map.empty ''ruby'' ''{}'') = start @ sandbox_options @ shell_word network @
      privilege_options @ shell_word memory @ '' --cpus '' @ shell_word cpus @ '' '' @
      squote # img @ [squote]"
proof -
  have "isl (container_command Map.empty ''ruby'' ''{}'') = False" by code_simp
  then have "container_command Map.empty ''ruby'' ''{}'' =
      Inr (projr (container_command Map.empty ''ruby'' ''{}''))"
    by (cases "container_command Map.empty ''ruby'' ''{}''") auto
  from container_sandboxed [OF this] show ?thesis by blast
qed

lemma canonical_idem: "canonical_runtime (canonical_runtime r) = canonical_runtime r"
  by (simp add: canonical_runtime_def)

text \<open>
  What a definition may run. A command is only produced for a supported runtime, under its
  canonical name; outside a container only for a runtime the operator has put on the host
  allow-list; and the names of that list are canonical, so an alias on it counts.
\<close>

theorem command_policy:
  assumes "command_for_definition env fallback def = Inr cmd"
  shows "supported_runtime (runtime_from_definition def) \<and>
    canonical_runtime (runtime_from_definition def) = runtime_from_definition def \<and>
    (if json_bool_field def ''containerized'' False
     then container_command env (runtime_from_definition def) def = Inr cmd
     else runtime_from_definition def \<in> set (csv_env env ''LAMBDA_ALLOW_HOST_RUNTIMES''
         ''nodejs,playwright,puppeteer'')) \<and>
    (\<forall>r \<in> set (csv_env env ''LAMBDA_ALLOW_HOST_RUNTIMES'' ''nodejs,playwright,puppeteer'').
       canonical_runtime r = r)"
proof (intro conjI)
  show "supported_runtime (runtime_from_definition def)"
    using assms by (simp add: command_for_definition_def Let_def split: if_split_asm)
  show "canonical_runtime (runtime_from_definition def) = runtime_from_definition def"
    by (simp only: runtime_from_definition_def canonical_idem)
  show "if json_bool_field def ''containerized'' False
     then container_command env (runtime_from_definition def) def = Inr cmd
     else runtime_from_definition def \<in> set (csv_env env ''LAMBDA_ALLOW_HOST_RUNTIMES''
         ''nodejs,playwright,puppeteer'')"
    using assms by (cases "json_bool_field def ''containerized'' False")
      (simp_all add: command_for_definition_def Let_def host_runtime_allowed_def split: if_split_asm)
  show "\<forall>r \<in> set (csv_env env ''LAMBDA_ALLOW_HOST_RUNTIMES'' ''nodejs,playwright,puppeteer'').
       canonical_runtime r = r"
    unfolding csv_env_def using canonical_idem by (simp only: set_map ball_simps(9) ball_triv) blast
qed

definition contained_definition :: string where
  "contained_definition = map (\<lambda>c. if c = CHR ''~'' then CHR 0x22 else c) ''{~containerized~:true}''"

lemma command_policy_witness:
  "supported_runtime (runtime_from_definition contained_definition) \<and>
   isl (command_for_definition Map.empty [] contained_definition) = False"
proof -
  have r: "isl (command_for_definition Map.empty [] contained_definition) = False" by code_simp
  then obtain cmd where "command_for_definition Map.empty [] contained_definition = Inr cmd"
    by (cases "command_for_definition Map.empty [] contained_definition") simp_all
  from conjunct1 [OF command_policy [OF this]] r show ?thesis by (rule conjI)
qed

subsection \<open>Limits and worker keys\<close>

lemma unat_max_i: "in_i64 x \<Longrightarrow> 1000 \<le> unat (i64_as_u64 (max_i x 1000)) \<and> unat (i64_as_u64 (max_i x 1000)) < 2 ^ 63"
proof -
  assume "in_i64 x"
  then have "in_i64 (max_i x 1000)" "1000 \<le> max_i x 1000"
    by (auto simp: max_i_def in_i64_def i64_max_def i64_min_def)
  then have "unat (i64_as_u64 (max_i x 1000)) = nat (max_i x 1000)" by (intro unat_i64_as_u64) simp_all
  moreover have "max_i x 1000 \<le> 9223372036854775807"
    using \<open>in_i64 (max_i x 1000)\<close> by (simp add: in_i64_def i64_max_def)
  ultimately show ?thesis using \<open>1000 \<le> max_i x 1000\<close> by (simp; linarith)
qed

lemma json_int_field_in: "in_i64 d \<Longrightarrow> in_i64 (json_int_field def f d)"
  by (auto simp: json_int_field_def parse_i64_def Let_def split: option.split list.split if_splits)

lemma u64_as_i64_in: "in_i64 (u64_as_i64 w)"
  using sint_greater_eq [of w] sint_lt [of w]
  by (simp add: u64_as_i64_def in_i64_def i64_min_def i64_max_def)

text \<open>
  Limits are sane for every definition and every fallback, also where the multiplication of
  the idle seconds wraps or the fallback does not fit an \<open>i64\<close>: both limits are at least one
  second and below 2^63 milliseconds (they never become a huge unsigned value).
\<close>

theorem limits_bounded:
  "1000 \<le> unat (idle_ms_from_definition def fallback) \<and>
   unat (idle_ms_from_definition def fallback) < 2 ^ 63 \<and>
   1000 \<le> unat (timeout_ms_from_definition def fallback) \<and>
   unat (timeout_ms_from_definition def fallback) < 2 ^ 63"
proof -
  have z: "in_i64 0" by (simp add: in_i64_def i64_min_def i64_max_def)
  have mul: "in_i64 (i64_mul a b)" for a b by (simp add: i64_mul_def)
  show ?thesis
    using unat_max_i [OF mul [of "json_int_field def ''idleTimeoutSeconds'' 0" 1000]]
      unat_max_i [OF u64_as_i64_in [of fallback]]
      unat_max_i [OF json_int_field_in [OF z, of def "''maxRunMs''"]]
    by (simp add: idle_ms_from_definition_def timeout_ms_from_definition_def Let_def)
qed

lemma identifier_no_colon: "identifier_kind_of i \<noteq> Invalid \<Longrightarrow> CHR '':'' \<notin> set i"
proof
  assume i: "identifier_kind_of i \<noteq> Invalid" and colon: "CHR '':'' \<in> set i"
  show False
  proof (cases "is_uuid i")
    case True
    then have "list_all (list_all is_ascii_hexdigit) (split_on (CHR ''-'') i)"
      by (simp add: is_uuid_def)
    moreover have "is_ascii_hexdigit c \<Longrightarrow> c \<noteq> CHR '':''" for c
      by (auto simp: ascii_class_defs)
    ultimately have "list_all (list_all (\<lambda>c. c \<noteq> CHR '':'')) (split_on (CHR ''-'') i)"
      by (auto simp: list_all_iff)
    then have "list_all (\<lambda>c. c \<noteq> CHR '':'') i" by (rule list_all_split_on) simp
    with colon show False by (auto simp: list_all_iff)
  next
    case False
    with i have "is_slug i" by (auto simp: identifier_kind_of_def split: if_splits)
    with colon show False
      by (auto simp: is_slug_def list_all_iff slug_char_def ascii_class_defs)
  qed
qed

text \<open>
  Worker keys isolate functions. If two invocations share a worker key, either both come
  from definitions without a reuse key (the anonymous pool of the runtime), or both name the
  same function and the same reuse key: a key of one function is never the key of another one,
  and never the key of a pool.
\<close>

theorem worker_key_isolates:
  assumes "worker_key i def rt cont = Inr k" and "worker_key i' def' rt' cont' = Inr k"
    and "identifier_kind_of i \<noteq> Invalid" and "identifier_kind_of i' \<noteq> Invalid"
  shows "json_string_field def ''reuseKey'' = json_string_field def' ''reuseKey'' \<and>
    (if json_string_field def ''reuseKey'' = [] then cont = cont' \<and> rt = rt' else i = i')"
proof -
  let ?p = "\<lambda>c. c \<noteq> CHR '':''"
  have head: "takeWhile ?p (j @ CHR '':'' # x) = j" and tail: "dropWhile ?p (j @ CHR '':'' # x) = CHR '':'' # x"
    if "identifier_kind_of j \<noteq> Invalid" for j x
  proof -
    have "\<And>c. c \<in> set j \<Longrightarrow> ?p c" using identifier_no_colon [OF that] by auto
    then show "takeWhile ?p (j @ CHR '':'' # x) = j" "dropWhile ?p (j @ CHR '':'' # x) = CHR '':'' # x"
      by (simp_all add: takeWhile_append2 dropWhile_append2)
  qed
  have eq: "i = i' \<and> x = x'" if "i @ CHR '':'' # x = i' @ CHR '':'' # x'" for x x'
    using that head [OF assms(3), of x] head [OF assms(4), of x'] tail [OF assms(3), of x]
      tail [OF assms(4), of x'] by simp
  let ?r = "json_string_field def ''reuseKey''" and ?r' = "json_string_field def' ''reuseKey''"
  have k: "k = (if ?r = [] then if cont then ''pool:container:'' @ rt else ''pool:host:'' @ rt
      else ''function:'' @ i @ '':'' @ ?r)"
    using assms(1) by (simp add: worker_key_def Let_def split: if_split_asm)
  have k': "k = (if ?r' = [] then if cont' then ''pool:container:'' @ rt' else ''pool:host:'' @ rt'
      else ''function:'' @ i' @ '':'' @ ?r')"
    using assms(2) by (simp add: worker_key_def Let_def split: if_split_asm)
  show ?thesis
  proof (cases "?r = []"; cases "?r' = []")
    assume "?r \<noteq> []" "?r' \<noteq> []"
    with k k' have "i @ CHR '':'' # ?r = i' @ CHR '':'' # ?r'" by simp
    from eq [OF this] \<open>?r \<noteq> []\<close> show ?thesis by simp
  qed (use k k' in \<open>simp_all split: if_split_asm\<close>)
qed

lemma worker_key_isolates_witness:
  "worker_key ''abc'' ''{}'' ''ruby'' True = Inr ''pool:container:ruby'' \<and>
   json_string_field ''{}'' ''reuseKey'' = json_string_field '' {}'' ''reuseKey''"
proof -
  have k: "worker_key ''abc'' ''{}'' ''ruby'' True = Inr ''pool:container:ruby''"
    "worker_key ''x-1'' '' {}'' ''ruby'' True = Inr ''pool:container:ruby''"
    "identifier_kind_of ''abc'' \<noteq> Invalid" "identifier_kind_of ''x-1'' \<noteq> Invalid" by code_simp+
  from worker_key_isolates [OF k] k(1) show ?thesis by blast
qed



end
