(* ===== verification/Metrics.thy ===== *)
theory Metrics
  imports Rust_Text
begin

section \<open>Process metrics\<close>

text \<open>
  The model of \<open>src/metrics.rs\<close>: the record of the counters the macro \<open>counters!\<close> declares
  (each method \<open>name(by)\<close> is a wrapping \<open>fetch_add\<close>), and the Prometheus text \<open>render\<close>
  prints. The lemmas show that the text can be scraped: every series reads back as its value.
\<close>

record metrics =
  mt_invocations_total :: u64
  mt_child_spawns_total :: u64
  mt_child_reuses_total :: u64
  mt_child_destroys_total :: u64
  mt_child_exits_total :: u64
  mt_invocation_timeouts_total :: u64
  mt_child_stdio_bytes_total :: u64
  mt_pool_dispatch_total :: u64
  mt_pool_dispatch_failures_total :: u64
  mt_nats_connect_attempts_total :: u64
  mt_nats_connect_failures_total :: u64
  mt_nats_event_published_total :: u64
  mt_nats_core_fallback_total :: u64
  mt_nats_publish_failures_total :: u64
  mt_nats_serialization_failures_total :: u64
  mt_nats_unconfigured_skips_total :: u64
  mt_nats_unavailable_drops_total :: u64
  mt_function_definitions_created_total :: u64
  mt_function_definitions_updated_total :: u64
  mt_function_definitions_deleted_total :: u64
  mt_function_definitions_paused_total :: u64
  mt_function_definition_checks_total :: u64
  mt_function_definition_check_failures_total :: u64
  mt_function_invocation_failures_total :: u64
  mt_tenant_auth_rejections_total :: u64

definition zero_metrics :: metrics where
  "zero_metrics = \<lparr> mt_invocations_total = 0,
     mt_child_spawns_total = 0,
     mt_child_reuses_total = 0,
     mt_child_destroys_total = 0,
     mt_child_exits_total = 0,
     mt_invocation_timeouts_total = 0,
     mt_child_stdio_bytes_total = 0,
     mt_pool_dispatch_total = 0,
     mt_pool_dispatch_failures_total = 0,
     mt_nats_connect_attempts_total = 0,
     mt_nats_connect_failures_total = 0,
     mt_nats_event_published_total = 0,
     mt_nats_core_fallback_total = 0,
     mt_nats_publish_failures_total = 0,
     mt_nats_serialization_failures_total = 0,
     mt_nats_unconfigured_skips_total = 0,
     mt_nats_unavailable_drops_total = 0,
     mt_function_definitions_created_total = 0,
     mt_function_definitions_updated_total = 0,
     mt_function_definitions_deleted_total = 0,
     mt_function_definitions_paused_total = 0,
     mt_function_definition_checks_total = 0,
     mt_function_definition_check_failures_total = 0,
     mt_function_invocation_failures_total = 0,
     mt_tenant_auth_rejections_total = 0 \<rparr>"

text \<open>\<open>line\<close> and \<open>block\<close> of \<open>render\<close>: two comment lines, then the sample.\<close>

definition metric_label :: string where
  \<open>metric_label = ''{service="dd-fiducia-lambda-service"} ''\<close>

definition metric_line :: "string \<Rightarrow> u64 \<Rightarrow> string" where
  "metric_line name v = name @ metric_label @ show_nat (unat v) @ [CHR 0x0A]"

definition metric_block :: "string \<times> string \<times> string \<times> u64 \<Rightarrow> string" where
  "metric_block row =
     (case row of (name, help, ty, v) \<Rightarrow>
        ''# HELP '' @ name @ '' '' @ help @ [CHR 0x0A] @
        ''# TYPE '' @ name @ '' '' @ ty @ [CHR 0x0A] @ metric_line name v)"

text \<open>The series in the order of \<open>render\<close>: the runner, NATS, the function API, the workers.\<close>

definition runner_rows :: "metrics \<Rightarrow> (string \<times> string \<times> string \<times> u64) list" where
  "runner_rows m =
     [(''dd_lambda_runner_invocations_total'',
       ''Lambda invocations handled by the runner.'', ''counter'', mt_invocations_total m),
      (''dd_lambda_runner_child_spawns_total'',
       ''Child processes spawned by the runner.'', ''counter'', mt_child_spawns_total m),
      (''dd_lambda_runner_child_reuses_total'',
       ''Child process reuse hits.'', ''counter'', mt_child_reuses_total m),
      (''dd_lambda_runner_child_destroys_total'',
       ''Child processes destroyed by idle reaping or command changes.'', ''counter'', mt_child_destroys_total m),
      (''dd_lambda_runner_child_exits_total'',
       ''Child processes that exited during invocation.'', ''counter'', mt_child_exits_total m),
      (''dd_lambda_runner_invocation_timeouts_total'',
       ''Lambda child invocations that timed out.'', ''counter'', mt_invocation_timeouts_total m),
      (''dd_lambda_runner_child_stdio_bytes_total'',
       ''Bytes read from child process stdio.'', ''counter'', mt_child_stdio_bytes_total m),
      (''dd_lambda_runner_pool_dispatch_total'',
       ''Invocations dispatched to dd-container-pool over NATS.'', ''counter'', mt_pool_dispatch_total m),
      (''dd_lambda_runner_pool_dispatch_failures_total'',
       ''Container-pool dispatches that failed (before any local fallback).'', ''counter'', mt_pool_dispatch_failures_total m)]"

definition nats_rows :: "metrics \<Rightarrow> (string \<times> string \<times> string \<times> u64) list" where
  "nats_rows m =
     [(''dd_lambda_runner_nats_connect_attempts_total'',
       ''Initial NATS connection attempts, including bounded retries.'', ''counter'', mt_nats_connect_attempts_total m),
      (''dd_lambda_runner_nats_connect_failures_total'',
       ''Failed initial NATS connection attempts.'', ''counter'', mt_nats_connect_failures_total m),
      (''dd_lambda_runner_nats_event_published_total'',
       ''Lifecycle events acknowledged by JetStream.'', ''counter'', mt_nats_event_published_total m),
      (''dd_lambda_runner_nats_core_fallback_total'',
       ''Lifecycle events accepted by Core NATS after a JetStream failure.'', ''counter'', mt_nats_core_fallback_total m),
      (''dd_lambda_runner_nats_publish_failures_total'',
       ''NATS lifecycle events that failed after fallback.'', ''counter'', mt_nats_publish_failures_total m),
      (''dd_lambda_runner_nats_serialization_failures_total'',
       ''Invalid lifecycle envelopes refused before NATS publish.'', ''counter'', mt_nats_serialization_failures_total m),
      (''dd_lambda_runner_nats_unconfigured_skips_total'',
       ''NATS publishes intentionally skipped because NATS is not configured.'', ''counter'', mt_nats_unconfigured_skips_total m),
      (''dd_lambda_runner_nats_unavailable_drops_total'',
       ''NATS publishes dropped while the configured broker was unavailable.'', ''counter'', mt_nats_unavailable_drops_total m)]"

definition function_rows :: "metrics \<Rightarrow> (string \<times> string \<times> string \<times> u64) list" where
  "function_rows m =
     [(''fiducia_lambda_function_definitions_created_total'',
       ''Tenant-scoped function definitions created.'', ''counter'', mt_function_definitions_created_total m),
      (''fiducia_lambda_function_definitions_updated_total'',
       ''Tenant-scoped function definitions updated.'', ''counter'', mt_function_definitions_updated_total m),
      (''fiducia_lambda_function_definitions_deleted_total'',
       ''Tenant-scoped function definitions soft-deleted.'', ''counter'', mt_function_definitions_deleted_total m),
      (''fiducia_lambda_function_definitions_paused_total'',
       ''Tenant-scoped function definitions paused.'', ''counter'', mt_function_definitions_paused_total m),
      (''fiducia_lambda_function_definition_checks_total'',
       ''Sandbox checks requested for tenant function definitions.'', ''counter'', mt_function_definition_checks_total m),
      (''fiducia_lambda_function_definition_check_failures_total'',
       ''Sandbox checks that failed or rejected a tenant function definition.'', ''counter'', mt_function_definition_check_failures_total m),
      (''fiducia_lambda_function_invocation_failures_total'',
       ''Tenant function invocations that failed.'', ''counter'', mt_function_invocation_failures_total m),
      (''fiducia_lambda_tenant_auth_rejections_total'',
       ''Requests rejected for missing service authentication or tenant scope.'', ''counter'', mt_tenant_auth_rejections_total m)]"

definition metric_rows :: "metrics \<Rightarrow> nat \<Rightarrow> (string \<times> string \<times> string \<times> u64) list" where
  "metric_rows m active_workers = runner_rows m @ nats_rows m @ function_rows m @
     [(''dd_lambda_runner_active_workers'',
       ''Active reusable child processes.'', ''gauge'', of_nat active_workers)]"

lemmas metric_rows_defs = metric_rows_def runner_rows_def nats_rows_def function_rows_def

definition metrics_render :: "metrics \<Rightarrow> nat \<Rightarrow> string" where
  "metrics_render m active_workers = concat (map metric_block (metric_rows m active_workers))"

subsection \<open>Scraping\<close>

text \<open>How a scraper reads one series: the first line that starts with its name and label set.\<close>

fun sample_in :: "string \<Rightarrow> string list \<Rightarrow> nat option" where
  "sample_in name [] = None"
| "sample_in name (l # ls) =
     (if prefix (name @ metric_label) l then parse_digits (drop (length (name @ metric_label)) l)
      else sample_in name ls)"

definition sample_value :: "string \<Rightarrow> string \<Rightarrow> nat option" where
  "sample_value name text = sample_in name (split_on (CHR 0x0A) text)"

definition row_ok :: "string \<times> string \<times> string \<times> u64 \<Rightarrow> bool" where
  "row_ok row \<longleftrightarrow> (case row of (name, help, ty, v) \<Rightarrow>
     name \<noteq> [] \<and> hd name \<noteq> CHR ''#'' \<and> CHR ''{'' \<notin> set name \<and>
     CHR 0x0A \<notin> set name \<and> CHR 0x0A \<notin> set help \<and> CHR 0x0A \<notin> set ty)"

lemma split_on_line: "c \<notin> set a \<Longrightarrow> split_on c (a @ c # b) = a # split_on c b"
  by (induction a) auto

lemma show_nat_one_line: "CHR 0x0A \<notin> set (show_nat n)"
  using show_nat_digits [of n] by (auto simp: list_all_iff is_ascii_digit_def byte_def)

lemma label_one_line: "CHR 0x0A \<notin> set metric_label"
  by (simp add: metric_label_def)

lemma block_lines:
  assumes "row_ok (name, help, ty, v)"
  shows "split_on (CHR 0x0A) (metric_block (name, help, ty, v) @ rest) =
    (''# HELP '' @ name @ '' '' @ help) # (''# TYPE '' @ name @ '' '' @ ty) #
    (name @ metric_label @ show_nat (unat v)) # split_on (CHR 0x0A) rest"
proof -
  have no: "CHR 0x0A \<notin> set (''# HELP '' @ name @ '' '' @ help)"
    "CHR 0x0A \<notin> set (''# TYPE '' @ name @ '' '' @ ty)"
    "CHR 0x0A \<notin> set (name @ metric_label @ show_nat (unat v))"
    using assms show_nat_one_line label_one_line by (simp_all add: row_ok_def)
  have "metric_block (name, help, ty, v) @ rest =
      (''# HELP '' @ name @ '' '' @ help) @ CHR 0x0A # (''# TYPE '' @ name @ '' '' @ ty) @ CHR 0x0A #
      (name @ metric_label @ show_nat (unat v)) @ CHR 0x0A # rest"
    by (simp add: metric_block_def metric_line_def)
  then show ?thesis
    by (simp only: split_on_line [OF no(1)] split_on_line [OF no(2)] split_on_line [OF no(3)])
qed

lemma takeWhile_stop: "c \<notin> set x \<Longrightarrow> takeWhile (\<lambda>d. d \<noteq> c) (x @ c # y) = x"
  by (induction x) auto

lemma label_prefix:
  assumes "CHR ''{'' \<notin> set a" "CHR ''{'' \<notin> set b" "prefix (a @ metric_label) (b @ metric_label @ t)"
  shows "a = b"
proof -
  from assms(3) obtain z where z: "b @ metric_label @ t = a @ metric_label @ z" by (auto simp: prefix_def)
  have cut: "takeWhile (\<lambda>c. c \<noteq> CHR ''{'') (x @ metric_label @ y) = x" if "CHR ''{'' \<notin> set x" for x y
    using takeWhile_stop [OF that] by (simp add: metric_label_def)
  from z show ?thesis using cut [OF assms(1), of z] cut [OF assms(2), of t] by simp
qed

lemma sample_in_rows:
  assumes "list_all row_ok rows" "distinct (map fst rows)" "(name, help, ty, v) \<in> set rows"
  shows "sample_value name (concat (map metric_block rows)) = Some (unat v)"
  using assms
proof (induction rows)
  case (Cons row rows)
  obtain n h t w where row: "row = (n, h, t, w)" by (cases row)
  have ok: "row_ok (n, h, t, w)" "row_ok (name, help, ty, v)"
    using Cons.prems row by (auto simp: list_all_iff)
  have comment: "\<not> prefix (name @ metric_label) (CHR ''#'' # r)" for r
    using ok(2) by (cases name) (auto simp: row_ok_def)
  have lines: "sample_value name (concat (map metric_block (row # rows))) =
      (if prefix (name @ metric_label) (n @ metric_label @ show_nat (unat w))
       then parse_digits (drop (length (name @ metric_label)) (n @ metric_label @ show_nat (unat w)))
       else sample_value name (concat (map metric_block rows)))"
    using block_lines [OF ok(1), of "concat (map metric_block rows)"] comment
    by (simp add: sample_value_def row)
  show ?case
  proof (cases "n = name")
    case True
    with Cons.prems row have "w = v" by (force simp: distinct_map inj_on_def)
    with True show ?thesis unfolding lines by simp
  next
    case False
    then have "\<not> prefix (name @ metric_label) (n @ metric_label @ show_nat (unat w))"
      using label_prefix [of name n] ok by (auto simp: row_ok_def)
    with False Cons row show ?thesis unfolding lines by auto
  qed
qed simp

lemma metric_rows_ok: "list_all row_ok (metric_rows m n)"
  by (simp add: metric_rows_defs row_ok_def)

lemma metric_rows_distinct: "distinct (map fst (metric_rows m n))"
  by (simp add: metric_rows_defs)

text \<open>
  The metrics can be scraped. In the text \<open>render\<close> produces, every one of the twenty-six
  series reads back as exactly its value: the 64-bit counter, or the number of workers modulo
  two to the sixty-fourth.
\<close>

theorem metrics_scrape:
  "length (metric_rows m n) = 26 \<and> list_all (\<lambda>(name, help, ty, v).
     sample_value name (metrics_render m n) = Some (unat v)) (metric_rows m n)"
proof
  show "length (metric_rows m n) = 26" by (simp add: metric_rows_defs)
  show "list_all (\<lambda>(name, help, ty, v).
     sample_value name (metrics_render m n) = Some (unat v)) (metric_rows m n)"
    using sample_in_rows [OF metric_rows_ok metric_rows_distinct]
    by (auto simp: list_all_iff metrics_render_def)
qed

end
