(* ===== verification/Child_Runner.thy ===== *)
theory Child_Runner
  imports Definition Metrics
begin

section \<open>The pool of reusable child processes\<close>

text \<open>
  The model of \<open>src/child_runner.rs\<close>. A driver task owns one child process: the record
  \<open>driver\<close> is its channel, what the child's pipes hold, and the flag \<open>alive\<close> it shares with
  the workers that point to it (\<open>wk_tx\<close> is the position of the driver in \<open>ru_drivers\<close>, so the
  sharing is kept). An \<open>Instant\<close> is a number of nanoseconds.
\<close>

definition MAX_RESULT_BYTES :: nat where
  "MAX_RESULT_BYTES = 1048576"

definition CHANNEL_CAPACITY :: nat where
  "CHANNEL_CAPACITY = 16"

definition newline :: char where
  "newline = CHR 0x0A"

subsection \<open>Reading one result line\<close>

text \<open>
  What the pipe yields after the bytes already in it: nothing yet; an I/O error; its end, while
  the child lives on; or its end, with the child gone (and its exit code, if it has one).
\<close>

datatype stdout_end = StillOpen | ReadFails string | EndOnly | ChildGone "int option"

datatype line_read = Line string | LineEof "int option" | TooLong | LineErr string

definition trim_newlines :: "string \<Rightarrow> string" where
  "trim_newlines s = rev (dropWhile (\<lambda>c. c = newline \<or> c = CHR 0x0D) (rev s))"

text \<open>
  \<open>read_capped_line\<close> (with the \<open>child.wait()\<close> its caller adds at the end of the stream): the
  outcome and the bytes left in the reader, or \<open>None\<close> while it is still waiting.
\<close>

definition line_bytes :: "nat \<Rightarrow> string \<Rightarrow> stdout_end \<Rightarrow> (string + string) option" where
  "line_bytes cap buf fin =
     (let seen = take (cap + 1) buf
      in if newline \<in> set seen then Some (Inr (takeWhile (\<lambda>c. c \<noteq> newline) seen @ [newline]))
         else if cap < length seen then Some (Inr seen)
         else (case fin of
                 StillOpen \<Rightarrow> None
               | ReadFails e \<Rightarrow> Some (Inl e)
               | _ \<Rightarrow> Some (Inr seen)))"

definition read_capped_line :: "nat \<Rightarrow> string \<Rightarrow> stdout_end \<Rightarrow> (line_read \<times> string) option" where
  "read_capped_line cap buf fin =
     (case line_bytes cap buf fin of
        None \<Rightarrow> None
      | Some (Inl e) \<Rightarrow> Some (LineErr (''child read error: '' @ e), [])
      | Some (Inr l) \<Rightarrow>
          (let rest = drop (length l) buf
           in if \<not> utf8_valid l then
                Some (LineErr ''child read error: stream did not contain valid UTF-8'', rest)
              else if l = [] then
                (case fin of ChildGone code \<Rightarrow> Some (LineEof code, rest) | _ \<Rightarrow> None)
              else if cap < length l then Some (TooLong, rest)
              else Some (Line (trim_newlines l), rest)))"

subsection \<open>The driver of one child\<close>

record driver =
  dr_command :: string
  dr_alive :: bool
  dr_queue :: "(nat \<times> string) list"
  dr_current :: "(nat \<times> string) option"
  dr_writing :: "string option"
  dr_stdin :: string
  dr_unread :: string
  dr_end :: stdout_end

definition new_driver :: "string \<Rightarrow> driver" where
  "new_driver command =
     \<lparr> dr_command = ''exec '' @ command, dr_alive = True, dr_queue = [], dr_current = None, dr_writing = None,
       dr_stdin = [], dr_unread = [], dr_end = StillOpen \<rparr>"

text \<open>
  The end of \<open>worker_driver\<close>: the flag is cleared, the child killed, and the receiver dropped
  with the invocations still queued in it (whose reply channels close).
\<close>

definition stop_driver :: "driver \<Rightarrow> driver" where
  "stop_driver d = d\<lparr>dr_alive := False, dr_queue := [], dr_current := None, dr_writing := None\<rparr>"

text \<open>
  One turn of its loop in three parts: take an invocation, write its line and flush, read the
  result line. \<open>dr_writing\<close> is what \<open>write_all\<close> has still to hand to the pipe (\<open>Some []\<close>: only the
  flush is left); the pipe takes any number of bytes at a time, and an error may come after it
  has taken part of the line, or all of it. A reply names the invocation it answers.
\<close>

definition driver_take :: "driver \<Rightarrow> driver" where
  "driver_take d =
     (case (dr_current d, dr_queue d) of
        (None, (j, payload) # rest) \<Rightarrow>
          d\<lparr>dr_queue := rest, dr_current := Some (j, payload), dr_writing := Some (payload @ [newline])\<rparr>
      | _ \<Rightarrow> d)"

datatype pipe_event = Accepted nat | Flushed | WriteFailed

definition driver_write :: "pipe_event \<Rightarrow> driver \<Rightarrow> driver \<times> (nat \<times> (string + string)) option" where
  "driver_write ev d =
     (case (dr_current d, dr_writing d) of
        (Some (j, _), Some rest) \<Rightarrow>
          (case ev of
             Accepted n \<Rightarrow>
               (d\<lparr>dr_stdin := dr_stdin d @ take n rest, dr_writing := Some (drop n rest)\<rparr>, None)
           | Flushed \<Rightarrow> (if rest = [] then d\<lparr>dr_writing := None\<rparr> else d, None)
           | WriteFailed \<Rightarrow> (stop_driver d, Some (j, Inl ''failed to write to lambda child'')))
      | _ \<Rightarrow> (d, None))"

definition exit_text :: "int option \<Rightarrow> string" where
  "exit_text code =
     ''child exited with status '' @ (case code of Some c \<Rightarrow> show_int c | None \<Rightarrow> ''unknown'')"

definition driver_read :: "driver \<Rightarrow> driver \<times> (nat \<times> (string + string)) option" where
  "driver_read d =
     (case (dr_current d, dr_writing d) of
        (Some (j, _), None) \<Rightarrow>
          (case read_capped_line MAX_RESULT_BYTES (dr_unread d) (dr_end d) of
             None \<Rightarrow> (d, None)
           | Some (out, rest) \<Rightarrow>
               (let d' = d\<lparr>dr_current := None, dr_unread := rest\<rparr>
                in (case out of
                      Line l \<Rightarrow> (d', Some (j, Inr l))
                    | LineEof code \<Rightarrow> (stop_driver d', Some (j, Inl (exit_text code)))
                    | TooLong \<Rightarrow> (stop_driver d', Some (j, Inl ''lambda child result exceeded byte limit''))
                    | LineErr e \<Rightarrow> (stop_driver d', Some (j, Inl e)))))
      | _ \<Rightarrow> (d, None))"

subsection \<open>The table of workers\<close>

record worker =
  wk_command :: string
  wk_tx :: nat
  wk_idle_ms :: u64
  wk_last_used :: nat

record runner =
  ru_workers :: "worker hmap"
  ru_drivers :: "driver list"
  ru_metrics :: metrics

definition runner_new :: "metrics \<Rightarrow> runner" where
  "runner_new m = \<lparr> ru_workers = [], ru_drivers = [], ru_metrics = m \<rparr>"

definition active_workers :: "runner \<Rightarrow> nat" where
  "active_workers rn = length (ru_workers rn)"

definition tally :: "(metrics \<Rightarrow> metrics) \<Rightarrow> runner \<Rightarrow> runner" where
  "tally f rn = rn\<lparr>ru_metrics := f (ru_metrics rn)\<rparr>"

definition worker_alive :: "runner \<Rightarrow> worker \<Rightarrow> bool" where
  "worker_alive rn w \<longleftrightarrow> dr_alive (ru_drivers rn ! wk_tx w)"

text \<open>The first critical section of \<open>ensure_worker\<close>: a channel to reuse, or a free slot.\<close>

definition ensure_lookup :: "string \<Rightarrow> string \<Rightarrow> nat \<Rightarrow> runner \<Rightarrow> runner \<times> nat option" where
  "ensure_lookup command reuse_key now rn =
     (case hm_get (ru_workers rn) reuse_key of
        Some w \<Rightarrow>
          (if wk_command w = command \<and> worker_alive rn w then
             (tally (\<lambda>m. m\<lparr>mt_child_reuses_total := mt_child_reuses_total m + 1\<rparr>)
                (rn\<lparr>ru_workers := hm_put reuse_key (w\<lparr>wk_last_used := now\<rparr>) (ru_workers rn)\<rparr>),
              Some (wk_tx w))
           else (rn\<lparr>ru_workers := hm_del reuse_key (ru_workers rn)\<rparr>, None))
      | None \<Rightarrow> (rn, None))"

datatype spawn_result = SpawnError string | NoStdin | NoStdout | Spawned

definition spawn_worker ::
    "spawn_result \<Rightarrow> string \<Rightarrow> string \<Rightarrow> u64 \<Rightarrow> nat \<Rightarrow> runner \<Rightarrow> runner \<times> (string + nat)" where
  "spawn_worker spawn command reuse_key idle_ms now rn =
     (case spawn of
        SpawnError e \<Rightarrow> (rn, Inl (''failed to spawn child process: '' @ e))
      | NoStdin \<Rightarrow> (rn, Inl ''child stdin unavailable'')
      | NoStdout \<Rightarrow> (rn, Inl ''child stdout unavailable'')
      | Spawned \<Rightarrow>
          (let tx = length (ru_drivers rn);
               w = \<lparr> wk_command = command, wk_tx = tx, wk_idle_ms = idle_ms, wk_last_used = now \<rparr>
           in (tally (\<lambda>m. m\<lparr>mt_child_spawns_total := mt_child_spawns_total m + 1\<rparr>)
                 (rn\<lparr>ru_drivers := ru_drivers rn @ [new_driver command],
                     ru_workers := hm_put reuse_key w (ru_workers rn)\<rparr>), Inr tx)))"

definition update_last_used :: "string \<Rightarrow> nat \<Rightarrow> runner \<Rightarrow> runner" where
  "update_last_used reuse_key now rn =
     (case hm_get (ru_workers rn) reuse_key of
        Some w \<Rightarrow> rn\<lparr>ru_workers := hm_put reuse_key (w\<lparr>wk_last_used := now\<rparr>) (ru_workers rn)\<rparr>
      | None \<Rightarrow> rn)"

definition delete_worker :: "string \<Rightarrow> runner \<Rightarrow> runner" where
  "delete_worker reuse_key rn = rn\<lparr>ru_workers := hm_del reuse_key (ru_workers rn)\<rparr>"

definition destroy :: "string \<Rightarrow> runner \<Rightarrow> runner \<times> (string + string)" where
  "destroy reuse_key rn =
     (case hm_get (ru_workers rn) reuse_key of
        Some _ \<Rightarrow> (tally (\<lambda>m. m\<lparr>mt_child_destroys_total := mt_child_destroys_total m + 1\<rparr>)
                    (delete_worker reuse_key rn), Inr ''destroyed'')
      | None \<Rightarrow> (rn, Inr ''not-found''))"

text \<open>\<open>saturating_duration_since(..).as_millis() as u64\<close>\<close>

definition idle_for :: "nat \<Rightarrow> worker \<Rightarrow> u64" where
  "idle_for now w = of_nat ((now - wk_last_used w) div 1000000)"

definition reapable :: "nat \<Rightarrow> runner \<Rightarrow> worker \<Rightarrow> bool" where
  "reapable now rn w \<longleftrightarrow> \<not> worker_alive rn w \<or> wk_idle_ms w < idle_for now w"

definition reap_idle :: "nat \<Rightarrow> runner \<Rightarrow> runner" where
  "reap_idle now rn =
     (let dead = map fst (filter (\<lambda>kw. reapable now rn (snd kw)) (ru_workers rn))
      in fold (\<lambda>k rn. tally (\<lambda>m. m\<lparr>mt_child_destroys_total := mt_child_destroys_total m + 1\<rparr>)
                  (delete_worker k rn)) dead rn)"

subsection \<open>One invocation\<close>

text \<open>How the wait for the reply ends: a reply, the reply channel closed, or the time is up.\<close>

datatype reply = Reply "string + string" | ReplyDropped | Elapsed

definition finish_invocation ::
    "string \<Rightarrow> reply \<Rightarrow> nat \<Rightarrow> runner \<Rightarrow> runner \<times> (string + string)" where
  "finish_invocation reuse_key r now rn =
     (case r of
        Reply (Inr out) \<Rightarrow>
          (update_last_used reuse_key now
             (tally (\<lambda>m. m\<lparr>mt_child_stdio_bytes_total :=
                mt_child_stdio_bytes_total m + of_nat (length out)\<rparr>) rn), Inr out)
      | Reply (Inl reason) \<Rightarrow>
          (tally (\<lambda>m. m\<lparr>mt_child_exits_total := mt_child_exits_total m + 1\<rparr>)
             (delete_worker reuse_key rn), Inl reason)
      | ReplyDropped \<Rightarrow>
          (tally (\<lambda>m. m\<lparr>mt_child_exits_total := mt_child_exits_total m + 1\<rparr>)
             (delete_worker reuse_key rn), Inl ''lambda child worker exited'')
      | Elapsed \<Rightarrow>
          (tally (\<lambda>m. m\<lparr>mt_invocation_timeouts_total := mt_invocation_timeouts_total m + 1\<rparr>)
             (delete_worker reuse_key rn), Inl ''lambda child process timed out''))"

text \<open>
  What an operation meets outside: the environment, the clock at its three readings, the
  outcome of a spawn, whether the driver still receives, how the wait for a payload's reply
  ends, the pool behind NATS, psql and its URL.
\<close>

record host =
  h_env :: environ
  h_reap_now :: nat
  h_ensure_now :: nat
  h_done_now :: nat
  h_spawn :: spawn_result
  h_send_ok :: bool
  h_reply :: "nat \<Rightarrow> string \<Rightarrow> u64 \<Rightarrow> reply"
  h_pool :: "string \<Rightarrow> string \<Rightarrow> string \<Rightarrow> string \<Rightarrow> u64 \<Rightarrow> string + string"
  h_psql :: psql
  h_database_url :: "string option"

definition ensure_worker ::
    "host \<Rightarrow> string \<Rightarrow> string \<Rightarrow> u64 \<Rightarrow> runner \<Rightarrow> runner \<times> (string + nat)" where
  "ensure_worker h command reuse_key idle_ms rn =
     (case ensure_lookup command reuse_key (h_ensure_now h) rn of
        (rn', Some tx) \<Rightarrow> (rn', Inr tx)
      | (rn', None) \<Rightarrow> spawn_worker (h_spawn h) command reuse_key idle_ms (h_ensure_now h) rn')"

definition invoke_worker ::
    "host \<Rightarrow> string \<Rightarrow> string \<Rightarrow> string \<Rightarrow> u64 \<Rightarrow> u64 \<Rightarrow> runner \<Rightarrow> runner \<times> (string + string)" where
  "invoke_worker h command reuse_key payload idle_ms timeout_ms rn =
     (case ensure_worker h command reuse_key idle_ms rn of
        (rn1, Inl e) \<Rightarrow> (rn1, Inl e)
      | (rn1, Inr tx) \<Rightarrow>
          (if \<not> h_send_ok h then (delete_worker reuse_key rn1, Inl ''lambda child worker unavailable'')
           else finish_invocation reuse_key (h_reply h tx payload timeout_ms) (h_done_now h) rn1))"

definition invoke_loaded_definition_local ::
    "host \<Rightarrow> string \<Rightarrow> string \<Rightarrow> string \<Rightarrow> string \<Rightarrow> u64 \<Rightarrow> u64 \<Rightarrow> runner \<Rightarrow> runner \<times> (string + string)" where
  "invoke_loaded_definition_local h fallback_command identifier def request idle_ms timeout_ms rn =
     (case command_for_definition (h_env h) fallback_command def of
        Inl e \<Rightarrow> (rn, Inl e)
      | Inr command \<Rightarrow>
          (let rt = runtime_from_definition def;
               containerized = json_bool_field def ''containerized'' False
           in (case worker_key identifier def rt containerized of
                 Inl e \<Rightarrow> (rn, Inl e)
               | Inr key \<Rightarrow>
                   invoke_worker h command key (invocation_payload identifier def request)
                     (idle_ms_from_definition def idle_ms)
                     (timeout_ms_from_definition def timeout_ms) rn)))"

subsection \<open>Dispatch\<close>

datatype pool_target = Local | Dispatch string string | PoolError string

definition pool_dispatch_target :: "environ \<Rightarrow> string \<Rightarrow> pool_target" where
  "pool_dispatch_target env def =
     (if \<not> json_bool_field def ''poolBacked'' (env_bool env ''LAMBDA_POOL_DISPATCH_DEFAULT'' False)
      then Local
      else
        (let rt = runtime_from_definition def;
             l = json_string_field def ''poolLanguage'';
             language = (if l = [] then rt else l)
         in if \<not> safe_pool_language language then
              PoolError (''invalid pool language token: '' @ language)
            else
              (let def_subject = json_string_field def ''poolSubject'';
                   env_subject = env_binary env ''LAMBDA_POOL_SUBJECT'' [];
                   subject = (if def_subject \<noteq> [] then def_subject
                              else if env_subject \<noteq> [] then env_subject
                              else ''dd.remote.container_pool.'' @ language @ ''.requests'')
               in if \<not> safe_nats_subject subject then
                    PoolError ''pool subject is not a valid NATS subject''
                  else
                    (let s = json_string_field def ''poolSlug''
                     in if s = [] then Dispatch subject []
                        else if safe_pool_slug s then Dispatch subject s
                        else PoolError ''poolSlug contains unsupported characters''))))"

definition dispatch_via_pool ::
    "host \<Rightarrow> string \<Rightarrow> string \<Rightarrow> string \<Rightarrow> string \<Rightarrow> string \<Rightarrow> string \<Rightarrow> u64 \<Rightarrow> u64 \<Rightarrow> runner \<Rightarrow>
     runner \<times> (string + string)" where
  "dispatch_via_pool h subject slug fallback_command identifier def request idle_ms timeout_ms rn =
     (let rn1 = tally (\<lambda>m. m\<lparr>mt_pool_dispatch_total := mt_pool_dispatch_total m + 1\<rparr>) rn;
          timeout = timeout_ms_from_definition def timeout_ms;
          payload = invocation_payload identifier def request
      in (case h_pool h subject slug identifier payload timeout of
            Inr out \<Rightarrow> (rn1, Inr out)
          | Inl reason \<Rightarrow>
              (let rn2 = tally (\<lambda>m. m\<lparr>mt_pool_dispatch_failures_total :=
                           mt_pool_dispatch_failures_total m + 1\<rparr>) rn1
               in if env_bool (h_env h) ''LAMBDA_POOL_FALLBACK_LOCAL'' True then
                    invoke_loaded_definition_local h fallback_command identifier def request idle_ms
                      timeout_ms rn2
                  else (rn2, Inl reason))))"

definition invoke_loaded_definition ::
    "host \<Rightarrow> string \<Rightarrow> string \<Rightarrow> string \<Rightarrow> string \<Rightarrow> u64 \<Rightarrow> u64 \<Rightarrow> runner \<Rightarrow> runner \<times> (string + string)" where
  "invoke_loaded_definition h fallback_command identifier def request idle_ms timeout_ms rn =
     (let rn1 = tally (\<lambda>m. m\<lparr>mt_invocations_total := mt_invocations_total m + 1\<rparr>) rn
      in (case pool_dispatch_target (h_env h) def of
            Local \<Rightarrow>
              invoke_loaded_definition_local h fallback_command identifier def request idle_ms
                timeout_ms rn1
          | Dispatch subject slug \<Rightarrow>
              dispatch_via_pool h subject slug fallback_command identifier def request idle_ms
                timeout_ms rn1
          | PoolError reason \<Rightarrow> (rn1, Inl reason)))"

definition invoke ::
    "host \<Rightarrow> string \<Rightarrow> string \<Rightarrow> string \<Rightarrow> u64 \<Rightarrow> u64 \<Rightarrow> runner \<Rightarrow> runner \<times> (string + string)" where
  "invoke h fallback_command identifier payload idle_ms timeout_ms rn =
     (let request = normalize_request_payload payload;
          rn1 = reap_idle (h_reap_now h) rn
      in (case load_function_definition (h_psql h) (h_database_url h) identifier of
            Inl e \<Rightarrow> (rn1, Inl e)
          | Inr def \<Rightarrow>
              invoke_loaded_definition h fallback_command identifier def request idle_ms timeout_ms rn1))"

definition invoke_for_org ::
    "host \<Rightarrow> string \<Rightarrow> string \<Rightarrow> string \<Rightarrow> string \<Rightarrow> u64 \<Rightarrow> u64 \<Rightarrow> runner \<Rightarrow> runner \<times> (string + string)" where
  "invoke_for_org h fallback_command identifier org_id payload idle_ms timeout_ms rn =
     (let request = normalize_request_payload payload;
          rn1 = reap_idle (h_reap_now h) rn
      in (case load_function_definition_for_org (h_psql h) (h_database_url h) identifier org_id of
            Inl e \<Rightarrow> (rn1, Inl e)
          | Inr def \<Rightarrow>
              invoke_loaded_definition h fallback_command identifier def request idle_ms timeout_ms rn1))"

definition check_definition ::
    "host \<Rightarrow> string \<Rightarrow> string \<Rightarrow> u64 \<Rightarrow> runner \<Rightarrow> runner \<times> (string + string)" where
  "check_definition h fallback_command def timeout_ms rn =
     (let rn1 = reap_idle (h_reap_now h) rn;
          def' = normalize_request_payload def
      in (case command_for_definition (h_env h) fallback_command def' of
            Inl e \<Rightarrow> (rn1, Inl e)
          | Inr command \<Rightarrow>
              (let rt = runtime_from_definition def';
                   containerized = json_bool_field def' ''containerized'' False
               in invoke_worker h command (check_worker_key rt containerized) (check_payload def')
                    30000 (max timeout_ms 1000) rn1)))"

end
