(* ===== verification/Child_Props.thy ===== *)
theory Child_Props
  imports Child_Runner Policy_Props
begin

section \<open>Properties of the child runner\<close>

text \<open>
  The claims on \<open>src/child_runner.rs\<close> that concern one driver or one operation: the capped
  reader, the framing of invocations and results, the table of workers, the pool gate.
\<close>

subsection \<open>The capped reader\<close>

lemma line_bytes_Inr:
  assumes "line_bytes cap buf fin = Some (Inr l)"
  shows "prefix l buf" "length l \<le> cap + 1" "newline \<notin> set (butlast l)"
    "newline \<in> set l \<or> length l = cap + 1 \<or> l = buf"
proof -
  let ?seen = "take (cap + 1) buf"
  let ?ln = "takeWhile (\<lambda>c. c \<noteq> newline) ?seen"
  have split: "?seen = ?ln @ newline # tl (dropWhile (\<lambda>c. c \<noteq> newline) ?seen)"
    if "newline \<in> set ?seen"
  proof -
    from that have "dropWhile (\<lambda>c. c \<noteq> newline) ?seen \<noteq> []" by (auto simp: dropWhile_eq_Nil_conv)
    then have "hd (dropWhile (\<lambda>c. c \<noteq> newline) ?seen) = newline"
      using hd_dropWhile [of "\<lambda>c. c \<noteq> newline" ?seen] by simp
    with \<open>dropWhile (\<lambda>c. c \<noteq> newline) ?seen \<noteq> []\<close> show ?thesis
      by (metis list.collapse takeWhile_dropWhile_id)
  qed
  have line: "prefix (?ln @ [newline]) ?seen" if "newline \<in> set ?seen"
    using split [OF that] by (metis append.assoc append_Cons append_Nil prefixI)
  have no: "newline \<notin> set ?ln" by (auto dest: set_takeWhileD)
  have seen: "prefix ?seen buf" by (rule take_is_prefix)
  from assms consider "newline \<in> set ?seen" "l = ?ln @ [newline]"
    | "newline \<notin> set ?seen" "l = ?seen" "cap < length ?seen \<or> fin \<noteq> StillOpen"
    by (auto simp: line_bytes_def Let_def split: if_splits stdout_end.splits)
  then have "prefix l buf \<and> length l \<le> cap + 1 \<and> newline \<notin> set (butlast l) \<and>
      (newline \<in> set l \<or> length l = cap + 1 \<or> l = buf)"
  proof cases
    case 1
    from line [OF 1(1)] have "length l \<le> cap + 1" "prefix l buf"
      using seen prefix_length_le [of l ?seen] by (auto simp: 1(2) intro: prefix_order.trans)
    with 1 no show ?thesis by simp
  next
    case 2
    then show ?thesis
      using seen in_set_butlastD [of newline ?seen] by (auto simp: min_def)
  qed
  then show "prefix l buf" "length l \<le> cap + 1" "newline \<notin> set (butlast l)"
    "newline \<in> set l \<or> length l = cap + 1 \<or> l = buf" by auto
qed

lemma line_bytes_more:
  assumes "line_bytes cap buf StillOpen = Some (Inr l)"
  shows "line_bytes cap (buf @ later) fin = Some (Inr l)"
proof (cases "newline \<in> set (take (cap + 1) buf)")
  case True
  then have "takeWhile (\<lambda>c. c \<noteq> newline) (take (cap + 1) (buf @ later)) =
      takeWhile (\<lambda>c. c \<noteq> newline) (take (cap + 1) buf)"
    by (simp add: takeWhile_append1)
  with True assms show ?thesis by (simp add: line_bytes_def Let_def)
next
  case False
  with assms have "cap < length buf" "l = take (cap + 1) buf"
    by (auto simp: line_bytes_def Let_def split: if_splits)
  with False show ?thesis by (simp add: line_bytes_def Let_def)
qed

lemma trim_newlines_length: "length (trim_newlines s) \<le> length s"
  using length_dropWhile_le [of "\<lambda>c. c = newline \<or> c = CHR 0x0D" "rev s"]
  by (simp add: trim_newlines_def)

lemma trim_newlines_snoc: "trim_newlines (s @ [newline]) = trim_newlines s"
  by (simp add: trim_newlines_def)

lemma trim_newlines_plain: "s = [] \<or> last s \<noteq> newline \<and> last s \<noteq> CHR 0x0D \<Longrightarrow> trim_newlines s = s"
  by (cases s rule: rev_cases) (auto simp: trim_newlines_def)

text \<open>
  C24: The capped reader is exact and independent of chunking. An accepted line is at most the
  cap long and is the stream up to its first newline (or all of it, at its end), which is what
  is consumed; a rejected one has used up one byte later than the cap and no newline came before;
  and an outcome reached on the bytes so far is not changed by whatever arrives later.
\<close>

theorem read_capped_line_exact:
  assumes "read_capped_line cap buf fin = Some (out, rest)"
  shows "(case out of
      Line l \<Rightarrow> \<exists>ln. buf = ln @ rest \<and> l = trim_newlines ln \<and> length ln \<le> cap \<and> ln \<noteq> [] \<and>
        newline \<notin> set (butlast ln) \<and> (last ln = newline \<or> rest = [])
    | TooLong \<Rightarrow> length buf - length rest = cap + 1 \<and> newline \<notin> set (take cap buf)
    | LineEof code \<Rightarrow> buf = [] \<and> fin = ChildGone code
    | LineErr e \<Rightarrow> True) \<and>
    (fin = StillOpen \<longrightarrow> read_capped_line cap (buf @ later) fin' = Some (out, rest @ later))"
proof (intro conjI impI)
  show "case out of
      Line l \<Rightarrow> \<exists>ln. buf = ln @ rest \<and> l = trim_newlines ln \<and> length ln \<le> cap \<and> ln \<noteq> [] \<and>
        newline \<notin> set (butlast ln) \<and> (last ln = newline \<or> rest = [])
    | TooLong \<Rightarrow> length buf - length rest = cap + 1 \<and> newline \<notin> set (take cap buf)
    | LineEof code \<Rightarrow> buf = [] \<and> fin = ChildGone code
    | LineErr e \<Rightarrow> True"
  proof (cases "line_bytes cap buf fin")
    case (Some r)
    show ?thesis
    proof (cases r)
      case (Inr l)
      with Some have lb: "line_bytes cap buf fin = Some (Inr l)" by simp
      note l = line_bytes_Inr [OF lb]
      from l(1) obtain t where buf: "buf = l @ t" by (auto simp: prefix_def)
      have lst: "last l = newline \<or> t = []" if "length l \<le> cap" "l \<noteq> []"
      proof -
        have "l = butlast l @ [last l]" using that by simp
        with l(3) have "newline \<in> set l \<Longrightarrow> last l = newline"
          by (metis Un_iff empty_iff insert_iff list.set(1) list.simps(15) set_append)
        with l(4) that buf show ?thesis by auto
      qed
      have nil: "buf = []" if "l = []" using l(4) that by auto
      have big: "newline \<notin> set (take cap buf)" if "cap < length l"
      proof -
        from that l(2) have "length l = cap + 1" by simp
        then have "take cap buf = butlast l" by (simp add: buf butlast_conv_take)
        with l(3) show ?thesis by simp
      qed
      from lb assms show ?thesis
        using lst nil big l(2,3)
        by (auto simp: read_capped_line_def buf Let_def split: if_splits stdout_end.splits)
    qed (use Some assms in \<open>auto simp: read_capped_line_def\<close>)
  qed (use assms in \<open>auto simp: read_capped_line_def\<close>)
  assume "fin = StillOpen"
  with assms obtain l where l: "line_bytes cap buf StillOpen = Some (Inr l)"
    by (auto simp: read_capped_line_def line_bytes_def Let_def split: if_splits option.splits sum.splits)
  from line_bytes_Inr(1) [OF this] have "drop (length l) (buf @ later) = drop (length l) buf @ later"
    by (auto simp: prefix_def)
  with assms \<open>fin = StillOpen\<close> l line_bytes_more [OF l, of later fin'] line_bytes_Inr [OF l]
  show "read_capped_line cap (buf @ later) fin' = Some (out, rest @ later)"
    by (auto simp: read_capped_line_def Let_def split: if_splits)
qed

lemma read_capped_line_exact_witness:
  "read_capped_line 5 (''abcd'' @ [newline] @ ''rest'') StillOpen = Some (Line ''abcd'', ''rest'') \<and>
   read_capped_line 5 ((''abcd'' @ [newline] @ ''rest'') @ ''x'') (ChildGone None) =
     Some (Line ''abcd'', ''rest'' @ ''x'')"
proof -
  have r: "read_capped_line 5 (''abcd'' @ [newline] @ ''rest'') StillOpen = Some (Line ''abcd'', ''rest'')"
    by code_simp
  with read_capped_line_exact [OF r, of "''x''" "ChildGone None"] show ?thesis by blast
qed

subsection \<open>Framing\<close>

text \<open>
  A child that answers each complete line of its input with one line: its whole output, as a
  function of its whole input. \<open>serve\<close> is one invocation of a driver with such a child.
\<close>

definition complete_lines :: "string \<Rightarrow> string list" where
  "complete_lines s = butlast (split_on newline s)"

definition line_child :: "(string \<Rightarrow> string) \<Rightarrow> string \<Rightarrow> string" where
  "line_child f s = concat (map (\<lambda>l. f l @ [newline]) (complete_lines s))"

text \<open>A line that is written without an error, then served.\<close>

definition write_line :: "driver \<Rightarrow> driver" where
  "write_line d =
     (let d1 = driver_take d;
          n = (case dr_writing d1 of Some rest \<Rightarrow> length rest | None \<Rightarrow> 0)
      in fst (driver_write Flushed (fst (driver_write (Accepted n) d1))))"

definition serve ::
    "(string \<Rightarrow> string) \<Rightarrow> nat \<times> string \<Rightarrow> driver \<Rightarrow> driver \<times> (nat \<times> (string + string)) option" where
  "serve f iv d =
     (let d1 = write_line (d\<lparr>dr_queue := dr_queue d @ [iv]\<rparr>);
          emitted = drop (length (line_child f (dr_stdin d))) (line_child f (dr_stdin d1))
      in driver_read (d1\<lparr>dr_unread := dr_unread d1 @ emitted\<rparr>))"

fun serve_all ::
    "(string \<Rightarrow> string) \<Rightarrow> (nat \<times> string) list \<Rightarrow> driver \<Rightarrow> (nat \<times> (string + string)) option list" where
  "serve_all f [] d = []"
| "serve_all f (iv # ivs) d = (let (d', r) = serve f iv d in r # serve_all f ivs d')"

definition good_answer :: "(string \<Rightarrow> string) \<Rightarrow> string \<Rightarrow> bool" where
  "good_answer f l \<longleftrightarrow> newline \<notin> set (f l) \<and> utf8_valid (f l @ [newline]) \<and> length (f l) < MAX_RESULT_BYTES"

lemma split_on_append_sep: "split_on c (s @ c # t) = butlast (split_on c s) @ last (split_on c s) # split_on c t"
proof (induction s)
  case (Cons x s)
  then show ?case by (cases "split_on c s") (auto split: list.splits)
qed simp

lemma split_on_plain: "c \<notin> set s \<Longrightarrow> split_on c s = [s]"
  by (induction s) auto

definition at_line_start :: "string \<Rightarrow> bool" where
  "at_line_start s \<longleftrightarrow> s = [] \<or> last s = newline"

lemma last_split_at_start:
  assumes "at_line_start s" shows "last (split_on newline s) = []"
proof (cases "s = []")
  case False
  with assms obtain t where "s = t @ [newline]"
    by (metis append_butlast_last_id at_line_start_def)
  then show ?thesis using split_on_append_sep [of newline t "[]"] by simp
qed simp

lemma complete_lines_append:
  assumes "at_line_start s"
  shows "complete_lines (s @ t) = complete_lines s @ complete_lines t"
proof (cases "s = []")
  case True
  then show ?thesis by (simp add: complete_lines_def)
next
  case False
  with assms obtain r where s: "s = r @ [newline]"
    by (metis append_butlast_last_id at_line_start_def)
  have "split_on newline (s @ t) = butlast (split_on newline r) @ last (split_on newline r) # split_on newline t"
    using split_on_append_sep [of newline r t] by (simp add: s)
  moreover have "split_on newline s = butlast (split_on newline r) @ last (split_on newline r) # [[]]"
    using split_on_append_sep [of newline r "[]"] by (simp add: s)
  ultimately show ?thesis by (simp add: complete_lines_def butlast_append)
qed

lemma complete_lines_line: "newline \<notin> set p \<Longrightarrow> complete_lines (p @ [newline]) = [p]"
  using split_on_append_sep [of newline p "[]"] by (simp add: complete_lines_def split_on_plain)

lemma line_child_append:
  "at_line_start s \<Longrightarrow> line_child f (s @ t) = line_child f s @ line_child f t"
  by (simp add: line_child_def complete_lines_append)

text \<open>A driver between two invocations, with \<open>unread\<close> left in its reader.\<close>

definition ready :: "string \<Rightarrow> driver \<Rightarrow> bool" where
  "ready unread d \<longleftrightarrow> dr_queue d = [] \<and> dr_current d = None \<and> dr_writing d = None \<and> at_line_start (dr_stdin d) \<and>
     dr_unread d = unread"

lemma ready_new: "ready [] (new_driver c)"
  by (simp add: ready_def new_driver_def at_line_start_def)

lemma read_good_line:
  assumes "good_answer f l"
  shows "read_capped_line MAX_RESULT_BYTES (f l @ newline # t) fin = Some (Line (trim_newlines (f l)), t)"
proof -
  have len: "length (f l) < MAX_RESULT_BYTES" and no: "newline \<notin> set (f l)"
    and utf: "utf8_valid (f l @ [newline])" using assms by (simp_all add: good_answer_def)
  have "take (MAX_RESULT_BYTES + 1) (f l @ newline # t) =
      f l @ newline # take (MAX_RESULT_BYTES - length (f l)) t"
    using len by (simp add: take_Cons' Suc_diff_le)
  moreover have "takeWhile (\<lambda>c. c \<noteq> newline) (f l @ newline # r) = f l" for r
    using no by (subst takeWhile_append2) auto
  ultimately have "line_bytes MAX_RESULT_BYTES (f l @ newline # t) fin = Some (Inr (f l @ [newline]))"
    by (simp add: line_bytes_def Let_def)
  then show ?thesis using utf len by (simp add: read_capped_line_def trim_newlines_snoc)
qed

lemma serve_ready:
  assumes "ready unread d" and "unread @ line_child f (p @ [newline]) = f l @ newline # rest"
    and "good_answer f l"
  shows "\<exists>d'. serve f (j, p) d = (d', Some (j, Inr (trim_newlines (f l)))) \<and> ready rest d'"
  using assms(1)
  by (auto simp: serve_def write_line_def driver_take_def driver_write_def driver_read_def ready_def Let_def line_child_append
      assms(2) [unfolded append_assoc] read_good_line [OF assms(3)] at_line_start_def)

lemma serve_all_exact:
  assumes "\<And>iv. iv \<in> set ivs \<Longrightarrow> newline \<notin> set (snd iv) \<and> good_answer f (snd iv)"
  shows "serve_all f ivs (new_driver command) =
    map (\<lambda>(j, p). Some (j, Inr (trim_newlines (f p)))) ivs"
proof -
  have "serve_all f ivs d = map (\<lambda>(j, p). Some (j, Inr (trim_newlines (f p)))) ivs"
    if "ready [] d" for d
    using that assms
  proof (induction ivs arbitrary: d)
    case (Cons iv ivs)
    obtain j p where iv: "iv = (j, p)" by (cases iv)
    with Cons.prems(2) [of iv] have p: "newline \<notin> set p" "good_answer f p" by auto
    have "[] @ line_child f (p @ [newline]) = f p @ newline # []"
      by (simp add: line_child_def complete_lines_line p)
    from serve_ready [OF Cons.prems(1) this p(2), of j] obtain d' where
      "serve f (j, p) d = (d', Some (j, Inr (trim_newlines (f p))))" "ready [] d'" by blast
    moreover from Cons.IH [OF this(2)] Cons.prems(2)
    have "serve_all f ivs d' = map (\<lambda>(j, p). Some (j, Inr (trim_newlines (f p)))) ivs" by simp
    ultimately show ?case by (simp add: iv)
  qed simp
  then show ?thesis using ready_new by blast
qed

text \<open>
  C15: Framing is exact. With payloads that contain no newline and a child that answers each line
  with one well-formed line within the cap, a driver gives every invocation the answer to its own
  payload, in any number and order of invocations.
\<close>

theorem framing_exact:
  assumes "\<And>iv. iv \<in> set ivs \<Longrightarrow> newline \<notin> set (snd iv) \<and> good_answer f (snd iv)"
  shows "serve_all f ivs (new_driver command) =
    map (\<lambda>(j, p). Some (j, Inr (trim_newlines (f p)))) ivs"
  using assms by (rule serve_all_exact)

lemma framing_exact_witness:
  "serve_all (\<lambda>l. ''r'' @ l) [(0, ''a''), (1, ''b'')] (new_driver ''c'') =
     [Some (0, Inr ''ra''), Some (1, Inr ''rb'')]"
proof -
  have "newline \<notin> set (snd iv) \<and> good_answer (\<lambda>l. ''r'' @ l) (snd iv)"
    if "iv \<in> set [(0, ''a''), (1, ''b'')]" for iv :: "nat \<times> string"
    using that by (auto simp: good_answer_def newline_def MAX_RESULT_BYTES_def byte_def)
  from framing_exact [where ivs = "[(0, ''a''), (1, ''b'')]", OF this, where command = "''c''"]
  show ?thesis
    by (simp add: trim_newlines_def newline_def del: serve_all.simps)
qed

lemma concat_map_no: "(\<And>x. c \<notin> set (g x)) \<Longrightarrow> c \<notin> set (concat (map g xs))"
  by (induction xs) auto

lemma json_escape_newline: "newline \<notin> set (json_escape s)"
proof -
  have keep: "newline \<notin> set (str_replace [a] r t)" if "newline \<notin> set t" "newline \<notin> set r" for a r t
    using that unfolding str_replace_single by (induction t) auto
  have "newline \<notin> set (str_replace [CHR 0x0A] [CHR 0x5C, CHR ''n''] t)" for t
    unfolding str_replace_single by (rule concat_map_no) (simp add: newline_def)
  then show ?thesis
    unfolding json_escape_def by (rule keep [OF keep]) (simp_all add: newline_def)
qed

text \<open>
  C37: A newline in a request breaks the framing. \<open>normalize_request_payload\<close> only trims the
  request and \<open>invocation_payload\<close> splices it verbatim, so a request \<open>x\<close>, newline, \<open>y\<close> writes
  two lines; the next invocation of the shared child, whoever makes it, is given the answer to
  the line that \<open>y\<close> begins instead of the answer to its own payload.
\<close>

theorem newline_desynchronizes:
  assumes "normalize_request_payload body = x @ newline # y" and "newline \<notin> set x" "newline \<notin> set y"
    and "newline \<notin> set def" and "\<And>l. good_answer f l"
  shows "serve_all f [(0, invocation_payload slug def (normalize_request_payload body)), (1, p)]
      (new_driver command) =
    [Some (0, Inr (trim_newlines (f (takeWhile (\<lambda>c. c \<noteq> newline)
        (invocation_payload slug def (normalize_request_payload body)))))),
     Some (1, Inr (trim_newlines (f (y @ ''}''))))]"
proof -
  let ?pre = "''{'' @ [dquote] @ ''slug'' @ [dquote] @ '':'' @ [dquote] @ json_escape slug @ [dquote] @
      '','' @ [dquote] @ ''definition'' @ [dquote] @ '':'' @ def @ '','' @ [dquote] @ ''request'' @
      [dquote] @ '':''"
  have payload: "invocation_payload slug def (normalize_request_payload body) =
      (?pre @ x) @ newline # (y @ ''}'')"
    unfolding assms(1) by (simp add: invocation_payload_def dquote_def)
  have pre: "newline \<notin> set (?pre @ x)"
    using json_escape_newline [of slug] assms(2,4) by (simp add: newline_def dquote_def)
  have y: "newline \<notin> set (y @ ''}'')" using assms(3) by (simp add: newline_def)
  let ?p = "(?pre @ x) @ newline # (y @ ''}'')"
  have "complete_lines (((?pre @ x) @ [newline]) @ ((y @ ''}'') @ [newline])) = [?pre @ x, y @ ''}'']"
    using complete_lines_append [of "(?pre @ x) @ [newline]" "(y @ ''}'') @ [newline]"]
      complete_lines_line [OF pre] complete_lines_line [OF y] by (simp add: at_line_start_def)
  then have "complete_lines (?p @ [newline]) = [?pre @ x, y @ ''}'']" by simp
  then have out: "[] @ line_child f (?p @ [newline]) =
      f (?pre @ x) @ newline # (f (y @ ''}'') @ [newline])"
    unfolding line_child_def by simp
  obtain d1 where d1: "serve f (0, ?p) (new_driver command) =
      (d1, Some (0, Inr (trim_newlines (f (?pre @ x)))))" "ready (f (y @ ''}'') @ [newline]) d1"
    using serve_ready [OF ready_new out assms(5)] by blast
  obtain d2 where d2: "serve f (1, p) d1 = (d2, Some (1, Inr (trim_newlines (f (y @ ''}'')))))"
    using serve_ready [OF d1(2) _ assms(5), where l = "y @ ''}''" and p = p and
        rest = "line_child f (p @ [newline])"] by auto
  have "takeWhile (\<lambda>c. c \<noteq> newline) ?p = ?pre @ x"
    using pre by (subst takeWhile_append2) auto
  with d1(1) d2 show ?thesis unfolding payload by simp
qed

lemma newline_desynchronizes_witness:
  "serve_all (\<lambda>l. if prefix ''{2'' l then ''forged'' else ''own'')
     [(0, invocation_payload ''s'' ''{}'' (normalize_request_payload (''1'' @ newline # ''{2''))), (1, ''next'')]
     (new_driver ''c'') ! 1 = Some (1, Inr ''forged'')"
proof -
  let ?f = "\<lambda>l. if prefix ''{2'' l then ''forged'' else ''own''"
  have n: "normalize_request_payload (''1'' @ newline # ''{2'') = ''1'' @ newline # ''{2''"
    by code_simp
  have good: "good_answer ?f l" for l
    by (simp add: good_answer_def newline_def MAX_RESULT_BYTES_def byte_def)
  from newline_desynchronizes [OF n, where f = ?f and slug = "''s''" and def = "''{}''" and
      p = "''next''" and command = "''c''", OF _ _ _ good]
  show ?thesis by (simp add: newline_def trim_newlines_def del: serve_all.simps)
qed

subsection \<open>The table of workers\<close>

lemma tally_sel [simp]:
  "ru_workers (tally f rn) = ru_workers rn" "ru_drivers (tally f rn) = ru_drivers rn"
  "ru_metrics (tally f rn) = f (ru_metrics rn)"
  by (simp_all add: tally_def)

lemma delete_worker_sel [simp]:
  "ru_workers (delete_worker k rn) = hm_del k (ru_workers rn)"
  "ru_drivers (delete_worker k rn) = ru_drivers rn" "ru_metrics (delete_worker k rn) = ru_metrics rn"
  by (simp_all add: delete_worker_def)

lemma update_last_used_sel [simp]:
  "ru_drivers (update_last_used k t rn) = ru_drivers rn"
  "ru_metrics (update_last_used k t rn) = ru_metrics rn"
  "hm_get (ru_workers (update_last_used k t rn)) k' =
     (if k' = k then map_option (wk_last_used_update (\<lambda>_. t)) (hm_get (ru_workers rn) k)
      else hm_get (ru_workers rn) k')"
  by (auto simp: update_last_used_def hm_get_put split: option.splits)

text \<open>Every worker points to a driver that runs its command.\<close>

definition worker_ok :: "driver list \<Rightarrow> worker \<Rightarrow> bool" where
  "worker_ok ds w \<longleftrightarrow> wk_tx w < length ds \<and> dr_command (ds ! wk_tx w) = ''exec '' @ wk_command w"

definition runner_wf :: "runner \<Rightarrow> bool" where
  "runner_wf rn \<longleftrightarrow> hm_wf (ru_workers rn) \<and>
     (\<forall>k w. hm_get (ru_workers rn) k = Some w \<longrightarrow> worker_ok (ru_drivers rn) w)"

lemma worker_ok_last_used [simp]: "worker_ok ds (w\<lparr>wk_last_used := t\<rparr>) = worker_ok ds w"
  by (simp add: worker_ok_def)



lemma runner_wf_get: "runner_wf rn \<Longrightarrow> hm_get (ru_workers rn) k = Some w \<Longrightarrow> worker_ok (ru_drivers rn) w"
  by (simp add: runner_wf_def)

lemma runner_wf_tally [simp]: "runner_wf (tally f rn) = runner_wf rn"
  by (simp add: runner_wf_def)

lemma runner_wf_delete [simp]: "runner_wf rn \<Longrightarrow> runner_wf (delete_worker k rn)"
  by (auto simp: runner_wf_def hm_get_del split: if_splits)

lemma hm_wf_update_last_used: "hm_wf (ru_workers rn) \<Longrightarrow> hm_wf (ru_workers (update_last_used k t rn))"
  by (simp add: update_last_used_def split: option.split)

lemma runner_wf_update_last_used [simp]: "runner_wf rn \<Longrightarrow> runner_wf (update_last_used k t rn)"
  by (auto simp: runner_wf_def hm_wf_update_last_used split: if_splits)


















definition sample_host :: host where
  "sample_host = \<lparr> h_env = (\<lambda>_. None), h_reap_now = 0, h_ensure_now = 0, h_done_now = 5,
     h_spawn = Spawned, h_send_ok = True, h_reply = (\<lambda>_ _ _. Reply (Inr ''ok'')),
     h_pool = (\<lambda>_ _ _ _ _. Inl ''down''), h_psql = (\<lambda>_ _. QueryTimedOut), h_database_url = None \<rparr>"

lemma runner_wf_new: "runner_wf (runner_new m)"
  by (simp add: runner_wf_def runner_new_def)


subsection \<open>Reaping\<close>

lemma reap_fold:
  fixes ks :: "string list" and rn :: runner
  defines "step \<equiv> \<lambda>k rn. tally (\<lambda>m. m\<lparr>mt_child_destroys_total := mt_child_destroys_total m + 1\<rparr>)
                  (delete_worker k rn)"
  shows "ru_drivers (fold step ks rn) = ru_drivers rn"
    and "hm_get (ru_workers (fold step ks rn)) k = (if k \<in> set ks then None else hm_get (ru_workers rn) k)"
    and "mt_child_destroys_total (ru_metrics (fold step ks rn)) =
      mt_child_destroys_total (ru_metrics rn) + of_nat (length ks)"
    and "hm_wf (ru_workers rn) \<Longrightarrow> hm_wf (ru_workers (fold step ks rn))"
  by (induction ks arbitrary: rn) (simp_all add: step_def hm_get_del)

lemma reap_get:
  assumes "runner_wf rn"
  shows "hm_get (ru_workers (reap_idle now rn)) k =
      (case hm_get (ru_workers rn) k of Some w \<Rightarrow> if reapable now rn w then None else Some w
       | None \<Rightarrow> None)"
proof -
  have "k \<in> set (map fst (filter (\<lambda>kw. reapable now rn (snd kw)) (ru_workers rn))) \<longleftrightarrow>
      (\<exists>w. hm_get (ru_workers rn) k = Some w \<and> reapable now rn w)"
    using hm_get_mem [of "ru_workers rn"] assms by (force simp: runner_wf_def)
  then show ?thesis
    unfolding reap_idle_def Let_def reap_fold(2) by (auto split: option.split)
qed

lemma reap_wf:
  assumes "runner_wf rn"
  shows "runner_wf (reap_idle now rn) \<and> ru_drivers (reap_idle now rn) = ru_drivers rn"
proof -
  have drivers: "ru_drivers (reap_idle now rn) = ru_drivers rn"
    unfolding reap_idle_def Let_def by (rule reap_fold(1))
  have "hm_wf (ru_workers (reap_idle now rn))"
    unfolding reap_idle_def Let_def using assms by (intro reap_fold(4)) (simp add: runner_wf_def)
  then show ?thesis
    using runner_wf_get [OF assms] reap_get [OF assms, of now]
    by (auto simp: runner_wf_def drivers split: option.splits if_splits)
qed

text \<open>
  Reaping is exact. \<open>reap_idle\<close> removes precisely the workers whose child is gone or that
  have been idle longer than their window, keeps every other one unchanged, stops no driver by
  itself, and counts one destruction for each worker removed.
\<close>

theorem reap_exact:
  assumes "runner_wf rn"
  shows "runner_wf (reap_idle now rn) \<and> ru_drivers (reap_idle now rn) = ru_drivers rn \<and>
    hm_get (ru_workers (reap_idle now rn)) k =
      (case hm_get (ru_workers rn) k of
         Some w \<Rightarrow> if dr_alive (ru_drivers rn ! wk_tx w) \<and> idle_for now w \<le> wk_idle_ms w then Some w else None
       | None \<Rightarrow> None) \<and>
    mt_child_destroys_total (ru_metrics (reap_idle now rn)) = mt_child_destroys_total (ru_metrics rn) +
      of_nat (length (filter (\<lambda>kw. reapable now rn (snd kw)) (ru_workers rn)))"
proof -
  have "mt_child_destroys_total (ru_metrics (reap_idle now rn)) = mt_child_destroys_total (ru_metrics rn) +
      of_nat (length (map fst (filter (\<lambda>kw. reapable now rn (snd kw)) (ru_workers rn))))"
    unfolding reap_idle_def Let_def by (rule reap_fold(3))
  then show ?thesis
    using reap_get [OF assms, of now k] reap_wf [OF assms, of now]
    by (auto simp: reapable_def worker_alive_def not_less split: option.splits)
qed

lemma reap_exact_witness:
  "hm_get (ru_workers (reap_idle 0 (runner_new zero_metrics))) ''k'' = None"
  using reap_exact [OF runner_wf_new, of 0 zero_metrics "''k''"] by (simp add: runner_new_def)

subsection \<open>The pool gate\<close>

lemma pool_target_valid:
  assumes "pool_dispatch_target env def = Dispatch subject slug"
  shows "safe_nats_subject subject \<and> (slug = [] \<or> safe_pool_slug slug)"
  using assms by (auto simp: pool_dispatch_target_def Let_def split: if_splits)

text \<open>
  The pool gate. When a definition is not run locally, the request goes out on a valid
  subject with no blank, wildcard or quote; and when the fallback is switched off, a failing
  pool never starts or touches a local process: the workers and drivers are unchanged, the
  caller gets the reason, and one failure is counted.
\<close>

theorem pool_gate:
  assumes "pool_dispatch_target (h_env h) def = target" and "target \<noteq> Local"
    and "\<not> env_bool (h_env h) ''LAMBDA_POOL_FALLBACK_LOCAL'' True"
    and "invoke_loaded_definition h fallback i def request idle timeout rn = (rn', res)"
  shows "ru_workers rn' = ru_workers rn \<and> ru_drivers rn' = ru_drivers rn \<and>
    (case target of
       Dispatch subject slug \<Rightarrow> list_all word_char subject \<and> list_all word_char slug \<and>
         res = h_pool h subject slug i (invocation_payload i def request)
                 (timeout_ms_from_definition def timeout) \<and>
         mt_pool_dispatch_failures_total (ru_metrics rn') =
           mt_pool_dispatch_failures_total (ru_metrics rn) + (if isl res then 1 else 0)
     | PoolError reason \<Rightarrow> res = Inl reason
     | Local \<Rightarrow> True)"
proof (cases target)
  case (Dispatch subject slug)
  with assms(1) have "safe_nats_subject subject" "slug = [] \<or> safe_pool_slug slug"
    using pool_target_valid by auto
  then have "list_all word_char subject" "list_all word_char slug"
    using nats_subject.valid_word pool_slug.valid_word by auto
  moreover obtain r where r: "h_pool h subject slug i (invocation_payload i def request)
      (timeout_ms_from_definition def timeout) = r" by blast
  ultimately show ?thesis
    using Dispatch assms
    by (cases r) (auto simp: invoke_loaded_definition_def dispatch_via_pool_def Let_def r)
qed (use assms in \<open>auto simp: invoke_loaded_definition_def\<close>)

definition strict_pool :: environ where
  "strict_pool name = (if name = ''LAMBDA_POOL_FALLBACK_LOCAL'' then Some ''0''
     else if name = ''LAMBDA_POOL_DISPATCH_DEFAULT'' then Some ''1''
     else if name = ''LAMBDA_POOL_SUBJECT'' then Some ''p.q'' else None)"

lemma pool_gate_witness:
  "snd (invoke_loaded_definition (sample_host\<lparr>h_env := strict_pool\<rparr>) ''node'' ''f'' ''{}'' ''1'' 1000 1000
     (runner_new zero_metrics)) = Inl ''down''"
proof -
  let ?h = "sample_host\<lparr>h_env := strict_pool\<rparr>"
  have t: "pool_dispatch_target (h_env ?h) ''{}'' = Dispatch ''p.q'' []" by code_simp
  have f: "\<not> env_bool (h_env ?h) ''LAMBDA_POOL_FALLBACK_LOCAL'' True" by code_simp
  obtain rn' res where i: "invoke_loaded_definition ?h ''node'' ''f'' ''{}'' ''1'' 1000 1000
      (runner_new zero_metrics) = (rn', res)" by fastforce
  from pool_gate [OF t _ f i] have "res = Inl ''down''" by (simp add: sample_host_def)
  with i show ?thesis by simp
qed

end
