(* ===== verification/Child_System.thy ===== *)
theory Child_System
  imports Child_Props
begin

section \<open>Concurrent invocations of the pool\<close>

text \<open>
  The tasks that call \<open>invoke_worker\<close>, the driver tasks and the children as one transition
  system: each step is one critical section of the source, or one event of a pipe. A call is
  a \<open>ticket\<close>; its phase is the point its task has reached.
\<close>

subsection \<open>States and steps\<close>

text \<open>
  \<open>Finished\<close> carries, beside the result, the driver the invocation was sent to, if it was sent.
\<close>

datatype phase =
    Arrived
  | Spawning
  | Sending nat
  | Waiting nat
  | Answered nat "string + string"
  | Finished "nat option" "string + string"

record ticket =
  tk_command :: string
  tk_key :: string
  tk_payload :: string
  tk_idle_ms :: u64
  tk_phase :: phase









subsection \<open>The invariant\<close>

fun phase_tx :: "phase \<Rightarrow> nat option" where
  "phase_tx (Sending tx) = Some tx"
| "phase_tx (Waiting tx) = Some tx"
| "phase_tx (Answered tx _) = Some tx"
| "phase_tx (Finished tx _) = tx"
| "phase_tx _ = None"

fun sent :: "phase \<Rightarrow> bool" where
  "sent (Waiting _) = True"
| "sent (Answered _ _) = True"
| "sent (Finished _ _) = True"
| "sent _ = False"








subsection \<open>Its preservation\<close>

text \<open>How a ticket may change: its call stays, and once sent it stays with its driver.\<close>

definition ticket_le :: "ticket \<Rightarrow> ticket \<Rightarrow> bool" where
  "ticket_le t t' \<longleftrightarrow> tk_payload t' = tk_payload t \<and> tk_command t' = tk_command t \<and>
     (sent (tk_phase t) \<longrightarrow> sent (tk_phase t') \<and> phase_tx (tk_phase t') = phase_tx (tk_phase t))"

definition tickets_le :: "ticket list \<Rightarrow> ticket list \<Rightarrow> bool" where
  "tickets_le ts ts' \<longleftrightarrow> length ts \<le> length ts' \<and> (\<forall>j < length ts. ticket_le (ts ! j) (ts' ! j))"

lemma tickets_le_refl [simp]: "tickets_le ts ts"
  by (simp add: tickets_le_def ticket_le_def)


































subsection \<open>Isolation of concurrent invocations\<close>



end
