(* ===== verification/Net_Addr.thy ===== *)
theory Net_Addr
  imports Rust_Text
begin

section \<open>IP addresses\<close>

text \<open>
  \<open>str::parse::<IpAddr>\<close> of the standard library, which \<open>src/config.rs\<close> uses for the listening
  host and \<open>src/nats.rs\<close> for its transport policy. A reader returns what it read with the rest
  of the text, or \<open>None\<close> and then has consumed nothing.
\<close>

datatype ip_addr = V4 "nat list" | V6 "nat list"

definition hex_val :: "char \<Rightarrow> nat option" where
  "hex_val c =
     (if is_ascii_digit c then Some (byte c - 48)
      else if 97 \<le> byte c \<and> byte c \<le> 102 then Some (byte c - 87)
      else if 65 \<le> byte c \<and> byte c \<le> 70 then Some (byte c - 55)
      else None)"

definition to_digit :: "nat \<Rightarrow> char \<Rightarrow> nat option" where
  "to_digit radix c = (case hex_val c of Some d \<Rightarrow> if d < radix then Some d else None | None \<Rightarrow> None)"

definition read_char :: "char \<Rightarrow> string \<Rightarrow> string option" where
  "read_char c s = (case s of [] \<Rightarrow> None | x # r \<Rightarrow> if x = c then Some r else None)"

text \<open>\<open>read_number(radix, Some(max_digits), allow_zero_prefix)\<close> for a type with the given maximum.\<close>

definition read_number :: "nat \<Rightarrow> nat \<Rightarrow> bool \<Rightarrow> nat \<Rightarrow> string \<Rightarrow> (nat \<times> string) option" where
  "read_number radix max_digits allow_zero_prefix mx s =
     (let ds = takeWhile (\<lambda>c. to_digit radix c \<noteq> None) s;
          v = foldl (\<lambda>acc c. acc * radix + the (to_digit radix c)) 0 ds
      in if ds = [] \<or> max_digits < length ds then None
         else if \<not> allow_zero_prefix \<and> hd ds = CHR ''0'' \<and> 1 < length ds then None
         else if mx < v then None
         else Some (v, drop (length ds) s))"

definition read_separator ::
    "char \<Rightarrow> nat \<Rightarrow> (string \<Rightarrow> ('a \<times> string) option) \<Rightarrow> string \<Rightarrow> ('a \<times> string) option" where
  "read_separator sep i inner s =
     (if i = 0 then inner s else (case read_char sep s of None \<Rightarrow> None | Some r \<Rightarrow> inner r))"

definition read_octet :: "nat \<Rightarrow> string \<Rightarrow> (nat \<times> string) option" where
  "read_octet i s = read_separator (CHR ''.'') i (read_number 10 3 False 255) s"

definition read_ipv4_addr :: "string \<Rightarrow> (nat list \<times> string) option" where
  "read_ipv4_addr s =
     (case read_octet 0 s of None \<Rightarrow> None | Some (a, s1) \<Rightarrow>
     (case read_octet 1 s1 of None \<Rightarrow> None | Some (b, s2) \<Rightarrow>
     (case read_octet 2 s2 of None \<Rightarrow> None | Some (c, s3) \<Rightarrow>
     (case read_octet 3 s3 of None \<Rightarrow> None | Some (d, s4) \<Rightarrow> Some ([a, b, c, d], s4)))))"

text \<open>
  \<open>read_groups\<close> with \<open>n\<close> slots left at position \<open>i\<close>: the groups read, whether they end in an
  embedded IPv4 address, and the rest.
\<close>

fun read_groups :: "nat \<Rightarrow> nat \<Rightarrow> string \<Rightarrow> nat list \<times> bool \<times> string" where
  "read_groups 0 i s = ([], False, s)"
| "read_groups (Suc n) i s =
     (case (if n = 0 then None else read_separator (CHR '':'') i read_ipv4_addr s) of
        Some (q, r) \<Rightarrow> ([q ! 0 * 256 + q ! 1, q ! 2 * 256 + q ! 3], True, r)
      | None \<Rightarrow>
          (case read_separator (CHR '':'') i (read_number 16 4 True 65535) s of
             None \<Rightarrow> ([], False, s)
           | Some (g, r) \<Rightarrow> (let (gs, v4, r') = read_groups n (Suc i) r in (g # gs, v4, r'))))"

definition read_ipv6_addr :: "string \<Rightarrow> (nat list \<times> string) option" where
  "read_ipv6_addr s =
     (let (front, v4, r) = read_groups 8 0 s
      in if length front = 8 then Some (front, r)
         else if v4 then None
         else
           (case Option.bind (read_char (CHR '':'') r) (read_char (CHR '':'')) of
              None \<Rightarrow> None
            | Some r' \<Rightarrow>
                (let (rear, _, r'') = read_groups (8 - (length front + 1)) 0 r'
                 in Some (front @ replicate (8 - length front - length rear) 0 @ rear, r''))))"

definition parse_ip :: "string \<Rightarrow> ip_addr option" where
  "parse_ip s =
     (case (case read_ipv4_addr s of
              Some (q, r) \<Rightarrow> Some (V4 q, r)
            | None \<Rightarrow> map_option (\<lambda>(g, r). (V6 g, r)) (read_ipv6_addr s)) of
        Some (a, r) \<Rightarrow> if r = [] then Some a else None
      | None \<Rightarrow> None)"

fun is_loopback :: "ip_addr \<Rightarrow> bool" where
  "is_loopback (V4 q) = (q ! 0 = 127)"
| "is_loopback (V6 g) = (g = [0, 0, 0, 0, 0, 0, 0, 1])"

text \<open>What is read is an address: four octets, or eight groups of sixteen bits.\<close>

lemma read_number_le: "read_number radix n z mx s = Some (v, r) \<Longrightarrow> v \<le> mx"
  by (auto simp: read_number_def Let_def split: if_splits)

lemma read_octet_le: "read_octet i s = Some (v, r) \<Longrightarrow> v \<le> 255"
  by (auto simp: read_octet_def read_separator_def dest: read_number_le split: if_splits option.splits)

lemma read_ipv4_wf: "read_ipv4_addr s = Some (q, r) \<Longrightarrow> length q = 4 \<and> list_all (\<lambda>x. x \<le> 255) q"
  by (auto simp: read_ipv4_addr_def dest!: read_octet_le split: option.splits prod.splits)

lemma read_separator_Some:
  assumes "read_separator sep i inner s = Some x"
  shows "\<exists>s'. inner s' = Some x"
  using assms by (auto simp: read_separator_def split: if_splits option.splits)

lemma read_groups_wf:
  assumes "read_groups n i s = (gs, v4, r)"
  shows "length gs \<le> n \<and> list_all (\<lambda>x. x \<le> 65535) gs"
  using assms
proof (induction n i s arbitrary: gs v4 r rule: read_groups.induct)
  case (2 n i s)
  let ?v4 = "if n = 0 then None else read_separator (CHR '':'') i read_ipv4_addr s"
  show ?case
  proof (cases ?v4)
    case (Some x)
    obtain q r' where x: "x = (q, r')" by (cases x)
    from Some x obtain s' where "read_ipv4_addr s' = Some (q, r')"
      by (auto split: if_splits dest: read_separator_Some)
    from read_ipv4_wf [OF this] obtain a b c d where q: "q = [a, b, c, d]"
      "a \<le> 255" "b \<le> 255" "c \<le> 255" "d \<le> 255"
      by (auto simp: numeral_eq_Suc length_Suc_conv)
    from Some have "0 < n" by (auto split: if_splits)
    with "2.prems" Some x q show ?thesis by auto
  next
    case None
    show ?thesis
    proof (cases "read_separator (CHR '':'') i (read_number 16 4 True 65535) s")
      case None
      with \<open>?v4 = None\<close> "2.prems" show ?thesis by auto
    next
      case (Some y)
      obtain g r' where y: "y = (g, r')" by (cases y)
      with Some have "g \<le> 65535" by (auto dest!: read_separator_Some read_number_le)
      obtain gs' v' r'' where rec: "read_groups n (Suc i) r' = (gs', v', r'')" by (metis prod_cases3)
      with "2.IH" [OF None Some y [symmetric]] have "length gs' \<le> n \<and> list_all (\<lambda>x. x \<le> 65535) gs'" by blast
      with "2.prems" None Some y rec \<open>g \<le> 65535\<close> show ?thesis by auto
    qed
  qed
qed simp

definition ip_wf :: "ip_addr \<Rightarrow> bool" where
  "ip_wf a \<longleftrightarrow> (case a of V4 q \<Rightarrow> length q = 4 \<and> list_all (\<lambda>x. x \<le> 255) q
     | V6 g \<Rightarrow> length g = 8 \<and> list_all (\<lambda>x. x \<le> 65535) g)"

lemma read_ipv6_wf:
  assumes "read_ipv6_addr s = Some (g, r)"
  shows "length g = 8 \<and> list_all (\<lambda>x. x \<le> 65535) g"
proof -
  obtain front v4 r1 where f: "read_groups 8 0 s = (front, v4, r1)" by (metis prod_cases3)
  note front = read_groups_wf [OF f]
  show ?thesis
  proof (cases "length front = 8")
    case True
    with assms f front show ?thesis by (simp add: read_ipv6_addr_def)
  next
    case False
    with assms f obtain r2 where r2:
      "Option.bind (read_char (CHR '':'') r1) (read_char (CHR '':'')) = Some r2" "\<not> v4"
      by (auto simp: read_ipv6_addr_def split: if_splits option.splits)
    obtain rear v4' r3 where b: "read_groups (8 - (length front + 1)) 0 r2 = (rear, v4', r3)"
      by (metis prod_cases3)
    note rear = read_groups_wf [OF b]
    from assms f False r2 b
    have "g = front @ replicate (8 - length front - length rear) 0 @ rear"
      by (simp add: read_ipv6_addr_def)
    moreover have "length front + (8 - length front - length rear + length rear) = 8"
      using front rear False by linarith
    ultimately show ?thesis using front rear by (auto simp: list_all_iff)
  qed
qed

lemma parse_ip_wf: "parse_ip s = Some a \<Longrightarrow> ip_wf a"
  using read_ipv4_wf [of s] read_ipv6_wf [of s]
  by (auto simp: parse_ip_def ip_wf_def split: option.splits if_splits)

end
