(* ===== verification/Nats.thy ===== *)
theory Nats
  imports Net_Addr Metrics Runtime
begin

section \<open>NATS\<close>

text \<open>
  The model of \<open>src/nats.rs\<close>. The client library (\<open>async_nats\<close>, \<open>fiducia_messaging\<close>) is not
  under src/: it is the record \<open>broker\<close>, how it behaves at the moment of an operation. An
  instant is a number of nanoseconds.
\<close>

subsection \<open>Transport policy\<close>

datatype TlsPolicy = Required | LoopbackPlaintext | ExplicitPlaintext

datatype fallback_decision = CoreNats | SurfaceError

definition fallback_after_unacked :: "bool \<Rightarrow> fallback_decision" where
  "fallback_after_unacked strict_publish = (if strict_publish then SurfaceError else CoreNats)"

definition eq_ignore_ascii_case :: "string \<Rightarrow> string \<Rightarrow> bool" where
  "eq_ignore_ascii_case a b \<longleftrightarrow> to_ascii_lowercase a = to_ascii_lowercase b"

definition flag_enabled :: "string option \<Rightarrow> bool" where
  "flag_enabled v =
     (case v of None \<Rightarrow> False
      | Some s \<Rightarrow> trim s = ''1'' \<or> eq_ignore_ascii_case (trim s) ''true'')"

definition env_flag :: "environ \<Rightarrow> string \<Rightarrow> bool" where
  "env_flag env key = flag_enabled (env key)"

text \<open>\<open>str::split_once\<close> at the first match, \<open>rsplit_once\<close> at the last, for one character.\<close>

fun split_once :: "string \<Rightarrow> string \<Rightarrow> (string \<times> string) option" where
  "split_once p [] = None"
| "split_once p (c # s) =
     (if prefix p (c # s) then Some ([], drop (length p) (c # s))
      else map_option (\<lambda>(a, b). (c # a, b)) (split_once p s))"

definition rsplit_once :: "char \<Rightarrow> string \<Rightarrow> (string \<times> string) option" where
  "rsplit_once c s = map_option (\<lambda>(a, b). (rev b, rev a)) (split_once [c] (rev s))"

definition url_host :: "string \<Rightarrow> string" where
  "url_host server =
     (let r1 = (case split_once ''://'' server of Some (_, r) \<Rightarrow> r | None \<Rightarrow> server);
          r2 = (case rsplit_once (CHR ''@'') r1 of Some (_, h) \<Rightarrow> h | None \<Rightarrow> r1);
          r3 = takeWhile (\<lambda>c. c \<noteq> CHR ''/'' \<and> c \<noteq> CHR ''?'') r2
      in (case read_char (CHR ''['') r3 of
            Some bracketed \<Rightarrow> takeWhile (\<lambda>c. c \<noteq> CHR '']'') bracketed
          | None \<Rightarrow>
              (case split_once '':'' r3 of
                 Some (host, port) \<Rightarrow>
                   (if port \<noteq> [] \<and> list_all is_ascii_digit port then host else r3)
               | None \<Rightarrow> r3)))"

definition host_is_loopback :: "string \<Rightarrow> bool" where
  "host_is_loopback host \<longleftrightarrow> eq_ignore_ascii_case host ''localhost'' \<or>
     (case parse_ip host of Some ip \<Rightarrow> is_loopback ip | None \<Rightarrow> False)"

definition tls_policy :: "string \<Rightarrow> bool \<Rightarrow> bool \<Rightarrow> TlsPolicy" where
  "tls_policy url require_tls allow_plaintext =
     (if require_tls then Required
      else if list_all (\<lambda>server. host_is_loopback (url_host (trim server))) (split_on (CHR '','') url)
        then LoopbackPlaintext
      else if allow_plaintext then ExplicitPlaintext
      else Required)"

subsection \<open>The connection\<close>

datatype request_outcome = Responded string | RequestRefused string | RequestElapsed

text \<open>
  The credentials file is readable; a connection (TLS required, credentials, URL) succeeds;
  JetStream acknowledges; Core NATS accepts; what a request of a subject and body meets within
  its timeout.
\<close>

record broker =
  br_creds_ok :: "string \<Rightarrow> bool"
  br_connect :: "bool \<Rightarrow> string option \<Rightarrow> string \<Rightarrow> bool"
  br_ack :: "string \<Rightarrow> string \<Rightarrow> string \<Rightarrow> bool"
  br_core :: "string \<Rightarrow> string \<Rightarrow> bool"
  br_request :: "string \<Rightarrow> string \<Rightarrow> u64 \<Rightarrow> request_outcome"

text \<open>
  The log label of an event of \<open>async_nats\<close>; the text a server sends along is not part of it.
\<close>

datatype nats_event = Connected | Disconnected | LameDuckMode | Draining | Closed
  | SlowConsumer u64 | ServerError string | ClientError string

fun connection_event_label :: "nats_event \<Rightarrow> string" where
  "connection_event_label Connected = ''connected''"
| "connection_event_label Disconnected = ''disconnected''"
| "connection_event_label LameDuckMode = ''lame_duck_mode''"
| "connection_event_label Draining = ''draining''"
| "connection_event_label Closed = ''closed''"
| "connection_event_label (SlowConsumer _) = ''slow_consumer''"
| "connection_event_label (ServerError _) = ''server_error''"
| "connection_event_label (ClientError _) = ''client_error''"

definition connect_to_nats :: "environ \<Rightarrow> broker \<Rightarrow> string \<Rightarrow> bool" where
  "connect_to_nats env br url =
     (let policy = tls_policy url (env_flag env ''FIDUCIA_NATS_REQUIRE_TLS'')
                     (env_flag env ''FIDUCIA_NATS_ALLOW_PLAINTEXT'')
      in (case env ''NATS_CREDS_FILE'' of
            Some path \<Rightarrow> br_creds_ok br path \<and> br_connect br (policy = Required) (Some path) url
          | None \<Rightarrow> br_connect br (policy = Required) None url))"

record connection_state =
  cs_client :: bool
  cs_last_attempt :: "nat option"

record nats =
  na_url :: "string option"
  na_strict_publish :: bool
  na_connection :: connection_state
  na_metrics :: metrics

definition nats_new :: "environ \<Rightarrow> string option \<Rightarrow> metrics \<Rightarrow> nats" where
  "nats_new env url m =
     \<lparr> na_url = url, na_strict_publish = env_flag env ''FIDUCIA_NATS_STRICT_PUBLISH'',
       na_connection = \<lparr> cs_client = False, cs_last_attempt = None \<rparr>, na_metrics = m \<rparr>"

definition RETRY_NANOS :: nat where
  "RETRY_NANOS = 5000000000"

definition recent_attempt :: "nat \<Rightarrow> nats \<Rightarrow> bool" where
  "recent_attempt now n =
     (case cs_last_attempt (na_connection n) of
        Some t \<Rightarrow> now - t < RETRY_NANOS
      | None \<Rightarrow> False)"

text \<open>
  \<open>client\<close>, which holds the connection's mutex throughout: \<open>now\<close> is the reading of \<open>elapsed()\<close>,
  \<open>later\<close> that of \<open>Instant::now()\<close>.
\<close>

definition nats_client :: "environ \<Rightarrow> broker \<Rightarrow> nat \<Rightarrow> nat \<Rightarrow> nats \<Rightarrow> nats \<times> bool" where
  "nats_client env br now later n =
     (case na_url n of
        None \<Rightarrow> (n, False)
      | Some url \<Rightarrow>
          (if cs_client (na_connection n) then (n, True)
           else if recent_attempt now n then (n, False)
           else
             (let m = (na_metrics n)\<lparr>mt_nats_connect_attempts_total :=
                        mt_nats_connect_attempts_total (na_metrics n) + 1\<rparr>;
                  conn = (na_connection n)\<lparr>cs_last_attempt := Some later\<rparr>
              in if connect_to_nats env br url then
                   (n\<lparr>na_connection := conn\<lparr>cs_client := True\<rparr>, na_metrics := m\<rparr>, True)
                 else
                   (n\<lparr>na_connection := conn,
                      na_metrics := m\<lparr>mt_nats_connect_failures_total :=
                        mt_nats_connect_failures_total m + 1\<rparr>\<rparr>, False))))"

definition invalidate_client :: "nats \<Rightarrow> nats" where
  "invalidate_client n = n\<lparr>na_connection := (na_connection n)\<lparr>cs_client := False\<rparr>\<rparr>"

definition nats_tally :: "(metrics \<Rightarrow> metrics) \<Rightarrow> nats \<Rightarrow> nats" where
  "nats_tally f n = n\<lparr>na_metrics := f (na_metrics n)\<rparr>"

subsection \<open>Publishing\<close>

text \<open>
  An envelope is its encoding, if it has one, and its deduplication key (both computed by
  \<open>fiducia_messaging\<close>). The second result is what was handed to the broker, in order.
\<close>

record envelope =
  en_bytes :: "string option"
  en_dedup_id :: string

datatype sent = ToJetStream string string string | ToCore string string

definition nats_publish_event ::
    "environ \<Rightarrow> broker \<Rightarrow> nat \<Rightarrow> nat \<Rightarrow> string \<Rightarrow> envelope \<Rightarrow> nats \<Rightarrow> nats \<times> sent list" where
  "nats_publish_event env br now later subject ev n =
     (case nats_client env br now later n of
        (n1, False) \<Rightarrow>
          (if na_url n1 \<noteq> None
           then (nats_tally (\<lambda>m. m\<lparr>mt_nats_unavailable_drops_total :=
                   mt_nats_unavailable_drops_total m + 1\<rparr>) n1, [])
           else (nats_tally (\<lambda>m. m\<lparr>mt_nats_unconfigured_skips_total :=
                   mt_nats_unconfigured_skips_total m + 1\<rparr>) n1, []))
      | (n1, True) \<Rightarrow>
          (case en_bytes ev of
             None \<Rightarrow> (nats_tally (\<lambda>m. m\<lparr>mt_nats_serialization_failures_total :=
                        mt_nats_serialization_failures_total m + 1\<rparr>) n1, [])
           | Some bytes \<Rightarrow>
               (let js = ToJetStream subject (en_dedup_id ev) bytes
                in if br_ack br subject (en_dedup_id ev) bytes then
                     (nats_tally (\<lambda>m. m\<lparr>mt_nats_event_published_total :=
                        mt_nats_event_published_total m + 1\<rparr>) n1, [js])
                   else if fallback_after_unacked (na_strict_publish n1) = SurfaceError then
                     (invalidate_client (nats_tally (\<lambda>m. m\<lparr>mt_nats_publish_failures_total :=
                        mt_nats_publish_failures_total m + 1\<rparr>) n1), [js])
                   else if br_core br subject bytes then
                     (nats_tally (\<lambda>m. m\<lparr>mt_nats_core_fallback_total :=
                        mt_nats_core_fallback_total m + 1\<rparr>) n1, [js, ToCore subject bytes])
                   else
                     (invalidate_client (nats_tally (\<lambda>m. m\<lparr>mt_nats_publish_failures_total :=
                        mt_nats_publish_failures_total m + 1\<rparr>) n1), [js, ToCore subject bytes]))))"

subsection \<open>Container-pool dispatch\<close>

definition pool_request :: "string \<Rightarrow> string \<Rightarrow> string \<Rightarrow> json" where
  "pool_request pool_slug identifier payload = JObj (obj_of
     [(''poolSlug'', JStr pool_slug), (''identifier'', JStr identifier), (''payload'', JStr payload)])"

definition pool_dispatch ::
    "serde \<Rightarrow> environ \<Rightarrow> broker \<Rightarrow> nat \<Rightarrow> nat \<Rightarrow> string \<Rightarrow> string \<Rightarrow> string \<Rightarrow> string \<Rightarrow> u64 \<Rightarrow> nats \<Rightarrow>
     nats \<times> (string + string)" where
  "pool_dispatch sj env br now later subject pool_slug identifier payload timeout_ms n =
     (case nats_client env br now later n of
        (n1, False) \<Rightarrow>
          (n1, Inl (if na_url n1 \<noteq> None then ''NATS is temporarily unavailable''
                    else ''NATS is not configured''))
      | (n1, True) \<Rightarrow>
          (let body = sj_print sj (pool_request pool_slug identifier payload)
           in (n1, (case br_request br subject body (max timeout_ms 1000) of
                      Responded msg \<Rightarrow>
                        (if utf8_valid msg then Inr msg else Inl ''pool response was not utf8'')
                    | RequestRefused _ \<Rightarrow> Inl ''pool request failed''
                    | RequestElapsed \<Rightarrow> Inl ''pool dispatch timed out''))))"

end
