(* ===== verification/Nats_Props.thy ===== *)
theory Nats_Props
  imports Nats
begin

section \<open>Properties of the NATS layer\<close>

text \<open>
  The claims on \<open>src/nats.rs\<close>: when the transport may be plaintext, how often a connection is
  tried, what a publication counts and sends, what a pool error may say.
\<close>

subsection \<open>The host of a server URL\<close>

lemma split_once_single: "c \<notin> set a \<Longrightarrow> split_once [c] (a @ c # b) = Some (a, b)"
  by (induction a) auto


lemma rsplit_once_last: "c \<notin> set b \<Longrightarrow> rsplit_once c (a @ c # b) = Some (a, b)"
  by (simp add: rsplit_once_def split_once_single)


lemma split_once_scheme: "CHR '':'' \<notin> set scheme \<Longrightarrow> split_once ''://'' (scheme @ ''://'' @ r) = Some (scheme, r)"
  by (induction scheme) auto








text \<open>
  C38: An at sign after the host defeats it. The user information is cut off at the last at sign of
  the whole text, path and query included, so a remote server followed by a path that ends in
  \<open>@localhost\<close> is taken for loopback and may be reached in plaintext with no opt-out.
\<close>

theorem at_sign_in_path_bypasses_tls:
  assumes "CHR '','' \<notin> set (h @ path)" "trim url = url" "url = ''nats://'' @ h @ ''/'' @ path @ ''@localhost''"
  shows "tls_policy url False False = LoopbackPlaintext"
proof -
  have "CHR ''@'' \<notin> set ''localhost''" by simp
  from rsplit_once_last [OF this, of "h @ ''/'' @ path"]
  have r: "rsplit_once (CHR ''@'') (h @ ''/'' @ path @ ''@localhost'') = Some (h @ ''/'' @ path, ''localhost'')"
    by simp
  have s: "split_once ''://'' url = Some (''nats'', h @ ''/'' @ path @ ''@localhost'')"
    using split_once_scheme [of "''nats''" "h @ ''/'' @ path @ ''@localhost''"] by (simp add: assms(3))
  have "url_host url = ''localhost''"
    unfolding url_host_def s using r by (simp add: read_char_def Let_def)
  moreover have "CHR '','' \<notin> set url" using assms(1) by (simp add: assms(3))
  then have "split_on (CHR '','') url = [url]" by (induction url) auto
  ultimately show ?thesis
    using assms(2) by (simp add: tls_policy_def host_is_loopback_def eq_ignore_ascii_case_def)
qed


lemma at_sign_in_path_bypasses_tls_witness:
  "tls_policy ''nats://evil.example/x@localhost'' False False = LoopbackPlaintext"
proof -
  have "trim ''nats://evil.example/x@localhost'' = ''nats://evil.example/x@localhost''" by code_simp
  from at_sign_in_path_bypasses_tls [of "''evil.example''" "''x''", OF _ this] show ?thesis by simp
qed

subsection \<open>Connecting\<close>

text \<open>
  The calls of \<open>client\<close> and \<open>invalidate_client\<close> in the order the mutex serializes them, with the
  two clock readings of each call; the instants at which a connection was tried.
\<close>

datatype nats_op = Connect environ broker nat nat | Invalidate

definition op_attempts :: "nats_op \<Rightarrow> nats \<Rightarrow> nat list" where
  "op_attempts op n =
     (case op of
        Connect env br now later \<Rightarrow>
          (if na_url n \<noteq> None \<and> \<not> cs_client (na_connection n) \<and> \<not> recent_attempt now n then [later] else [])
      | Invalidate \<Rightarrow> [])"

definition op_apply :: "nats_op \<Rightarrow> nats \<Rightarrow> nats" where
  "op_apply op n =
     (case op of
        Connect env br now later \<Rightarrow> fst (nats_client env br now later n)
      | Invalidate \<Rightarrow> invalidate_client n)"

fun attempts :: "nats_op list \<Rightarrow> nats \<Rightarrow> nat list" where
  "attempts [] n = []"
| "attempts (op # ops) n = op_attempts op n @ attempts ops (op_apply op n)"

fun op_clock_ok :: "nats_op \<Rightarrow> bool" where
  "op_clock_ok (Connect env br now later) = (now \<le> later)"
| "op_clock_ok Invalidate = True"

lemma op_attempts_counted:
  "mt_nats_connect_attempts_total (na_metrics (op_apply op n)) =
     mt_nats_connect_attempts_total (na_metrics n) + of_nat (length (op_attempts op n))"
  by (auto simp: op_apply_def op_attempts_def nats_client_def invalidate_client_def Let_def
      split: nats_op.split option.split)

lemma op_last_attempt:
  "op_attempts op n = [t] \<Longrightarrow> cs_last_attempt (na_connection (op_apply op n)) = Some t"
  "op_attempts op n = [] \<Longrightarrow>
     cs_last_attempt (na_connection (op_apply op n)) = cs_last_attempt (na_connection n)"
  by (auto simp: op_apply_def op_attempts_def nats_client_def invalidate_client_def Let_def
      split: nats_op.splits option.splits if_splits)

lemma op_attempts_cases:
  assumes "op_clock_ok op"
  shows "op_attempts op n = [] \<or> (\<exists>t. op_attempts op n = [t] \<and>
    (case cs_last_attempt (na_connection n) of None \<Rightarrow> True | Some u \<Rightarrow> u + RETRY_NANOS \<le> t))"
  using assms
  by (cases op) (auto simp: op_attempts_def recent_attempt_def RETRY_NANOS_def split: option.splits)

text \<open>
  Reconnection is throttled. Whatever the calls, failures and invalidations, two successive
  connection attempts are at least five seconds apart, and the attempts counter counts exactly
  them; with no URL there is none.
\<close>

theorem reconnect_throttled:
  assumes "list_all op_clock_ok ops"
  shows "sorted_wrt (\<lambda>t u. t + 5000000000 \<le> u) (attempts ops n) \<and>
    mt_nats_connect_attempts_total (na_metrics (fold op_apply ops n)) =
      mt_nats_connect_attempts_total (na_metrics n) + of_nat (length (attempts ops n)) \<and>
    (na_url n = None \<longrightarrow> attempts ops n = [])"
proof -
  have after: "sorted_wrt (\<lambda>t u. t + RETRY_NANOS \<le> u) (attempts ops n) \<and>
      (case cs_last_attempt (na_connection n) of None \<Rightarrow> True
       | Some u \<Rightarrow> \<forall>t \<in> set (attempts ops n). u + RETRY_NANOS \<le> t)"
    using assms
  proof (induction ops arbitrary: n)
    case Nil
    then show ?case by (simp split: option.split)
  next
    case (Cons op ops)
    from Cons.prems have op: "op_clock_ok op" and "list_all op_clock_ok ops" by simp_all
    note IH = Cons.IH [OF this(2), of "op_apply op n"]
    from op_attempts_cases [OF op, of n] show ?case
    proof (elim disjE exE conjE)
      assume "op_attempts op n = []"
      with IH op_last_attempt(2) [OF this] show ?thesis by (auto split: option.splits)
    next
      fix t
      assume t: "op_attempts op n = [t]"
        "case cs_last_attempt (na_connection n) of None \<Rightarrow> True | Some u \<Rightarrow> u + RETRY_NANOS \<le> t"
      with IH op_last_attempt(1) [OF t(1)] show ?thesis
        by (auto split: option.splits)
    qed
  qed
  have counted: "mt_nats_connect_attempts_total (na_metrics (fold op_apply ops n)) =
      mt_nats_connect_attempts_total (na_metrics n) + of_nat (length (attempts ops n))"
    by (induction ops arbitrary: n) (simp_all add: op_attempts_counted)
  have url: "na_url (op_apply op n) = na_url n" for op n
    by (auto simp: op_apply_def nats_client_def invalidate_client_def Let_def
        split: nats_op.split option.split)
  have "na_url n = None \<longrightarrow> attempts ops n = []"
    by (induction ops arbitrary: n) (auto simp: url op_attempts_def split: nats_op.split)
  with after counted show ?thesis by (simp add: RETRY_NANOS_def)
qed

definition dead_broker :: broker where
  "dead_broker = \<lparr> br_creds_ok = (\<lambda>_. False), br_connect = (\<lambda>_ _ _. False), br_ack = (\<lambda>_ _ _. False),
     br_core = (\<lambda>_ _. False), br_request = (\<lambda>_ _ _. RequestElapsed) \<rparr>"

lemma reconnect_throttled_witness:
  "attempts (map (\<lambda>t. Connect (\<lambda>_. None) dead_broker t t) [0, 3000000000, 6000000000])
     (nats_new (\<lambda>_. None) (Some ''nats://localhost'') zero_metrics) = [0, 6000000000] \<and>
   sorted_wrt (\<lambda>t u. t + 5000000000 \<le> u)
     (attempts (map (\<lambda>t. Connect (\<lambda>_. None) dead_broker t t) [0, 3000000000, 6000000000])
       (nats_new (\<lambda>_. None) (Some ''nats://localhost'') zero_metrics))"
proof -
  let ?ops = "map (\<lambda>t. Connect (\<lambda>_. None) dead_broker t t) [0, 3000000000, 6000000000]"
  have "list_all op_clock_ok ?ops" by simp
  from reconnect_throttled [OF this]
  have "sorted_wrt (\<lambda>t u. t + 5000000000 \<le> u)
      (attempts ?ops (nats_new (\<lambda>_. None) (Some ''nats://localhost'') zero_metrics))" by blast
  moreover have "attempts ?ops (nats_new (\<lambda>_. None) (Some ''nats://localhost'') zero_metrics) = [0, 6000000000]"
    by (simp add: op_attempts_def op_apply_def nats_client_def nats_new_def recent_attempt_def
        connect_to_nats_def dead_broker_def RETRY_NANOS_def Let_def)
  ultimately show ?thesis by blast
qed

subsection \<open>Publishing and dispatching\<close>

text \<open>The six ways a publication can end, as one number.\<close>

definition publish_outcomes :: "metrics \<Rightarrow> u64" where
  "publish_outcomes m = mt_nats_event_published_total m + mt_nats_core_fallback_total m +
     mt_nats_publish_failures_total m + mt_nats_serialization_failures_total m +
     mt_nats_unconfigured_skips_total m + mt_nats_unavailable_drops_total m"

lemma client_outcomes:
  "publish_outcomes (na_metrics (fst (nats_client env br now later n))) = publish_outcomes (na_metrics n)"
  "na_strict_publish (fst (nats_client env br now later n)) = na_strict_publish n"
  "na_url (fst (nats_client env br now later n)) = na_url n"
  "mt_nats_core_fallback_total (na_metrics (fst (nats_client env br now later n))) =
     mt_nats_core_fallback_total (na_metrics n)"
  "mt_nats_event_published_total (na_metrics (fst (nats_client env br now later n))) =
     mt_nats_event_published_total (na_metrics n)"
  by (auto simp: nats_client_def publish_outcomes_def Let_def split: option.split)

text \<open>
  No event is lost silently. Every publication counts exactly one outcome; it is counted as
  published exactly when JetStream acknowledged it; it is offered to Core NATS only after
  JetStream refused it and never in strict mode; nothing else is ever sent, and nothing at all
  without a client.
\<close>

theorem publication_accounted:
  assumes "nats_publish_event env br now later subject ev n = (n', out)"
  shows "publish_outcomes (na_metrics n') = publish_outcomes (na_metrics n) + 1 \<and>
    (mt_nats_event_published_total (na_metrics n') \<noteq> mt_nats_event_published_total (na_metrics n) \<longleftrightarrow>
      (\<exists>bytes. out = [ToJetStream subject (en_dedup_id ev) bytes] \<and> en_bytes ev = Some bytes \<and>
        br_ack br subject (en_dedup_id ev) bytes)) \<and>
    (out = [] \<or> (\<exists>bytes. en_bytes ev = Some bytes \<and>
      (out = [ToJetStream subject (en_dedup_id ev) bytes] \<or>
       out = [ToJetStream subject (en_dedup_id ev) bytes, ToCore subject bytes] \<and>
         \<not> na_strict_publish n \<and> \<not> br_ack br subject (en_dedup_id ev) bytes)))"
proof -
  obtain n1 ok where c: "nats_client env br now later n = (n1, ok)" by fastforce
  note same = client_outcomes [of env br now later n, unfolded c fst_conv]
  show ?thesis
    using assms same unfolding nats_publish_event_def c
    by (auto simp: nats_tally_def invalidate_client_def publish_outcomes_def fallback_after_unacked_def
        algebra_simps Let_def split: bool.splits option.splits if_splits)
qed

lemma publication_accounted_witness:
  "publish_outcomes (na_metrics (fst (nats_publish_event (\<lambda>_. None) dead_broker 0 0 ''s''
      \<lparr> en_bytes = Some ''b'', en_dedup_id = ''d'' \<rparr>
      (nats_new (\<lambda>_. None) (Some ''nats://localhost'') zero_metrics)))) = publish_outcomes zero_metrics + 1"
proof -
  obtain n' out where p: "nats_publish_event (\<lambda>_. None) dead_broker 0 0 ''s''
      \<lparr> en_bytes = Some ''b'', en_dedup_id = ''d'' \<rparr>
      (nats_new (\<lambda>_. None) (Some ''nats://localhost'') zero_metrics) = (n', out)" by fastforce
  from publication_accounted [OF p] p show ?thesis by (simp add: nats_new_def)
qed

text \<open>
  Pool errors reveal nothing. Whatever the broker URL, its credentials and the transport's own
  error text, an error of \<open>pool_dispatch\<close> is one of five fixed messages, and an answer is valid
  UTF-8 that the broker gave for this subject and payload within at least one second.
\<close>

theorem pool_errors_fixed:
  "case snd (pool_dispatch sj env br now later subject slug i payload timeout n) of
     Inl e \<Rightarrow> e \<in> {''NATS is temporarily unavailable'', ''NATS is not configured'',
       ''pool response was not utf8'', ''pool request failed'', ''pool dispatch timed out''}
   | Inr out \<Rightarrow> utf8_valid out \<and> na_url n \<noteq> None \<and>
       br_request br subject (sj_print sj (pool_request slug i payload)) (max timeout 1000) = Responded out"
proof -
  obtain n1 ok where c: "nats_client env br now later n = (n1, ok)" by fastforce
  have "na_url n \<noteq> None" if ok using c that by (auto simp: nats_client_def split: option.splits)
  then show ?thesis
    unfolding pool_dispatch_def c by (auto simp: Let_def split: bool.split request_outcome.split)
qed

end
