(* ===== verification/Config.thy ===== *)
theory Config
  imports Net_Addr Coord Command
begin

section \<open>Configuration from the environment\<close>

text \<open>
  The model of \<open>src/config.rs\<close> (its two command constants are in the theory \<open>Command\<close>). The
  default event subject is a constant of a generated package, the argument \<open>events_subject\<close>.
\<close>

definition DEFAULT_FIDUCIA_NODE_ORG_ID :: string where
  "DEFAULT_FIDUCIA_NODE_ORG_ID = ''fiducia-lambda-service''"

datatype config_error =
    MissingNodeUrl
  | InvalidLocalCoordinationFlag
  | MissingNodeSecret
  | InvalidNodeOrg
  | MissingServiceAddress

record config =
  cf_host :: ip_addr
  cf_port :: nat
  cf_max_body_bytes :: nat
  cf_database_url :: "string option"
  cf_server_auth_secret :: "string option"
  cf_nats_url :: "string option"
  cf_workflow_event_subject :: string
  cf_fiducia_base_url :: "string option"
  cf_fiducia_node_internal_secret :: "string option"
  cf_fiducia_node_org_id :: string
  cf_fiducia_service_address :: "string option"
  cf_allow_local_coordination :: bool
  cf_child_idle_ms :: u64
  cf_child_timeout_ms :: u64

definition env_opt :: "environ \<Rightarrow> string \<Rightarrow> string option" where
  "env_opt env key =
     (case env key of
        None \<Rightarrow> None
      | Some v \<Rightarrow> if trim v \<noteq> [] then Some (trim v) else None)"

definition env_or :: "environ \<Rightarrow> string \<Rightarrow> string \<Rightarrow> string" where
  "env_or env key dflt = (case env_opt env key of Some v \<Rightarrow> v | None \<Rightarrow> dflt)"

definition env_num :: "(string \<Rightarrow> 'a option) \<Rightarrow> environ \<Rightarrow> string \<Rightarrow> 'a \<Rightarrow> 'a" where
  "env_num parse env key dflt =
     (case Option.bind (env_opt env key) parse of Some v \<Rightarrow> v | None \<Rightarrow> dflt)"

text \<open>\<open>str::parse\<close> at \<open>u64\<close> and \<open>usize\<close>: an optional plus sign, digits, in range.\<close>

definition parse_unsigned :: "string \<Rightarrow> nat option" where
  "parse_unsigned s =
     (case parse_digits (case read_char (CHR ''+'') s of Some r \<Rightarrow> r | None \<Rightarrow> s) of
        Some n \<Rightarrow> if n < 2 ^ 64 then Some n else None
      | None \<Rightarrow> None)"

definition parse_u64 :: "string \<Rightarrow> u64 option" where
  "parse_u64 s = map_option of_nat (parse_unsigned s)"

definition parse_bool :: "string \<Rightarrow> config_error + bool" where
  "parse_bool v =
     (let l = to_ascii_lowercase v
      in if l \<in> {''1'', ''true'', ''yes'', ''on''} then Inr True
         else if l \<in> {''0'', ''false'', ''no'', ''off''} then Inr False
         else Inl InvalidLocalCoordinationFlag)"

definition config_env_bool :: "environ \<Rightarrow> string \<Rightarrow> bool \<Rightarrow> config_error + bool" where
  "config_env_bool env key dflt =
     (case env_opt env key of None \<Rightarrow> Inr dflt | Some v \<Rightarrow> parse_bool v)"

definition or_else :: "'a option \<Rightarrow> 'a option \<Rightarrow> 'a option" where
  "or_else a b = (case a of Some x \<Rightarrow> Some x | None \<Rightarrow> b)"

text \<open>\<open>is_none_or(|value| value.trim().is_empty())\<close>\<close>

definition blank :: "string option \<Rightarrow> bool" where
  "blank v \<longleftrightarrow> (case v of None \<Rightarrow> True | Some s \<Rightarrow> trim s = [])"

definition validate_node_coordination ::
    "string option \<Rightarrow> string option \<Rightarrow> string \<Rightarrow> string option \<Rightarrow> bool \<Rightarrow> config_error + unit" where
  "validate_node_coordination base_url internal_secret org_id service_address allow_local =
     (if base_url = None then (if allow_local then Inr () else Inl MissingNodeUrl)
      else if blank internal_secret then Inl MissingNodeSecret
      else if blank service_address then Inl MissingServiceAddress
      else
        (let org = trim org_id
         in if org = [] \<or> 128 < length org \<or> has_whitespace org \<or> has_control org
            then Inl InvalidNodeOrg else Inr ()))"

definition config_port :: "environ \<Rightarrow> nat" where
  "config_port env =
     (let p = env_num parse_i64 env ''PORT'' 8083
      in if 1 \<le> p \<and> p \<le> 65535 then nat p else 8083)"

definition config_host :: "environ \<Rightarrow> ip_addr" where
  "config_host env =
     (case parse_ip (env_or env ''HOST'' ''0.0.0.0'') of Some a \<Rightarrow> a | None \<Rightarrow> V4 [0, 0, 0, 0])"

definition from_env :: "string \<Rightarrow> environ \<Rightarrow> config_error + config" where
  "from_env events_subject env =
     (let server_auth_secret = or_else (or_else (env_opt env ''LAMBDA_SERVER_AUTH_SECRET'')
            (env_opt env ''SERVER_AUTH_SECRET'')) (env_opt env ''REMOTE_DEV_SERVER_SECRET'');
          fiducia_base_url = or_else (env_opt env ''FIDUCIA_NODE_URL'') (env_opt env ''FIDUCIA_BASE_URL'');
          fiducia_node_internal_secret = or_else (env_opt env ''FIDUCIA_NODE_INTERNAL_SECRET'')
            (env_opt env ''FIDUCIA_INTERNAL_SECRET'');
          fiducia_node_org_id = env_or env ''FIDUCIA_NODE_ORG_ID'' DEFAULT_FIDUCIA_NODE_ORG_ID;
          fiducia_service_address = env_opt env ''FIDUCIA_SERVICE_ADDRESS''
      in (case config_env_bool env ''FIDUCIA_ALLOW_LOCAL_COORDINATION'' False of
            Inl e \<Rightarrow> Inl e
          | Inr allow_local_coordination \<Rightarrow>
              (case validate_node_coordination fiducia_base_url fiducia_node_internal_secret
                      fiducia_node_org_id fiducia_service_address allow_local_coordination of
                 Inl e \<Rightarrow> Inl e
               | Inr _ \<Rightarrow> Inr
                   \<lparr> cf_host = config_host env,
                     cf_port = config_port env,
                     cf_max_body_bytes = env_num parse_unsigned env ''LAMBDA_MAX_BODY_BYTES'' 5242880,
                     cf_database_url = env_opt env ''LAMBDA_DATABASE_URL'',
                     cf_server_auth_secret = server_auth_secret,
                     cf_nats_url = env_opt env ''NATS_URL'',
                     cf_workflow_event_subject = env_or env ''NATS_WORKFLOW_EVENT_SUBJECT'' events_subject,
                     cf_fiducia_base_url = fiducia_base_url,
                     cf_fiducia_node_internal_secret = fiducia_node_internal_secret,
                     cf_fiducia_node_org_id = fiducia_node_org_id,
                     cf_fiducia_service_address = fiducia_service_address,
                     cf_allow_local_coordination = allow_local_coordination,
                     cf_child_idle_ms = env_num parse_u64 env ''LAMBDA_CHILD_IDLE_MS'' 300000,
                     cf_child_timeout_ms = env_num parse_u64 env ''LAMBDA_CHILD_TIMEOUT_MS'' 30000 \<rparr>)))"

definition server_auth_configured :: "config \<Rightarrow> bool" where
  "server_auth_configured cfg \<longleftrightarrow> cf_server_auth_secret cfg \<noteq> None"

subsection \<open>What a configuration guarantees\<close>

text \<open>
  Validation and construction agree. The configuration accepts a node, secret, organization,
  address and development flag exactly when \<open>Coordinator::new\<close> does: a service that has read its
  configuration cannot fail there, and nothing the coordinator would take is refused earlier.
\<close>

theorem coordination_validation_agrees:
  "isl (validate_node_coordination base_url secret org address allow) \<longleftrightarrow>
   isl (coordinator_new base_url secret org address iid allow)"
  by (auto simp: validate_node_coordination_def coordinator_new_def blank_def trimmed_def Let_def
      split: option.splits)

text \<open>
  A configuration is well formed. Every optional text it holds is present only when not blank;
  the port is a port and the host an address; without a node the development flag was given, and
  with one the secret, the address and a valid organization are there; and then the coordinator
  starts, authoritative exactly if a node is configured.
\<close>

theorem config_well_formed:
  assumes "from_env subject env = Inr cfg"
  shows "(\<forall>v \<in> {cf_database_url cfg, cf_server_auth_secret cfg, cf_nats_url cfg, cf_fiducia_base_url cfg,
       cf_fiducia_node_internal_secret cfg, cf_fiducia_service_address cfg}. v \<noteq> Some []) \<and>
    1 \<le> cf_port cfg \<and> cf_port cfg \<le> 65535 \<and> ip_wf (cf_host cfg) \<and>
    (cf_fiducia_base_url cfg = None \<longrightarrow> cf_allow_local_coordination cfg) \<and>
    (\<exists>c. coordinator_new (cf_fiducia_base_url cfg) (cf_fiducia_node_internal_secret cfg)
        (cf_fiducia_node_org_id cfg) (cf_fiducia_service_address cfg) iid
        (cf_allow_local_coordination cfg) = Inr c \<and>
      (enabled c \<longleftrightarrow> cf_fiducia_base_url cfg \<noteq> None) \<and> \<not> c_healthy c)"
proof -
  have opt: "env_opt env k \<noteq> Some []" for k
    by (auto simp: env_opt_def split: option.split)
  have orelse: "or_else a b \<noteq> Some []" if "a \<noteq> Some []" "b \<noteq> Some []" for a b :: "string option"
    using that by (auto simp: or_else_def split: option.split)
  have port: "1 \<le> config_port env \<and> config_port env \<le> 65535"
    by (auto simp: config_port_def Let_def)
  have host: "ip_wf (config_host env)"
    using parse_ip_wf by (auto simp: config_host_def ip_wf_def split: option.split)
  let ?v = "validate_node_coordination (cf_fiducia_base_url cfg) (cf_fiducia_node_internal_secret cfg)
      (cf_fiducia_node_org_id cfg) (cf_fiducia_service_address cfg) (cf_allow_local_coordination cfg)"
  from assms have v: "?v = Inr ()" and fields: "cf_port cfg = config_port env" "cf_host cfg = config_host env"
    "\<forall>v \<in> {cf_database_url cfg, cf_server_auth_secret cfg, cf_nats_url cfg, cf_fiducia_base_url cfg,
       cf_fiducia_node_internal_secret cfg, cf_fiducia_service_address cfg}. v \<noteq> Some []"
    by (auto simp: from_env_def Let_def opt orelse split: sum.splits)
  from v have "cf_fiducia_base_url cfg = None \<longrightarrow> cf_allow_local_coordination cfg"
    by (auto simp: validate_node_coordination_def split: if_splits)
  moreover from v have "\<exists>c. coordinator_new (cf_fiducia_base_url cfg) (cf_fiducia_node_internal_secret cfg)
        (cf_fiducia_node_org_id cfg) (cf_fiducia_service_address cfg) iid
        (cf_allow_local_coordination cfg) = Inr c \<and>
      (enabled c \<longleftrightarrow> cf_fiducia_base_url cfg \<noteq> None) \<and> \<not> c_healthy c"
    by (auto simp: validate_node_coordination_def coordinator_new_def blank_def trimmed_def Let_def
        enabled_def fresh_coordinator_def split: option.splits if_splits)
  ultimately show ?thesis using port host fields by simp
qed

definition dev_env :: environ where
  "dev_env k = (if k = ''FIDUCIA_ALLOW_LOCAL_COORDINATION'' then Some '' On '' else None)"

lemma config_well_formed_witness:
  "\<exists>cfg. from_env ''events'' dev_env = Inr cfg \<and> cf_allow_local_coordination cfg"
proof -
  have t: "trim '' On '' = ''On''" "to_ascii_lowercase ''On'' = ''on''" by code_simp+
  have none: "env_opt dev_env k = (if k = ''FIDUCIA_ALLOW_LOCAL_COORDINATION'' then Some ''On'' else None)" for k
    by (simp add: env_opt_def dev_env_def t)
  have "config_env_bool dev_env ''FIDUCIA_ALLOW_LOCAL_COORDINATION'' False = Inr True"
    by (simp add: config_env_bool_def none parse_bool_def t)
  then obtain cfg where cfg: "from_env ''events'' dev_env = Inr cfg"
    by (auto simp: from_env_def none or_else_def validate_node_coordination_def Let_def)
  moreover have "cf_fiducia_base_url cfg = None"
    using cfg by (auto simp: from_env_def none or_else_def Let_def split: sum.splits)
  ultimately show ?thesis using config_well_formed [OF cfg] by blast
qed

end
