(* ===== verification/Function_Control.thy ===== *)
theory Function_Control
  imports Config Definition
begin

section \<open>Function definitions of a tenant\<close>

text \<open>
  The model of \<open>src/function_control.rs\<close> (with \<open>valid_org_id\<close> and \<open>sql_text\<close>, which the theory
  \<open>Definition\<close> holds). A \<open>Uuid\<close> is its hyphenated text. The decoders \<open>serde\<close> derives and
  \<open>Uuid::parse_str\<close> are the record \<open>codec\<close>; \<open>psql\<close> and \<open>serde_json\<close> are parameters. A statement
  is the concatenation of the pieces its format string has.
\<close>

definition MAX_FUNCTION_BODY_BYTES :: nat where "MAX_FUNCTION_BODY_BYTES = 262144"
definition MAX_LIST_LIMIT :: nat where "MAX_LIST_LIMIT = 10"
definition ORG_META_KEY :: string where "ORG_META_KEY = ''fiduciaOrgId''"
definition LOGICAL_SLUG_META_KEY :: string where "LOGICAL_SLUG_META_KEY = ''fiduciaCustomerSlug''"
definition MAX_LABELS :: nat where "MAX_LABELS = 32"
definition MAX_METADATA_BYTES :: nat where "MAX_METADATA_BYTES = 16384"

record function_input =
  in_slug :: string
  in_display_name :: string
  in_description :: string
  in_runtime :: string
  in_function_body :: string
  in_reuse_key :: "string option"
  in_idle_timeout_seconds :: "nat option"
  in_max_run_ms :: "nat option"
  in_containerized :: "bool option"
  in_labels :: "string list"
  in_meta_data :: jobject

record function_record =
  fr_id :: string
  fr_slug :: string
  fr_display_name :: string
  fr_description :: string
  fr_runtime :: string
  fr_entry_command :: string
  fr_function_body :: string
  fr_reuse_key :: "string option"
  fr_idle_timeout_seconds :: nat
  fr_max_run_ms :: nat
  fr_containerized :: bool
  fr_container_image :: "string option"
  fr_container_build_status :: string
  fr_status :: string
  fr_labels :: "string list"
  fr_meta_data :: jobject
  fr_created_at :: "string option"
  fr_updated_at :: "string option"

record clean_definition =
  cl_logical_slug :: string
  cl_display_name :: string
  cl_description :: string
  cl_runtime :: string
  cl_entry_command :: string
  cl_function_body :: string
  cl_reuse_key :: "string option"
  cl_idle_timeout_seconds :: nat
  cl_max_run_ms :: nat
  cl_containerized :: bool
  cl_labels :: "string list"
  cl_meta_data :: jobject

datatype fc_error = FcInvalid string | FcNotFound | FcConflict | FcUnavailable string

record codec =
  cd_uuid :: "string \<Rightarrow> string option"
  cd_input :: "string \<Rightarrow> string + function_input"
  cd_record :: "string \<Rightarrow> string + function_record"
  cd_records :: "string \<Rightarrow> string + function_record list"

definition validate_function_id :: "codec \<Rightarrow> string \<Rightarrow> fc_error + string" where
  "validate_function_id cd v =
     (case cd_uuid cd v of
        Some i \<Rightarrow> Inr i
      | None \<Rightarrow> Inl (FcInvalid ''valid function UUID is required''))"

subsection \<open>Cleaning the input\<close>

text \<open>
  The loop of \<open>normalize_slug\<close> over the characters of the lower-cased text; the bytes of one
  non-ASCII character give one dash, as the character does.
\<close>

fun slug_loop :: "bool \<Rightarrow> string \<Rightarrow> string \<Rightarrow> string" where
  "slug_loop previous_dash slug [] = slug"
| "slug_loop previous_dash slug (c # s) =
     (if is_ascii_alphanumeric c then slug_loop False (slug @ [c]) s
      else if \<not> previous_dash \<and> slug \<noteq> [] then slug_loop True (slug @ ''-'') s
      else slug_loop previous_dash slug s)"

definition normalize_slug :: "string \<Rightarrow> string" where
  "normalize_slug inp =
     rev (dropWhile (\<lambda>c. c = CHR ''-'') (rev (slug_loop False [] (to_ascii_lowercase (trim inp)))))"

definition validate_text :: "string \<Rightarrow> string \<Rightarrow> nat \<Rightarrow> nat \<Rightarrow> fc_error + string" where
  "validate_text field v mn mx =
     (let t = trim v
      in if \<not> (mn \<le> length t \<and> length t \<le> mx) then
           Inl (FcInvalid (field @ '' must contain '' @ show_nat mn @ ''-'' @ show_nat mx @ '' bytes''))
         else if has_control t then Inl (FcInvalid (field @ '' must not contain control characters''))
         else Inr t)"

definition validate_reuse_key :: "string option \<Rightarrow> fc_error + string option" where
  "validate_reuse_key v =
     (case trimmed v of
        None \<Rightarrow> Inr None
      | Some k \<Rightarrow>
          (if safe_reuse_key k then Inr (Some k)
           else Inl (FcInvalid ''reuseKey contains unsupported characters'')))"

definition managed_entry_command :: "string \<Rightarrow> string" where
  \<open>managed_entry_command rt =
     (if rt = ''nodejs'' then DEFAULT_NODEJS_HOST_COMMAND
      else if rt = ''playwright'' \<or> rt = ''puppeteer'' then DEFAULT_BROWSER_HOST_COMMAND
      else if rt = ''python3'' then
        ''env -i PATH="$PATH" PYTHONUNBUFFERED=1 python3 child-runtimes/python-function-runner.py''
      else if rt = ''ruby'' then ''env -i PATH="$PATH" ruby child-runtimes/ruby-function-runner.rb''
      else if rt = ''bash'' then
        ''env -i PATH="$PATH" NODE_NO_WARNINGS=1 node --permission --allow-net --allow-child-process child-runtimes/bash-function-runner.mjs''
      else ''managed-container-runtime:'' @ rt)\<close>

definition clamp_nat :: "nat \<Rightarrow> nat \<Rightarrow> nat \<Rightarrow> nat" where
  "clamp_nat n lo hi = (if n < lo then lo else if hi < n then hi else n)"

definition unwrap_or :: "'a \<Rightarrow> 'a option \<Rightarrow> 'a" where
  "unwrap_or d v = (case v of Some x \<Rightarrow> x | None \<Rightarrow> d)"

text \<open>The loop over the labels: each is validated, duplicates are skipped.\<close>

fun clean_labels :: "string list \<Rightarrow> string list \<Rightarrow> fc_error + string list" where
  "clean_labels [] labels = Inr labels"
| "clean_labels (l # ls) labels =
     (case validate_text ''label'' l 1 64 of
        Inl e \<Rightarrow> Inl e
      | Inr t \<Rightarrow> clean_labels ls (if t \<in> set labels then labels else labels @ [t]))"

definition clean_metadata :: "serde \<Rightarrow> jobject \<Rightarrow> fc_error + jobject" where
  "clean_metadata sj m =
     (if obj_get m ORG_META_KEY \<noteq> None then Inl (FcInvalid (''metaData.'' @ ORG_META_KEY @ '' is reserved''))
      else if obj_get m LOGICAL_SLUG_META_KEY \<noteq> None then
        Inl (FcInvalid (''metaData.'' @ LOGICAL_SLUG_META_KEY @ '' is reserved''))
      else if MAX_METADATA_BYTES < length (sj_print sj (JObj m)) then
        Inl (FcInvalid ''metaData exceeds the 16384-byte limit'')
      else Inr m)"

definition clean_input :: "serde \<Rightarrow> environ \<Rightarrow> function_input \<Rightarrow> fc_error + clean_definition" where
  "clean_input sj env inp =
     (let logical_slug = normalize_slug (in_slug inp)
      in if length logical_slug < 3 \<or> 80 < length logical_slug then
           Inl (FcInvalid ''slug must normalize to 3-80 characters'')
         else
     (case validate_text ''displayName'' (in_display_name inp) 1 160 of Inl e \<Rightarrow> Inl e | Inr display_name \<Rightarrow>
     (case (if trim (in_description inp) = [] then Inr []
            else validate_text ''description'' (in_description inp) 1 4000) of Inl e \<Rightarrow> Inl e | Inr description \<Rightarrow>
     (let function_body = trim (in_function_body inp)
      in if function_body = [] then Inl (FcInvalid ''functionBody is required'')
         else if MAX_FUNCTION_BODY_BYTES < length function_body then
           Inl (FcInvalid ''functionBody exceeds the 262144-byte limit'')
         else
     (let rt = canonical_runtime (trim (in_runtime inp));
          containerized = unwrap_or False (in_containerized inp)
      in if rt \<noteq> ''nodejs'' then
           Inl (FcInvalid ''customer cron functions currently support the nodejs runtime'')
         else if containerized then
           Inl (FcInvalid ''customer cron functions must use the managed non-containerized runtime'')
         else
     (case validate_reuse_key (in_reuse_key inp) of Inl e \<Rightarrow> Inl e | Inr reuse_key \<Rightarrow>
     (let idle_timeout_seconds = clamp_nat (unwrap_or 300 (in_idle_timeout_seconds inp)) 1 3600;
          max_run_ms = clamp_nat (unwrap_or 30000 (in_max_run_ms inp)) 1000 300000
      in if MAX_LABELS < length (in_labels inp) then
           Inl (FcInvalid (''labels may contain at most '' @ show_nat MAX_LABELS @ '' entries''))
         else
     (case clean_labels (in_labels inp) [] of Inl e \<Rightarrow> Inl e | Inr labels \<Rightarrow>
     (case clean_metadata sj (in_meta_data inp) of Inl e \<Rightarrow> Inl e | Inr meta_data \<Rightarrow>
     (let check_definition = sj_print sj (JObj (obj_of
            [(''runtime'', JStr rt), (''containerized'', JBool containerized),
             (''functionBody'', JStr function_body), (''reuseKey'', j_opt JStr reuse_key),
             (''idleTimeoutSeconds'', j_nat idle_timeout_seconds), (''maxRunMs'', j_nat max_run_ms)]))
      in (case command_for_definition env DEFAULT_NODEJS_HOST_COMMAND check_definition of
            Inl e \<Rightarrow> Inl (FcInvalid e)
          | Inr _ \<Rightarrow> Inr
              \<lparr> cl_logical_slug = logical_slug, cl_display_name = display_name,
                cl_description = description, cl_runtime = rt,
                cl_entry_command = managed_entry_command rt, cl_function_body = function_body,
                cl_reuse_key = reuse_key, cl_idle_timeout_seconds = idle_timeout_seconds,
                cl_max_run_ms = max_run_ms, cl_containerized = containerized,
                cl_labels = labels, cl_meta_data = meta_data \<rparr>)))))))))))"

subsection \<open>Statements\<close>

definition sql_json :: "serde \<Rightarrow> json \<Rightarrow> string" where
  "sql_json sj v = ''('' @ sql_text (sj_print sj v) @ '')::jsonb''"

definition sql_optional_text :: "string option \<Rightarrow> string" where
  "sql_optional_text v = (case v of Some s \<Rightarrow> sql_text s | None \<Rightarrow> ''null'')"

definition sql_bool :: "bool \<Rightarrow> string" where
  "sql_bool b = (if b then ''true'' else ''false'')"

definition build_status :: "clean_definition \<Rightarrow> string" where
  "build_status c = (if cl_containerized c then ''pending'' else ''not_requested'')"

definition physical_slug :: "string \<Rightarrow> string" where
  "physical_slug i = ''fiducia-'' @ filter (\<lambda>c. c \<noteq> CHR ''-'') i"

definition scoped_metadata :: "jobject \<Rightarrow> string \<Rightarrow> string \<Rightarrow> jobject" where
  "scoped_metadata m org_id slug =
     obj_insert LOGICAL_SLUG_META_KEY (JStr slug) (obj_insert ORG_META_KEY (JStr org_id) m)"

definition metadata_with_scope :: "clean_definition \<Rightarrow> string \<Rightarrow> json" where
  "metadata_with_scope c org_id = JObj (scoped_metadata (cl_meta_data c) org_id (cl_logical_slug c))"

definition labels_json :: "clean_definition \<Rightarrow> json" where
  "labels_json c = JArr (map JStr (cl_labels c))"

definition record_projection :: string where
  \<open>record_projection = concat
     [''jsonb_build_object('', [CHR 0x0A], ''        '', sql_lit ''id'', 
      '', id::text,'', [CHR 0x0A], ''        '', sql_lit ''slug'', 
      '', coalesce(meta_data->>'', sql_lit ''fiduciaCustomerSlug'', '', slug),'', 
      [CHR 0x0A], ''        '', sql_lit ''displayName'', '', display_name,'', 
      [CHR 0x0A], ''        '', sql_lit ''description'', '', description,'', 
      [CHR 0x0A], ''        '', sql_lit ''runtime'', '', runtime,'', [CHR 0x0A], 
      ''        '', sql_lit ''entryCommand'', '', entry_command,'', [CHR 0x0A], 
      ''        '', sql_lit ''functionBody'', '', function_body,'', [CHR 0x0A], 
      ''        '', sql_lit ''reuseKey'', '', reuse_key,'', [CHR 0x0A], ''        '', 
      sql_lit ''idleTimeoutSeconds'', '', idle_timeout_seconds,'', [CHR 0x0A], 
      ''        '', sql_lit ''maxRunMs'', '', max_run_ms,'', [CHR 0x0A], ''        '', 
      sql_lit ''containerized'', '', containerized,'', [CHR 0x0A], ''        '', 
      sql_lit ''containerImage'', '', container_image,'', [CHR 0x0A], ''        '', 
      sql_lit ''containerBuildStatus'', '', container_build_status,'', [CHR 0x0A], 
      ''        '', sql_lit ''status'', '', status,'', [CHR 0x0A], ''        '', 
      sql_lit ''labels'', '', labels,'', [CHR 0x0A], ''        '', 
      sql_lit ''metaData'', '', meta_data - '', sql_lit ''fiduciaOrgId'', '' - '', 
      sql_lit ''fiduciaCustomerSlug'', '','', [CHR 0x0A], ''        '', 
      sql_lit ''createdAt'', '', to_char(created_at at time zone '', sql_lit ''utc'', 
      '', '', sql_lit ''YYYY-MM-DD"T"HH24:MI:SS.MS"Z"'', ''),'', [CHR 0x0A], 
      ''        '', sql_lit ''updatedAt'', '', to_char(updated_at at time zone '', 
      sql_lit ''utc'', '', '', sql_lit ''YYYY-MM-DD"T"HH24:MI:SS.MS"Z"'', '')'', 
      [CHR 0x0A], ''    )'']\<close>

text \<open>The condition every statement on existing rows carries.\<close>

definition tenant_scope :: "string \<Rightarrow> string list" where
  "tenant_scope org_id =
     [''is_soft_deleted = false and meta_data->>'', sql_lit ORG_META_KEY, '' = '', sql_text org_id]"

definition list_sql :: "string \<Rightarrow> nat \<Rightarrow> string" where
  "list_sql org_id n = concat
     ([''select coalesce(jsonb_agg(item order by updated_at desc), '', sql_lit ''[]'', 
      ''::jsonb)::text from (select '', record_projection, 
      '' as item, updated_at from lambda_functions where '']
      @ tenant_scope org_id @ ['' order by updated_at desc limit '', show_nat n, '') scoped''])"

definition get_sql :: "string \<Rightarrow> string \<Rightarrow> string" where
  "get_sql org_id i = concat
     ([''select '', record_projection, ''::text from lambda_functions where id = '', 
      sql_lit i, ''::uuid and '']
      @ tenant_scope org_id @ ['' limit 1''])"

definition create_sql :: "serde \<Rightarrow> string \<Rightarrow> string \<Rightarrow> clean_definition \<Rightarrow> string" where
  "create_sql sj org_id i c = concat
     [''with inserted as (insert into lambda_functions (id, slug, display_name, description, runtime, entry_command, function_body, reuse_key, idle_timeout_seconds, max_run_ms, containerized, container_build_status, status, labels, meta_data, is_soft_deleted, created_at, updated_at) values ('', 
      sql_lit i, ''::uuid, '', sql_text (physical_slug i), '', '', 
      sql_text (cl_display_name c), '', '', sql_text (cl_description c), '', '', 
      sql_text (cl_runtime c), '', '', sql_text (cl_entry_command c), '', '', 
      sql_text (cl_function_body c), '', '', sql_optional_text (cl_reuse_key c), 
      '', '', show_nat (cl_idle_timeout_seconds c), '', '', show_nat (cl_max_run_ms c), 
      '', '', sql_bool (cl_containerized c), '', '', sql_text (build_status c), '', '', 
      sql_lit ''draft'', '', '', sql_json sj (labels_json c), '', '', 
      sql_json sj (metadata_with_scope c org_id), 
      '', false, now(), now()) returning *) select '', record_projection, 
      ''::text from inserted'']"

definition update_sql :: "serde \<Rightarrow> string \<Rightarrow> string \<Rightarrow> clean_definition \<Rightarrow> string" where
  "update_sql sj org_id i c = concat
     ([''with updated as (update lambda_functions set display_name = '', 
      sql_text (cl_display_name c), '', description = '', sql_text (cl_description c), 
      '', runtime = '', sql_text (cl_runtime c), '', entry_command = '', 
      sql_text (cl_entry_command c), '', function_body = '', 
      sql_text (cl_function_body c), '', reuse_key = '', 
      sql_optional_text (cl_reuse_key c), '', idle_timeout_seconds = '', 
      show_nat (cl_idle_timeout_seconds c), '', max_run_ms = '', 
      show_nat (cl_max_run_ms c), '', containerized = '', 
      sql_bool (cl_containerized c), '', container_image = case when '', 
      sql_bool (cl_containerized c), 
      '' then container_image else null end, container_build_status = '', 
      sql_text (build_status c), '', container_build_error = null, status = '', 
      sql_lit ''draft'', '', labels = '', sql_json sj (labels_json c), 
      '', meta_data = '', sql_json sj (metadata_with_scope c org_id), 
      '', updated_at = now() where id = '', sql_lit i, 
      ''::uuid and '']
      @ tenant_scope org_id @ ['' returning *) select '', record_projection, 
      ''::text from updated''])"

definition delete_sql :: "string \<Rightarrow> string \<Rightarrow> string" where
  "delete_sql org_id i = concat
     ([''update lambda_functions set is_soft_deleted = true, status = '', 
      sql_lit ''archived'', '', updated_at = now() where id = '', sql_lit i, 
      ''::uuid and '']
      @ tenant_scope org_id @ ['' returning id::text''])"

definition pause_sql :: "string \<Rightarrow> string \<Rightarrow> string" where
  "pause_sql org_id i = concat
     ([''with updated as (update lambda_functions set status = '', sql_lit ''paused'', 
      '', updated_at = now() where id = '', sql_lit i, 
      ''::uuid and '']
      @ tenant_scope org_id @ ['' returning *) select '', record_projection, 
      ''::text from updated''])"

definition activate_sql :: "serde \<Rightarrow> string \<Rightarrow> function_record \<Rightarrow> string" where
  "activate_sql sj org_id r = concat
     ([''with updated as (update lambda_functions set status = '', sql_lit ''active'', 
      '', meta_data = '', 
      sql_json sj (JObj (scoped_metadata (fr_meta_data r) org_id (fr_slug r))), 
      '', updated_at = now() where id = '', sql_lit (fr_id r), 
      ''::uuid and '']
      @ tenant_scope org_id @ ['' and function_body = '', 
      sql_text (fr_function_body r), '' and runtime = '', sql_text (fr_runtime r), 
      '' and containerized = '', sql_bool (fr_containerized r), '' and max_run_ms = '', 
      show_nat (fr_max_run_ms r), '' returning *) select '', record_projection, 
      ''::text from updated''])"

subsection \<open>Operations\<close>

text \<open>
  Every operation returns the statements it has handed to psql, in order, beside its result.
  \<open>query\<close> stands for \<open>database_url\<close> and the call of \<open>run_psql\<close>.
\<close>

definition query ::
    "psql \<Rightarrow> string option \<Rightarrow> string \<Rightarrow> nat \<Rightarrow> string list \<times> (fc_error + string)" where
  "query psql database_url sql max_output_bytes =
     (case database_url of
        None \<Rightarrow> ([], Inl (FcUnavailable ''LAMBDA_DATABASE_URL is unset''))
      | Some url \<Rightarrow> ([sql],
          (case run_psql psql url sql max_output_bytes of
             Inl e \<Rightarrow> Inl (FcUnavailable e)
           | Inr out \<Rightarrow> Inr out)))"

definition parse_record ::
    "codec \<Rightarrow> psql \<Rightarrow> string option \<Rightarrow> string \<Rightarrow> string list \<times> (fc_error + function_record)" where
  "parse_record cd psql database_url sql =
     (case query psql database_url sql 2097152 of
        (sts, Inl e) \<Rightarrow> (sts, Inl e)
      | (sts, Inr out) \<Rightarrow>
          (if trim out = [] then (sts, Inl FcNotFound)
           else
             (case cd_record cd (trim out) of
                Inl e \<Rightarrow> (sts, Inl (FcUnavailable (''invalid definition row: '' @ e)))
              | Inr r \<Rightarrow> (sts, Inr r))))"

definition fc_list ::
    "codec \<Rightarrow> psql \<Rightarrow> string option \<Rightarrow> string \<Rightarrow> nat option \<Rightarrow>
     string list \<times> (fc_error + function_record list)" where
  "fc_list cd psql database_url org_id limit =
     (let n = clamp_nat (unwrap_or MAX_LIST_LIMIT limit) 1 MAX_LIST_LIMIT
      in (case query psql database_url (list_sql org_id n) 4194304 of
            (sts, Inl e) \<Rightarrow> (sts, Inl e)
          | (sts, Inr out) \<Rightarrow>
              (case cd_records cd (trim out) of
                 Inl e \<Rightarrow> (sts, Inl (FcUnavailable (''invalid function list response: '' @ e)))
               | Inr rs \<Rightarrow> (sts, Inr rs))))"

definition fc_get ::
    "codec \<Rightarrow> psql \<Rightarrow> string option \<Rightarrow> string \<Rightarrow> string \<Rightarrow> string list \<times> (fc_error + function_record)" where
  "fc_get cd psql database_url org_id i = parse_record cd psql database_url (get_sql org_id i)"

definition fc_create ::
    "serde \<Rightarrow> environ \<Rightarrow> codec \<Rightarrow> psql \<Rightarrow> string option \<Rightarrow> string \<Rightarrow> string \<Rightarrow> function_input \<Rightarrow>
     string list \<times> (fc_error + function_record)" where
  "fc_create sj env cd psql database_url new_id org_id inp =
     (case clean_input sj env inp of
        Inl e \<Rightarrow> ([], Inl e)
      | Inr c \<Rightarrow> parse_record cd psql database_url (create_sql sj org_id new_id c))"

definition fc_update ::
    "serde \<Rightarrow> environ \<Rightarrow> codec \<Rightarrow> psql \<Rightarrow> string option \<Rightarrow> string \<Rightarrow> string \<Rightarrow> function_input \<Rightarrow>
     string list \<times> (fc_error + function_record)" where
  "fc_update sj env cd psql database_url org_id i inp =
     (case clean_input sj env inp of
        Inl e \<Rightarrow> ([], Inl e)
      | Inr c \<Rightarrow> parse_record cd psql database_url (update_sql sj org_id i c))"

definition fc_delete :: "psql \<Rightarrow> string option \<Rightarrow> string \<Rightarrow> string \<Rightarrow> string list \<times> (fc_error + unit)" where
  "fc_delete psql database_url org_id i =
     (case query psql database_url (delete_sql org_id i) 1024 of
        (sts, Inl e) \<Rightarrow> (sts, Inl e)
      | (sts, Inr out) \<Rightarrow> (sts, if trim out = [] then Inl FcNotFound else Inr ()))"

definition fc_pause ::
    "codec \<Rightarrow> psql \<Rightarrow> string option \<Rightarrow> string \<Rightarrow> string \<Rightarrow> string list \<times> (fc_error + function_record)" where
  "fc_pause cd psql database_url org_id i = parse_record cd psql database_url (pause_sql org_id i)"

definition activate_checked ::
    "serde \<Rightarrow> codec \<Rightarrow> psql \<Rightarrow> string option \<Rightarrow> string \<Rightarrow> function_record \<Rightarrow>
     string list \<times> (fc_error + function_record)" where
  "activate_checked sj cd psql database_url org_id r =
     (case parse_record cd psql database_url (activate_sql sj org_id r) of
        (sts, Inl FcNotFound) \<Rightarrow> (sts, Inl FcConflict)
      | (sts, Inl e) \<Rightarrow> (sts, Inl e)
      | (sts, Inr r') \<Rightarrow> (sts, Inr r'))"

definition invocation_definition :: "function_record \<Rightarrow> json" where
  "invocation_definition r = JObj (obj_of
     [(''id'', JStr (fr_id r)), (''slug'', JStr (fr_slug r)),
      (''displayName'', JStr (fr_display_name r)), (''description'', JStr (fr_description r)),
      (''runtime'', JStr (fr_runtime r)), (''entryCommand'', JStr (fr_entry_command r)),
      (''functionBody'', JStr (fr_function_body r)), (''reuseKey'', j_opt JStr (fr_reuse_key r)),
      (''idleTimeoutSeconds'', j_nat (fr_idle_timeout_seconds r)), (''maxRunMs'', j_nat (fr_max_run_ms r)),
      (''containerized'', JBool (fr_containerized r)),
      (''containerImage'', j_opt JStr (fr_container_image r)),
      (''containerBuildStatus'', JStr (fr_container_build_status r)), (''status'', JStr (fr_status r)),
      (''labels'', JArr (map JStr (fr_labels r))), (''metaData'', JObj (fr_meta_data r))])"

end
