(* ===== verification/Function_Props.thy ===== *)
theory Function_Props
  imports Function_Control Policy_Props
begin

section \<open>Properties of the function control plane\<close>

text \<open>
  The claims on \<open>src/function_control.rs\<close>: what a cleaned definition guarantees, that every
  statement is scoped to the tenant and cannot be changed by its values, what a check activates.
\<close>

subsection \<open>Slugs\<close>

definition slug_body :: "string \<Rightarrow> bool" where
  "slug_body s \<longleftrightarrow> list_all (\<lambda>c. slug_char c \<or> c = CHR ''-'') s \<and> (s \<noteq> [] \<longrightarrow> slug_char (hd s)) \<and>
     \<not> sublist ''--'' s"

definition canonical_slug :: "string \<Rightarrow> bool" where
  "canonical_slug s \<longleftrightarrow> slug_body s \<and> (s \<noteq> [] \<longrightarrow> slug_char (last s))"

lemma slug_char_alnum: "slug_char c \<Longrightarrow> is_ascii_alphanumeric c"
  by (auto simp: slug_char_def is_ascii_alphanumeric_def)

lemma dash_not_slug: "\<not> slug_char (CHR ''-'')" "\<not> is_ascii_alphanumeric (CHR ''-'')"
  by (simp_all add: slug_char_def ascii_class_defs)

lemma lower_alnum: "is_ascii_alphanumeric (ascii_lower c) \<Longrightarrow> slug_char (ascii_lower c)"
  by (auto simp: slug_char_def ascii_lower_def ascii_class_defs)

lemma lower_slug: "slug_char c \<Longrightarrow> ascii_lower c = c"
  by (auto simp: slug_char_def ascii_lower_def ascii_class_defs)

lemma lower_dash: "ascii_lower (CHR ''-'') = CHR ''-''"
  by (simp add: ascii_lower_def ascii_class_defs)

lemma no_double_dash_snoc:
  assumes "\<not> sublist ''--'' s" "s \<noteq> [] \<longrightarrow> last s \<noteq> CHR ''-'' \<or> c \<noteq> CHR ''-''"
  shows "\<not> sublist ''--'' (s @ [c])"
proof
  assume "sublist ''--'' (s @ [c])"
  then have "suffix ''--'' (s @ [c])" using assms(1) by (auto simp: sublist_snoc)
  then obtain z where "s @ [c] = (z @ ''-'') @ ''-''" by (auto simp: suffix_def)
  then have "s = z @ ''-''" "c = CHR ''-''" by (simp_all only: append1_eq_conv)
  with assms(2) show False by simp
qed

lemma slug_loop_body:
  assumes "slug_body acc" and "pd \<longleftrightarrow> acc \<noteq> [] \<and> last acc = CHR ''-''"
    and "\<forall>c \<in> set s. is_ascii_alphanumeric c \<longrightarrow> slug_char c"
  shows "slug_body (slug_loop pd acc s)"
  using assms
proof (induction pd acc s rule: slug_loop.induct)
  case (2 pd acc c s)
  show ?case
  proof (cases "is_ascii_alphanumeric c")
    case True
    with "2.prems" have c: "slug_char c" "c \<noteq> CHR ''-''" using dash_not_slug by auto
    then have "slug_body (acc @ [c])"
      using "2.prems"(1) no_double_dash_snoc [of acc c]
      by (cases acc) (auto simp: slug_body_def)
    with "2.IH"(1) [OF True] "2.prems" True c show ?thesis by simp
  next
    case False
    show ?thesis
    proof (cases "\<not> pd \<and> acc \<noteq> []")
      case True
      then have "slug_body (acc @ ''-'')"
        using "2.prems"(1,2) no_double_dash_snoc [of acc "CHR ''-''"]
        by (auto simp: slug_body_def hd_append)
      with "2.IH"(2) [OF False True] "2.prems" True False show ?thesis by simp
    next
      case skip: False
      with "2.IH"(3) [OF False skip] "2.prems" False show ?thesis by auto
    qed
  qed
qed simp

lemma slug_loop_canonical:
  assumes "list_all (\<lambda>c. slug_char c \<or> c = CHR ''-'') s" "\<not> sublist ''--'' (acc @ s)"
    and "acc @ s \<noteq> [] \<Longrightarrow> slug_char (hd (acc @ s))" "pd \<longleftrightarrow> acc \<noteq> [] \<and> last acc = CHR ''-''"
  shows "slug_loop pd acc s = acc @ s"
  using assms
proof (induction pd acc s rule: slug_loop.induct)
  case (2 pd acc c s)
  show ?case
  proof (cases "slug_char c")
    case True
    then have "is_ascii_alphanumeric c" "c \<noteq> CHR ''-''" using slug_char_alnum dash_not_slug by auto
    with "2.IH"(1) "2.prems" show ?thesis by simp
  next
    case False
    with "2.prems"(1) have c: "c = CHR ''-''" by simp
    with "2.prems"(3) dash_not_slug have acc: "acc \<noteq> []" by auto
    have "\<not> pd"
    proof
      assume pd
      with "2.prems"(4) obtain b where "acc = b @ ''-''" by (metis append_butlast_last_id)
      with c have "acc @ c # s = b @ ''--'' @ s" by simp
      with "2.prems"(2) show False by (metis sublist_appendI)
    qed
    with "2.IH"(2) "2.prems" acc c dash_not_slug show ?thesis by simp
  qed
qed simp

lemma rev_dropWhile_dash:
  "slug_body s \<Longrightarrow> canonical_slug (rev (dropWhile (\<lambda>c. c = CHR ''-'') (rev s)))"
proof -
  assume s: "slug_body s"
  let ?t = "rev (dropWhile (\<lambda>c. c = CHR ''-'') (rev s))"
  have pre: "prefix ?t s"
    using suffix_dropWhile [of "\<lambda>c. c = CHR ''-''" "rev s"] by (simp add: suffix_to_prefix)
  then obtain z where z: "s = ?t @ z" by (auto simp: prefix_def)
  have "\<not> sublist ''--'' ?t"
    using s z by (metis slug_body_def sublist_append_rightI sublist_order.order_trans)
  moreover have "list_all (\<lambda>c. slug_char c \<or> c = CHR ''-'') ?t"
    using s z by (metis list_all_append slug_body_def)
  moreover have "slug_char (hd ?t)" if "?t \<noteq> []"
    using s z that by (metis append_is_Nil_conv hd_append2 slug_body_def)
  moreover have "last ?t \<noteq> CHR ''-''" if "?t \<noteq> []"
    using that hd_dropWhile [of "\<lambda>c. c = CHR ''-''" "rev s"] by (simp add: last_rev)
  ultimately show ?thesis
    using last_in_set [of ?t] unfolding canonical_slug_def slug_body_def list_all_iff by blast
qed

lemma normalize_slug_canonical: "canonical_slug (normalize_slug s)"
proof -
  have "\<forall>c \<in> set (to_ascii_lowercase (trim s)). is_ascii_alphanumeric c \<longrightarrow> slug_char c"
    using lower_alnum by (auto simp: to_ascii_lowercase_def)
  then have "slug_body (slug_loop False [] (to_ascii_lowercase (trim s)))"
    by (intro slug_loop_body) (auto simp: slug_body_def)
  then show ?thesis unfolding normalize_slug_def by (rule rev_dropWhile_dash)
qed

lemma normalize_slug_fixed:
  assumes "canonical_slug s"
  shows "normalize_slug s = s"
proof (cases "s = []")
  case True
  then show ?thesis by (simp add: normalize_slug_def to_ascii_lowercase_def)
next
  case False
  with assms have ends: "slug_char (hd s)" "slug_char (last s)"
    by (auto simp: canonical_slug_def slug_body_def)
  have edge: "edge_char c" if "slug_char c" for c
    using that by (auto simp: slug_char_def edge_char_def ascii_class_defs)
  have "trim s = s" using trim_edges [OF False] ends edge by blast
  moreover have "to_ascii_lowercase s = s" unfolding to_ascii_lowercase_def
  proof (rule map_idI)
    fix c
    assume "c \<in> set s"
    with assms have "slug_char c \<or> c = CHR ''-''"
      by (simp add: canonical_slug_def slug_body_def list_all_iff)
    then show "ascii_lower c = c" by (elim disjE) (simp_all only: lower_slug lower_dash)
  qed
  moreover have "slug_loop False [] s = s"
    using assms slug_loop_canonical [of s "[]" False] by (auto simp: canonical_slug_def slug_body_def)
  moreover have "dropWhile (\<lambda>c. c = CHR ''-'') (rev s) = rev s"
  proof (cases "rev s")
    case (Cons a b)
    then have "a = last s" by (metis hd_rev list.sel(1))
    with ends dash_not_slug have "a \<noteq> CHR ''-''" by auto
    then show ?thesis by (simp add: Cons)
  qed simp
  ultimately show ?thesis by (simp add: normalize_slug_def)
qed

text \<open>
  Slugs are normalized once and for all. For every input the result is canonical (lower-case
  letters, digits and single dashes between them), the canonical slugs are exactly the fixed
  points, and normalizing twice changes nothing.
\<close>

theorem slug_normal_form:
  "canonical_slug (normalize_slug s) \<and> normalize_slug (normalize_slug s) = normalize_slug s \<and>
   (normalize_slug s = s \<longleftrightarrow> canonical_slug s)"
  using normalize_slug_canonical [of s] normalize_slug_fixed [of s]
    normalize_slug_fixed [of "normalize_slug s"] by metis

subsection \<open>Cleaned definitions\<close>

lemma validate_text_Inr:
  "validate_text f v lo hi = Inr t \<longleftrightarrow>
     t = trim v \<and> lo \<le> length t \<and> length t \<le> hi \<and> \<not> has_control t"
  by (auto simp: validate_text_def Let_def)

lemma clean_labels_Inr:
  assumes "clean_labels ls acc = Inr out" "distinct acc"
  shows "distinct out \<and> length out \<le> length acc + length ls \<and>
    set out = set acc \<union> trim ` set ls \<and>
    (\<forall>l \<in> trim ` set ls. 1 \<le> length l \<and> length l \<le> 64 \<and> \<not> has_control l)"
  using assms
proof (induction ls arbitrary: acc)
  case (Cons l ls)
  from Cons.prems(1) obtain t where t: "validate_text ''label'' l 1 64 = Inr t"
    and rest: "clean_labels ls (if t \<in> set acc then acc else acc @ [t]) = Inr out"
    by (auto split: sum.splits)
  have "distinct (if t \<in> set acc then acc else acc @ [t])" using Cons.prems(2) by simp
  from Cons.IH [OF rest this] t show ?case
    by (auto simp: validate_text_Inr split: if_splits)
qed simp

lemma clean_labels_fixed:
  assumes "distinct (acc @ ls)"
    "\<forall>l \<in> set ls. trim l = l \<and> 1 \<le> length l \<and> length l \<le> 64 \<and> \<not> has_control l"
  shows "clean_labels ls acc = Inr (acc @ ls)"
  using assms
proof (induction ls arbitrary: acc)
  case (Cons l ls)
  then have "validate_text ''label'' l 1 64 = Inr l" by (simp add: validate_text_Inr)
  with Cons show ?case by simp
qed simp

lemma clean_metadata_Inr:
  "clean_metadata sj m = Inr m' \<longleftrightarrow> m' = m \<and> obj_get m ORG_META_KEY = None \<and>
     obj_get m LOGICAL_SLUG_META_KEY = None \<and> length (sj_print sj (JObj m)) \<le> MAX_METADATA_BYTES"
  by (auto simp: clean_metadata_def)

lemma validate_reuse_key_Inr:
  "validate_reuse_key v = Inr k \<longleftrightarrow> k = trimmed v \<and> (\<forall>x. k = Some x \<longrightarrow> safe_reuse_key x)"
  by (auto simp: validate_reuse_key_def split: option.splits)

lemma trimmed_idem: "trimmed (trimmed v) = trimmed v"
  by (auto simp: trimmed_def trim_idem split: option.splits)

definition check_text :: "serde \<Rightarrow> string \<Rightarrow> string option \<Rightarrow> nat \<Rightarrow> nat \<Rightarrow> string" where
  "check_text sj body rk idle mx = sj_print sj (JObj (obj_of
     [(''runtime'', JStr ''nodejs''), (''containerized'', JBool False),
      (''functionBody'', JStr body), (''reuseKey'', j_opt JStr rk),
      (''idleTimeoutSeconds'', j_nat idle), (''maxRunMs'', j_nat mx)]))"

lemma clean_input_Inr:
  "clean_input sj env inp = Inr c \<longleftrightarrow>
     cl_logical_slug c = normalize_slug (in_slug inp) \<and>
     3 \<le> length (cl_logical_slug c) \<and> length (cl_logical_slug c) \<le> 80 \<and>
     validate_text ''displayName'' (in_display_name inp) 1 160 = Inr (cl_display_name c) \<and>
     (if trim (in_description inp) = [] then cl_description c = []
      else validate_text ''description'' (in_description inp) 1 4000 = Inr (cl_description c)) \<and>
     cl_function_body c = trim (in_function_body inp) \<and> cl_function_body c \<noteq> [] \<and>
     length (cl_function_body c) \<le> MAX_FUNCTION_BODY_BYTES \<and>
     canonical_runtime (trim (in_runtime inp)) = ''nodejs'' \<and> cl_runtime c = ''nodejs'' \<and>
     \<not> unwrap_or False (in_containerized inp) \<and> \<not> cl_containerized c \<and>
     cl_entry_command c = managed_entry_command ''nodejs'' \<and>
     validate_reuse_key (in_reuse_key inp) = Inr (cl_reuse_key c) \<and>
     cl_idle_timeout_seconds c = clamp_nat (unwrap_or 300 (in_idle_timeout_seconds inp)) 1 3600 \<and>
     cl_max_run_ms c = clamp_nat (unwrap_or 30000 (in_max_run_ms inp)) 1000 300000 \<and>
     length (in_labels inp) \<le> MAX_LABELS \<and> clean_labels (in_labels inp) [] = Inr (cl_labels c) \<and>
     clean_metadata sj (in_meta_data inp) = Inr (cl_meta_data c) \<and>
     (\<exists>cmd. command_for_definition env DEFAULT_NODEJS_HOST_COMMAND
        (check_text sj (cl_function_body c) (cl_reuse_key c) (cl_idle_timeout_seconds c)
          (cl_max_run_ms c)) = Inr cmd)"
    (is "?l \<longleftrightarrow> ?r")
proof
  assume ?l
  then show ?r
    unfolding clean_input_def Let_def check_text_def
    by (auto split: sum.splits if_splits)
next
  assume ?r
  then show ?l
    unfolding clean_input_def Let_def check_text_def
    by (cases c) (auto split: sum.splits if_splits)
qed

definition clean_ok :: "serde \<Rightarrow> clean_definition \<Rightarrow> bool" where
  "clean_ok sj c \<longleftrightarrow>
     canonical_slug (cl_logical_slug c) \<and> 3 \<le> length (cl_logical_slug c) \<and>
     length (cl_logical_slug c) \<le> 80 \<and>
     cl_display_name c \<noteq> [] \<and> length (cl_display_name c) \<le> 160 \<and> \<not> has_control (cl_display_name c) \<and>
     length (cl_description c) \<le> 4000 \<and> \<not> has_control (cl_description c) \<and>
     cl_function_body c \<noteq> [] \<and> length (cl_function_body c) \<le> MAX_FUNCTION_BODY_BYTES \<and>
     cl_runtime c = ''nodejs'' \<and> \<not> cl_containerized c \<and>
     cl_entry_command c = DEFAULT_NODEJS_HOST_COMMAND \<and>
     list_all safe_reuse_key (case cl_reuse_key c of None \<Rightarrow> [] | Some k \<Rightarrow> [k]) \<and>
     1 \<le> cl_idle_timeout_seconds c \<and> cl_idle_timeout_seconds c \<le> 3600 \<and>
     1000 \<le> cl_max_run_ms c \<and> cl_max_run_ms c \<le> 300000 \<and>
     distinct (cl_labels c) \<and> length (cl_labels c) \<le> MAX_LABELS \<and>
     list_all (\<lambda>l. l \<noteq> [] \<and> length l \<le> 64 \<and> \<not> has_control l) (cl_labels c) \<and>
     obj_get (cl_meta_data c) ORG_META_KEY = None \<and>
     obj_get (cl_meta_data c) LOGICAL_SLUG_META_KEY = None \<and>
     length (sj_print sj (JObj (cl_meta_data c))) \<le> MAX_METADATA_BYTES"

definition input_of :: "clean_definition \<Rightarrow> function_input" where
  "input_of c =
     \<lparr> in_slug = cl_logical_slug c, in_display_name = cl_display_name c,
       in_description = cl_description c, in_runtime = cl_runtime c,
       in_function_body = cl_function_body c, in_reuse_key = cl_reuse_key c,
       in_idle_timeout_seconds = Some (cl_idle_timeout_seconds c),
       in_max_run_ms = Some (cl_max_run_ms c), in_containerized = Some (cl_containerized c),
       in_labels = cl_labels c, in_meta_data = cl_meta_data c \<rparr>"

lemma clamp_nat_bounds: "lo \<le> hi \<Longrightarrow> lo \<le> clamp_nat n lo hi \<and> clamp_nat n lo hi \<le> hi"
  by (auto simp: clamp_nat_def)

lemma clamp_nat_idem: "lo \<le> hi \<Longrightarrow> clamp_nat (clamp_nat n lo hi) lo hi = clamp_nat n lo hi"
  by (auto simp: clamp_nat_def)

lemma has_control_Nil: "\<not> has_control []"
  by simp

text \<open>
  C28: What passes the cleaning obeys the policy. Whatever a tenant submits, an accepted definition
  has a canonical slug of 3 to 80 bytes, bounded texts without control characters, a body of at
  most 262144 bytes, the nodejs runtime on the managed host with the service's own command, a safe
  reuse key, an idle time of 1 to 3600 seconds and a run time of 1 to 300 seconds, at most 32
  different labels, and metadata without the reserved keys.
\<close>

theorem clean_input_sound:
  assumes "clean_input sj env inp = Inr c"
  shows "clean_ok sj c"
proof -
  note c = assms [unfolded clean_input_Inr]
  have labels: "distinct (cl_labels c)" "length (cl_labels c) \<le> MAX_LABELS"
    "list_all (\<lambda>l. l \<noteq> [] \<and> length l \<le> 64 \<and> \<not> has_control l) (cl_labels c)"
    using c clean_labels_Inr [of "in_labels inp" "[]" "cl_labels c"]
    by (auto simp: list_all_iff Suc_le_eq)
  have desc: "length (cl_description c) \<le> 4000" "\<not> has_control (cl_description c)"
    using c by (auto simp: validate_text_Inr has_control_Nil split: if_splits)
  have name: "cl_display_name c \<noteq> []" "length (cl_display_name c) \<le> 160"
    "\<not> has_control (cl_display_name c)"
    using c by (auto simp: validate_text_Inr)
  have slug: "canonical_slug (cl_logical_slug c)" using c normalize_slug_canonical by simp
  have limits: "1 \<le> cl_idle_timeout_seconds c" "cl_idle_timeout_seconds c \<le> 3600"
    "1000 \<le> cl_max_run_ms c" "cl_max_run_ms c \<le> 300000"
    using c clamp_nat_bounds [of 1 3600] clamp_nat_bounds [of 1000 300000] by simp_all
  have rest: "list_all safe_reuse_key (case cl_reuse_key c of None \<Rightarrow> [] | Some k \<Rightarrow> [k])"
    "cl_entry_command c = DEFAULT_NODEJS_HOST_COMMAND"
    "obj_get (cl_meta_data c) ORG_META_KEY = None"
    "obj_get (cl_meta_data c) LOGICAL_SLUG_META_KEY = None"
    "length (sj_print sj (JObj (cl_meta_data c))) \<le> MAX_METADATA_BYTES"
    using c by (auto simp: validate_reuse_key_Inr clean_metadata_Inr managed_entry_command_def
        split: option.splits)
  show ?thesis
    using c slug labels desc name limits rest unfolding clean_ok_def by blast
qed

text \<open>
  C29: Cleaning is stable. A cleaned definition that is submitted again is accepted and cleaned to
  itself: no field is cut, trimmed, lower-cased or clamped a second time.
\<close>

theorem clean_input_idempotent:
  assumes "clean_input sj env inp = Inr c"
  shows "clean_input sj env (input_of c) = Inr c"
proof -
  note c = assms [unfolded clean_input_Inr]
  have slug: "normalize_slug (cl_logical_slug c) = cl_logical_slug c"
    using c normalize_slug_canonical normalize_slug_fixed by simp
  have name: "validate_text ''displayName'' (cl_display_name c) 1 160 = Inr (cl_display_name c)"
    using c by (auto simp: validate_text_Inr trim_idem)
  have desc: "if trim (cl_description c) = [] then cl_description c = []
      else validate_text ''description'' (cl_description c) 1 4000 = Inr (cl_description c)"
    using c by (auto simp: validate_text_Inr trim_idem split: if_splits)
  have body: "trim (cl_function_body c) = cl_function_body c" using c by (simp add: trim_idem)
  have "trim ''nodejs'' = ''nodejs''" by (rule trim_edges) (simp_all add: edge_char_def byte_def)
  then have rt: "canonical_runtime (trim (cl_runtime c)) = ''nodejs''"
    using c by (simp add: canonical_runtime_def)
  have key: "validate_reuse_key (cl_reuse_key c) = Inr (cl_reuse_key c)"
    using c by (auto simp: validate_reuse_key_Inr trimmed_idem)
  have labels: "clean_labels (cl_labels c) [] = Inr (cl_labels c)" "length (cl_labels c) \<le> MAX_LABELS"
    using c clean_labels_Inr [of "in_labels inp" "[]" "cl_labels c"]
      clean_labels_fixed [of "[]" "cl_labels c"]
    by (auto simp: trim_idem)
  have limits: "clamp_nat (cl_idle_timeout_seconds c) 1 3600 = cl_idle_timeout_seconds c"
    "clamp_nat (cl_max_run_ms c) 1000 300000 = cl_max_run_ms c"
    using c clamp_nat_idem [of 1 3600] clamp_nat_idem [of 1000 300000] by simp_all
  have meta: "clean_metadata sj (cl_meta_data c) = Inr (cl_meta_data c)"
    using c by (auto simp: clean_metadata_Inr)
  show ?thesis
    unfolding clean_input_Inr input_of_def function_input.simps unwrap_or_def option.case
    using c slug [symmetric] name desc body [symmetric] rt key labels meta limits [symmetric] by blast
qed


subsection \<open>A sample definition\<close>

definition plain_clean :: clean_definition where
  "plain_clean =
     \<lparr> cl_logical_slug = ''hourly-billing'', cl_display_name = ''Hourly billing'', cl_description = '''',
       cl_runtime = ''nodejs'', cl_entry_command = DEFAULT_NODEJS_HOST_COMMAND,
       cl_function_body = ''return 1;'', cl_reuse_key = Some ''k'', cl_idle_timeout_seconds = 300,
       cl_max_run_ms = 1000, cl_containerized = False, cl_labels = [''cron''], cl_meta_data = [] \<rparr>"

definition plain_input :: function_input where
  "plain_input = (input_of plain_clean) \<lparr> in_runtime := ''javascript'',
     in_idle_timeout_seconds := None, in_max_run_ms := Some 7, in_labels := [''cron'', ''cron''] \<rparr>"

definition plain_serde :: serde where
  "plain_serde = \<lparr> sj_parse = Inl, sj_print = (\<lambda>_. []) \<rparr>"

lemma visible_trim:
  "edge_char c \<Longrightarrow> trim [c] = [c]"
  "edge_char c \<Longrightarrow> edge_char (last (d # s)) \<Longrightarrow> trim (c # d # s) = c # d # s"
  by (simp_all add: trim_edges)

lemma plain_command: "\<exists>cmd. command_for_definition (\<lambda>_. None) DEFAULT_NODEJS_HOST_COMMAND [] = Inr cmd"
proof -
  have "runtime_from_definition [] = ''nodejs''" by code_simp
  moreover have "host_runtime_allowed (\<lambda>_. None) ''nodejs''" by code_simp
  ultimately show ?thesis
  by (simp add: command_for_definition_def Let_def supported_runtime_def json_bool_field_def
      bool_field_at_def after_key_def)
qed
lemma plain_input_clean: "clean_input plain_serde (\<lambda>_. None) plain_input = Inr plain_clean"
proof -
  have "normalize_slug ''hourly-billing'' = ''hourly-billing''"
    by (rule normalize_slug_fixed) code_simp
  moreover have "validate_text ''label'' ''cron'' 1 64 = Inr ''cron''"
    by (simp add: validate_text_Inr visible_trim edge_char_def byte_def)
  then have "clean_labels [''cron'', ''cron''] [] = Inr [''cron'']" by simp
  ultimately show ?thesis
    using plain_command
  unfolding clean_input_Inr plain_input_def input_of_def plain_clean_def
  by (simp add: validate_text_Inr visible_trim edge_char_def byte_def
    canonical_runtime_def unwrap_or_def managed_entry_command_def validate_reuse_key_Inr trimmed_def
    safe_reuse_key_def clamp_nat_def MAX_LABELS_def MAX_FUNCTION_BODY_BYTES_def clean_metadata_Inr
    plain_serde_def check_text_def obj_get_def is_ascii_alphanumeric_def ascii_class_defs)
qed

subsection \<open>Statements\<close>

lemma sql_text_inject: "sql_text v = sql_text w \<longleftrightarrow> v = w"
proof
  assume "sql_text v = sql_text w"
  then have "hex_encode v = hex_encode w" by (simp add: sql_text_def)
  moreover have "hex_decode (hex_encode u) = Some u" for u using sql_text_exact [of u] by (elim conjE)
  ultimately show "v = w" by (metis option.inject)
qed simp

lemma concat_scope:
  assumes "list_all sql_closed a"
  shows "\<exists>pre post. concat (a @ m @ b) = pre @ concat m @ post \<and> sql_closed pre"
proof -
  have "sql_closed (concat a)"
    using assms by (induction a) (simp_all add: sql_closed_Nil sql_closed_append)
  then show ?thesis by (intro exI [of _ "concat a"] exI [of _ "concat b"]) simp
qed

lemma skeleton_concat:
  "list_all sql_closed segs \<Longrightarrow>
     sql_skeleton False (concat segs) = concat (map (sql_skeleton False) segs)"
  by (induction segs) (simp_all add: sql_closed_def)

lemma sql_closed_concat: "list_all sql_closed segs \<Longrightarrow> sql_closed (concat segs)"
  by (induction segs) (simp_all add: sql_closed_Nil sql_closed_append)

lemma sql_closed_text: "sql_closed (sql_text v)"
proof -
  have "sql_closed (''convert_from(decode('')" "sql_closed ('','')" "sql_closed (''),'')" "sql_closed ('')'')"
    by (simp_all add: sql_closed_plain squote_iff)
  then show ?thesis unfolding sql_text_split
    by (intro sql_closed_append sql_closed_lit hex_encode_plain) (simp_all add: squote_iff)
qed

definition text_skeleton :: string where
  "text_skeleton = sql_skeleton False (sql_text [])"

lemma skeleton_text: "sql_skeleton False (sql_text v) = text_skeleton"
  using skeleton_sql_text [of v "[]"] by (simp add: text_skeleton_def)

lemma skeleton_lit_only: "squote \<notin> set s \<Longrightarrow> sql_skeleton False (sql_lit s) = [squote, squote]"
  using skeleton_lit [of s "[]"] by simp

lemma sql_closed_optional: "sql_closed (sql_optional_text v)"
  by (auto simp: sql_optional_text_def sql_closed_text sql_closed_plain squote_iff split: option.splits)

lemma skeleton_optional:
  "(v = None \<longleftrightarrow> w = None) \<Longrightarrow>
     sql_skeleton False (sql_optional_text v) = sql_skeleton False (sql_optional_text w)"
  by (auto simp: sql_optional_text_def skeleton_text split: option.splits)

lemma sql_json_closed: "sql_closed (sql_json sj v)"
  unfolding sql_json_def
  by (intro sql_closed_append sql_closed_text sql_closed_plain) (simp_all add: squote_iff)

lemma skeleton_json:
  "sql_skeleton False (sql_json sj v) = ''('' @ text_skeleton @ '')::jsonb''"
proof -
  have "sql_closed ''(''" by (simp add: sql_closed_plain squote_iff)
  then show ?thesis
    using sql_closed_text [of "sj_print sj v"] unfolding sql_json_def sql_closed_def skeleton_text
    by (simp add: squote_iff)
qed

lemma sql_closed_bool: "sql_closed (sql_bool b)"
  by (simp add: sql_bool_def sql_closed_plain squote_iff)

lemma show_nat_plain: "squote \<notin> set (show_nat n)"
  using show_nat_digits [of n] by (auto simp: squote_def list_all_iff ascii_class_defs)

lemma record_projection_closed: "sql_closed record_projection"
  unfolding record_projection_def
  by (intro sql_closed_concat) (simp add: sql_closed_lit sql_closed_plain squote_iff)

lemmas closed_pieces = sql_closed_text sql_closed_optional sql_json_closed sql_closed_bool
  record_projection_closed show_nat_plain


text \<open>Two definitions, and two rows, that differ in their texts only.\<close>

definition same_shape :: "clean_definition \<Rightarrow> clean_definition \<Rightarrow> bool" where
  "same_shape c c' \<longleftrightarrow>
     (cl_reuse_key c = None \<longleftrightarrow> cl_reuse_key c' = None) \<and>
     cl_idle_timeout_seconds c = cl_idle_timeout_seconds c' \<and> cl_max_run_ms c = cl_max_run_ms c' \<and>
     cl_containerized c = cl_containerized c'"

definition same_row :: "function_record \<Rightarrow> function_record \<Rightarrow> bool" where
  "same_row r r' \<longleftrightarrow> fr_max_run_ms r = fr_max_run_ms r' \<and> fr_containerized r = fr_containerized r'"

definition statements ::
    "serde \<Rightarrow> string \<Rightarrow> string \<Rightarrow> nat \<Rightarrow> clean_definition \<Rightarrow> function_record \<Rightarrow> string list" where
  "statements sj org_id i n c r =
     [list_sql org_id n, get_sql org_id i, create_sql sj org_id i c, update_sql sj org_id i c,
      delete_sql org_id i, pause_sql org_id i, activate_sql sj org_id (r\<lparr>fr_id := i\<rparr>)]"

lemma scope_closed: "list_all sql_closed (tenant_scope org_id)"
  by (simp add: tenant_scope_def ORG_META_KEY_def closed_pieces sql_closed_lit sql_closed_plain squote_iff)

lemma scope_skeleton:
  "map (sql_skeleton False) (tenant_scope org_id) = map (sql_skeleton False) (tenant_scope org_id')"
  by (simp only: tenant_scope_def list.map skeleton_text)

lemma concat_skeletons:
  assumes "list_all sql_closed as" "list_all sql_closed bs"
    "map (sql_skeleton False) as = map (sql_skeleton False) bs"
  shows "sql_skeleton False (concat as) = sql_skeleton False (concat bs)"
  by (simp only: skeleton_concat assms)

lemmas statement_defs = list_sql_def get_sql_def create_sql_def update_sql_def delete_sql_def
  pause_sql_def activate_sql_def

lemmas closed_segments = closed_pieces scope_closed sql_closed_lit sql_closed_plain squote_iff
  list_all_append list.pred_inject append_Cons append_Nil

lemmas skeleton_segments = skeleton_text skeleton_json skeleton_lit_only list.map map_append


text \<open>
  C17: A tenant cannot change a statement. For all seven statements of the control plane the text
  outside the string literals is the same whatever the organization, the row identifier (without
  a quote, as the text of a UUID is), and the texts, labels and metadata of the definition are;
  only numbers, flags and the presence of a reuse key show.
\<close>

theorem statements_injection_free:
  assumes "squote \<notin> set i" "squote \<notin> set i'" "same_shape c c'" "same_row r r'"
  shows "map (sql_skeleton False) (statements sj org_id i n c r) =
    map (sql_skeleton False) (statements sj' org_id' i' n c' r')"
proof -
  note scope = scope_skeleton [of org_id org_id']
  note hyps = assms [unfolded same_shape_def same_row_def]
  have optional: "sql_skeleton False (sql_optional_text (cl_reuse_key c)) =
      sql_skeleton False (sql_optional_text (cl_reuse_key c'))"
    using hyps by (intro skeleton_optional) simp
  have "sql_skeleton False (list_sql org_id n) = sql_skeleton False (list_sql org_id' n)"
    "sql_skeleton False (get_sql org_id i) = sql_skeleton False (get_sql org_id' i')"
    "sql_skeleton False (delete_sql org_id i) = sql_skeleton False (delete_sql org_id' i')"
    "sql_skeleton False (pause_sql org_id i) = sql_skeleton False (pause_sql org_id' i')"
    unfolding list_sql_def get_sql_def delete_sql_def pause_sql_def
    using hyps scope by (intro concat_skeletons; simp_all add: skeleton_segments closed_segments)+
  moreover have "sql_skeleton False (create_sql sj org_id i c) = sql_skeleton False (create_sql sj' org_id' i' c')"
    unfolding create_sql_def build_status_def using hyps optional
    by (intro concat_skeletons; simp_all add: skeleton_segments closed_segments)
  moreover have "sql_skeleton False (update_sql sj org_id i c) = sql_skeleton False (update_sql sj' org_id' i' c')"
    unfolding update_sql_def build_status_def using hyps optional scope
    by (intro concat_skeletons; simp_all add: skeleton_segments closed_segments)
  moreover have "sql_skeleton False (activate_sql sj org_id (r\<lparr>fr_id := i\<rparr>)) =
      sql_skeleton False (activate_sql sj' org_id' (r'\<lparr>fr_id := i'\<rparr>))"
    unfolding activate_sql_def using hyps scope
    by (intro concat_skeletons; simp_all add: skeleton_segments closed_segments)
  ultimately show ?thesis unfolding statements_def by (simp only: list.map)
qed

definition plain_record :: function_record where
  "plain_record =
     \<lparr> fr_id = ''7'', fr_slug = ''hourly'', fr_display_name = ''Hourly'', fr_description = '''',
       fr_runtime = ''nodejs'', fr_entry_command = ''node'', fr_function_body = ''return 1;'',
       fr_reuse_key = None, fr_idle_timeout_seconds = 300, fr_max_run_ms = 1000,
       fr_containerized = False, fr_container_image = None, fr_container_build_status = ''not_requested'',
       fr_status = ''draft'', fr_labels = [], fr_meta_data = [], fr_created_at = None, fr_updated_at = None \<rparr>"

lemma statements_injection_free_witness:
  "map (sql_skeleton False) (statements plain_serde ''org'' ''7'' 3
       (plain_clean\<lparr>cl_display_name := squote # ''; drop table lambda_functions''\<rparr>) plain_record) =
   map (sql_skeleton False) (statements plain_serde (squote # '' or true'') ''8'' 3 plain_clean
       (plain_record\<lparr>fr_function_body := [squote]\<rparr>))"
  by (rule statements_injection_free)
    (simp_all add: squote_def same_shape_def same_row_def plain_clean_def plain_record_def)

text \<open>
  Every statement is scoped to the tenant. Each of the six statements on existing rows
  carries, outside of every string literal, the condition that the row is not deleted and that
  its reserved key \<open>fiduciaOrgId\<close> is the caller's organization, the statements of different
  organizations differ there, and the metadata that is written back always names the caller.
\<close>

theorem tenant_scoped:
  assumes "squote \<notin> set i"
  shows "(\<forall>st \<in> set (statements sj org_id i n c r) - {create_sql sj org_id i c}.
       \<exists>pre post. st = pre @ concat (tenant_scope org_id) @ post \<and> sql_closed pre) \<and>
     (concat (tenant_scope org_id) = concat (tenant_scope org_id') \<longleftrightarrow> org_id = org_id') \<and>
     obj_get (scoped_metadata m org_id slug) ORG_META_KEY = Some (JStr org_id)"
proof -
  have closed: "list_all sql_closed a \<Longrightarrow> st = concat (a @ tenant_scope org_id @ b) \<Longrightarrow>
      \<exists>pre post. st = pre @ concat (tenant_scope org_id) @ post \<and> sql_closed pre" for a b st
    using concat_scope by simp
  have "\<exists>pre post. st = pre @ concat (tenant_scope org_id) @ post \<and> sql_closed pre"
    if "st \<in> {list_sql org_id n, get_sql org_id i, update_sql sj org_id i c, delete_sql org_id i,
        pause_sql org_id i, activate_sql sj org_id (r\<lparr>fr_id := i\<rparr>)}" for st
    using that assms
    by (elim insertE emptyE; (unfold list_sql_def get_sql_def delete_sql_def pause_sql_def
      update_sql_def activate_sql_def build_status_def)?; elim closed [rotated]; simp add: closed_segments)
  moreover have "concat (tenant_scope org_id) = concat (tenant_scope org_id') \<longleftrightarrow> org_id = org_id'"
    by (simp add: tenant_scope_def sql_text_inject)
  moreover have "obj_get (scoped_metadata m org_id slug) ORG_META_KEY = Some (JStr org_id)"
    by (simp add: scoped_metadata_def obj_get_insert ORG_META_KEY_def LOGICAL_SLUG_META_KEY_def)
  ultimately show ?thesis by (auto simp: statements_def)
qed

text \<open>
  What a check activates. The update of a checked record compares its body, runtime,
  containerization and run time only: a concurrent change of the entry command, the reuse key,
  the image or the idle time goes unseen, and the metadata written is the one that was checked.
  A blank answer is the conflict; "not found" is never reported.
\<close>

theorem activation_guard:
  assumes "fr_id r = fr_id r'" "fr_slug r = fr_slug r'" "fr_meta_data r = fr_meta_data r'"
    "fr_function_body r = fr_function_body r'" "fr_runtime r = fr_runtime r'"
    "fr_containerized r = fr_containerized r'" "fr_max_run_ms r = fr_max_run_ms r'"
  shows "activate_checked sj cd psql url org_id r = activate_checked sj cd psql url org_id r' \<and>
    snd (activate_checked sj cd psql url org_id r) \<noteq> Inl FcNotFound \<and>
    (snd (activate_checked sj cd psql url org_id r) = Inl FcConflict \<longleftrightarrow>
      (\<exists>out. snd (query psql url (activate_sql sj org_id r) 2097152) = Inr out \<and> trim out = []))"
proof -
  have "activate_sql sj org_id r = activate_sql sj org_id r'"
    by (simp only: activate_sql_def assms)
  then show ?thesis
    by (auto simp: activate_checked_def parse_record_def query_def Let_def
        split: sum.splits fc_error.splits option.splits)
qed


lemma tenant_scoped_witness:
  "\<exists>pre post. delete_sql ''acme'' ''7'' = pre @ concat (tenant_scope ''acme'') @ post \<and> sql_closed pre"
proof -
  have "delete_sql ''acme'' ''7'' \<noteq> create_sql plain_serde ''acme'' ''7'' plain_clean"
    by (simp add: delete_sql_def create_sql_def)
  then show ?thesis
    using tenant_scoped [of "''7''" plain_serde "''acme''" 1 plain_clean plain_record]
    by (simp add: squote_def statements_def)
qed

definition plain_codec :: codec where
  "plain_codec = \<lparr> cd_uuid = Some, cd_input = Inl, cd_record = Inl, cd_records = Inl \<rparr>"

definition blank_psql :: psql where
  "blank_psql = (\<lambda>_ _. Exited (Some 0) [] [])"

lemma activation_guard_witness:
  "snd (activate_checked plain_serde plain_codec blank_psql (Some ''db'') ''acme''
     (plain_record\<lparr>fr_entry_command := ''other'', fr_reuse_key := Some ''k''\<rparr>)) = Inl FcConflict"
proof -
  let ?r = "plain_record\<lparr>fr_entry_command := ''other'', fr_reuse_key := Some ''k''\<rparr>"
  have "snd (query blank_psql (Some ''db'') (activate_sql plain_serde ''acme'' ?r) 2097152) = Inr []"
    by (simp add: query_def run_psql_def blank_psql_def)
  then show ?thesis
    using activation_guard [of ?r plain_record plain_serde plain_codec blank_psql "Some ''db''" "''acme''"]
    by (simp; metis trim_Nil)
qed

lemma clean_input_sound_witness: "clean_ok plain_serde plain_clean"
  by (rule clean_input_sound [OF plain_input_clean])

lemma clean_input_idempotent_witness:
  "clean_input plain_serde (\<lambda>_. None) (input_of plain_clean) = Inr plain_clean"
  by (rule clean_input_idempotent [OF plain_input_clean])

end
