(* ===== verification/Http.thy ===== *)
theory Http
  imports Function_Control Child_Runner Engine
begin

section \<open>The HTTP surface and start-up\<close>

text \<open>
  The model of \<open>src/http.rs\<close>, \<open>src/api_docs.rs\<close>, \<open>src/util.rs\<close> and of \<open>run\<close> in
  \<open>src/main.rs\<close>. A handler is a function from the state it shares with the others (\<open>app\<close>: the
  runner with the process metrics, and the workflow engine) to the new state and the response;
  what it reaches outside is the record \<open>backend\<close>. The decoding of paths and queries and the
  rejections of the web framework (body too large, bad query, wrong method) are parameters.
\<close>

subsection \<open>Requests and responses\<close>

text \<open>Headers: the first value of each (lower-case) name.\<close>

record request =
  rq_headers :: "string \<Rightarrow> string option"
  rq_body :: string

record response =
  rp_status :: nat
  rp_headers :: "(string \<times> string) list"
  rp_body :: string

definition json_response :: "nat \<Rightarrow> string \<Rightarrow> response" where
  "json_response status body =
     \<lparr> rp_status = status, rp_headers = [(''content-type'', ''application/json'')], rp_body = body \<rparr>"

definition sensitive_json_response :: "nat \<Rightarrow> string \<Rightarrow> response" where
  "sensitive_json_response status body =
     \<lparr> rp_status = status,
       rp_headers = [(''content-type'', ''application/json; charset=utf-8''),
                     (''cache-control'', ''no-store''), (''x-content-type-options'', ''nosniff'')],
       rp_body = body \<rparr>"

definition ok_err :: "string \<Rightarrow> string" where
  \<open>ok_err err = ''{"ok":false,"error":"'' @ json_escape err @ ''"}''\<close>

definition ok_field :: "string \<Rightarrow> string \<Rightarrow> string" where
  \<open>ok_field name v = ''{"ok":true,"'' @ name @ ''":"'' @ json_escape v @ ''"}''\<close>

definition ok_raw :: "string \<Rightarrow> string \<Rightarrow> string" where
  \<open>ok_raw name v = ''{"ok":true,"'' @ name @ ''":'' @ v @ ''}''\<close>

subsection \<open>Authentication and tenants\<close>

text \<open>\<open>util::constant_time_eq\<close>: the accumulated XOR of the bytes.\<close>

definition u8 :: "char \<Rightarrow> 8 word" where
  "u8 c = of_nat (byte c)"

fun diff_loop :: "8 word \<Rightarrow> string \<Rightarrow> string \<Rightarrow> 8 word" where
  "diff_loop diff (x # a) (y # b) = diff_loop (or diff (xor (u8 x) (u8 y))) a b"
| "diff_loop diff _ _ = diff"

definition constant_time_eq :: "string \<Rightarrow> string \<Rightarrow> bool" where
  "constant_time_eq a b = (if length a \<noteq> length b then False else diff_loop 0 a b = 0)"

text \<open>\<open>HeaderValue::to_str\<close>: visible ASCII, blanks and tabs only.\<close>

definition header_char :: "char \<Rightarrow> bool" where
  "header_char c \<longleftrightarrow> 32 \<le> byte c \<and> byte c < 127 \<or> byte c = 9"

definition header_str :: "request \<Rightarrow> string \<Rightarrow> string option" where
  "header_str rq name =
     (case rq_headers rq name of
        None \<Rightarrow> None
      | Some v \<Rightarrow> if list_all header_char v then Some v else None)"

definition AUTH_HEADERS :: "string list" where
  "AUTH_HEADERS = [''x-server-auth'', ''x-lambda-runner-auth'', ''x-agent-auth'']"

definition authorization_error :: "config \<Rightarrow> request \<Rightarrow> response option" where
  "authorization_error cfg rq =
     (case cf_server_auth_secret cfg of
        None \<Rightarrow> Some (json_response 503 (ok_err ''SERVER_AUTH_SECRET is not configured''))
      | Some secret \<Rightarrow>
          (if list_ex (\<lambda>v. constant_time_eq v secret) (List.map_filter (header_str rq) AUTH_HEADERS)
           then None
           else Some (json_response 401 (ok_err ''unauthorized''))))"

definition ORG_HEADER :: string where
  "ORG_HEADER = ''x-fiducia-org-id''"

definition organization_id :: "request \<Rightarrow> response + string" where
  "organization_id rq =
     (case trimmed (header_str rq ORG_HEADER) of
        None \<Rightarrow> Inl (json_response 400 (ok_err ''x-fiducia-org-id is required''))
      | Some v \<Rightarrow>
          (if \<not> valid_org_id v then Inl (json_response 400 (ok_err ''x-fiducia-org-id is invalid''))
           else Inr v))"

definition function_control_error :: "fc_error \<Rightarrow> response" where
  "function_control_error e =
     (case e of
        FcInvalid reason \<Rightarrow> json_response 400 (ok_err reason)
      | FcNotFound \<Rightarrow> json_response 404 (ok_err ''function not found'')
      | FcConflict \<Rightarrow> json_response 409 (ok_err ''function changed during check'')
      | FcUnavailable _ \<Rightarrow> json_response 503 (ok_err ''function definition store unavailable''))"

definition workflow_error_status :: "string \<Rightarrow> nat" where
  "workflow_error_status err =
     (if str_contains err ''not found'' then 404
      else if str_contains err ''not cancelable'' \<or> str_contains err ''not running'' \<or>
              str_contains err ''already claimed'' then 409
      else if str_contains err ''required'' \<or> str_contains err ''invalid'' \<or>
              str_contains err ''must'' \<or> str_contains err ''not active'' then 400
      else 502)"

definition workflow_error_response :: "string \<Rightarrow> response" where
  "workflow_error_response err = json_response (workflow_error_status err) (ok_err err)"

subsection \<open>State and surroundings\<close>

text \<open>
  \<open>ap_log\<close> is what the handlers of the function API did outside the process, in order: the
  statements of \<open>src/function_control.rs\<close> handed to psql, the checks the child runner ran (the
  definition text and the outcome).
\<close>

datatype effect = Statement string | Checked string "string + string"

record app =
  ap_runner :: runner
  ap_engine :: engine
  ap_log :: "effect list"

definition issued :: "string list \<Rightarrow> app \<Rightarrow> app" where
  "issued sts a = a\<lparr>ap_log := ap_log a @ map Statement sts\<rparr>"

definition checked :: "string \<Rightarrow> string + string \<Rightarrow> app \<Rightarrow> app" where
  "checked def res a = a\<lparr>ap_log := ap_log a @ [Checked def res]\<rparr>"

text \<open>
  \<open>bk_reject\<close> is the framework's own answer of a status.
\<close>

record backend =
  bk_config :: config
  bk_host :: host
  bk_world :: world
  bk_client :: client
  bk_coord :: coordinator
  bk_codec :: codec
  bk_new_id :: string
  bk_reject :: "nat \<Rightarrow> response"

definition bk_serde :: "backend \<Rightarrow> serde" where
  "bk_serde b = w_serde (bk_world b)"

text \<open>The runner was built from the same configuration: it reads the same database.\<close>

definition child_host :: "backend \<Rightarrow> host" where
  "child_host b = (bk_host b)\<lparr>h_database_url := cf_database_url (bk_config b)\<rparr>"

definition count :: "(metrics \<Rightarrow> metrics) \<Rightarrow> app \<Rightarrow> app" where
  "count f a = a\<lparr>ap_runner := tally f (ap_runner a)\<rparr>"

definition count_rejection :: "app \<Rightarrow> app" where
  "count_rejection = count (\<lambda>m. m\<lparr>mt_tenant_auth_rejections_total := mt_tenant_auth_rejections_total m + 1\<rparr>)"

definition count_invocation_failure :: "app \<Rightarrow> app" where
  "count_invocation_failure =
     count (\<lambda>m. m\<lparr>mt_function_invocation_failures_total := mt_function_invocation_failures_total m + 1\<rparr>)"

definition count_check_failure :: "app \<Rightarrow> app" where
  "count_check_failure =
     count (\<lambda>m. m\<lparr>mt_function_definition_check_failures_total :=
       mt_function_definition_check_failures_total m + 1\<rparr>)"

text \<open>The opening of every tenant handler, and of every other protected handler.\<close>

definition with_tenant ::
    "backend \<Rightarrow> request \<Rightarrow> (string \<Rightarrow> app \<Rightarrow> app \<times> response) \<Rightarrow> app \<Rightarrow> app \<times> response" where
  "with_tenant b rq k a =
     (case authorization_error (bk_config b) rq of
        Some r \<Rightarrow> (count_rejection a, r)
      | None \<Rightarrow>
          (case organization_id rq of
             Inl r \<Rightarrow> (count_rejection a, r)
           | Inr org_id \<Rightarrow> k org_id a))"

definition with_auth ::
    "backend \<Rightarrow> request \<Rightarrow> (app \<Rightarrow> app \<times> response) \<Rightarrow> app \<Rightarrow> app \<times> response" where
  "with_auth b rq k a =
     (case authorization_error (bk_config b) rq of Some r \<Rightarrow> (a, r) | None \<Rightarrow> k a)"

definition with_id ::
    "backend \<Rightarrow> string \<Rightarrow> (string \<Rightarrow> app \<Rightarrow> app \<times> response) \<Rightarrow> app \<Rightarrow> app \<times> response" where
  "with_id b function_id k a =
     (case validate_function_id (bk_codec b) function_id of
        Inl e \<Rightarrow> (a, function_control_error e)
      | Inr i \<Rightarrow> k i a)"

definition with_utf8 ::
    "request \<Rightarrow> (string \<Rightarrow> app \<Rightarrow> app \<times> response) \<Rightarrow> app \<Rightarrow> app \<times> response" where
  "with_utf8 rq k a =
     (if utf8_valid (rq_body rq) then k (rq_body rq) a
      else (a, json_response 400 (ok_err ''body-not-utf8'')))"

subsection \<open>Service routes\<close>

definition html_response :: "string \<Rightarrow> response" where
  "html_response body =
     \<lparr> rp_status = 200, rp_headers = [(''content-type'', ''text/html; charset=utf-8'')], rp_body = body \<rparr>"

definition healthz :: "backend \<Rightarrow> response" where
  "healthz b =
     (let st = registration_status_of (bk_coord b);
          cfg = bk_config b
      in json_response 200 (sj_print (bk_serde b) (JObj (obj_of
           [(''ok'', JBool True), (''degraded'', JBool (rs_configured st \<and> \<not> rs_healthy st)),
            (''service'', JStr ''fiducia-lambda-service''),
            (''authConfigured'', JBool (server_auth_configured cfg)),
            (''postgresConfigured'', JBool (cf_database_url cfg \<noteq> None)),
            (''natsConfigured'', JBool (cf_nats_url cfg \<noteq> None)),
            (''workflowEngineEnabled'', JBool (engine_enabled (h_env (bk_host b)))),
            (''fiduciaNodeConfigured'', JBool (rs_configured st)),
            (''fiduciaRegistrationHealthy'',
              if rs_configured st then JBool (rs_healthy st) else JNull)]))))"

text \<open>\<open>Coordinator::registration_metrics_text\<close>\<close>

definition registration_rows :: "registration_status \<Rightarrow> (string \<times> string \<times> string \<times> u64) list" where
  "registration_rows st =
     [(''dd_lambda_runner_fiducia_registration_configured'',
       ''Whether fiducia-node service registration is configured.'', ''gauge'',
       of_bool (rs_configured st)),
      (''dd_lambda_runner_fiducia_registration_healthy'',
       ''Whether the latest fiducia-node service registration operation succeeded.'', ''gauge'',
       of_bool (rs_configured st \<and> rs_healthy st)),
      (''dd_lambda_runner_fiducia_registration_heartbeat_failures_total'',
       ''Failed fiducia-node service registration heartbeats.'', ''counter'', rs_heartbeat_failures st),
      (''dd_lambda_runner_fiducia_registration_reregistration_attempts_total'',
       ''Attempts to restore a degraded fiducia-node service registration.'', ''counter'',
       rs_rereg_attempts st),
      (''dd_lambda_runner_fiducia_registration_reregistration_failures_total'',
       ''Failed attempts to restore a degraded fiducia-node service registration.'', ''counter'',
       rs_rereg_failures st),
      (''dd_lambda_runner_fiducia_registration_recoveries_total'',
       ''Degraded fiducia-node registrations restored by re-registration.'', ''counter'',
       rs_recoveries st)]"

definition registration_metrics_text :: "coordinator \<Rightarrow> string" where
  "registration_metrics_text c = concat (map metric_block (registration_rows (registration_status_of c)))"

definition metrics_text :: "backend \<Rightarrow> app \<Rightarrow> response" where
  "metrics_text b a =
     \<lparr> rp_status = 200,
       rp_headers = [(''content-type'', ''text/plain; version=0.0.4; charset=utf-8'')],
       rp_body = metrics_render (ru_metrics (ap_runner a)) (active_workers (ap_runner a)) @ [newline] @
         wf_render (e_metrics (ap_engine a)) @ [newline] @ registration_metrics_text (bk_coord b) \<rparr>"

definition not_found :: response where
  "not_found = json_response 404 (ok_err ''not-found'')"

subsection \<open>Invocations\<close>

definition http_invoke :: "backend \<Rightarrow> string \<Rightarrow> request \<Rightarrow> app \<Rightarrow> app \<times> response" where
  "http_invoke b function_id rq = with_tenant b rq (\<lambda>org_id. with_utf8 rq (\<lambda>payload a.
     (let request = normalize_request_payload payload
      in (case invoke_for_org (child_host b) DEFAULT_NODEJS_HOST_COMMAND function_id org_id request
                 (cf_child_idle_ms (bk_config b)) (cf_child_timeout_ms (bk_config b)) (ap_runner a) of
            (rn, Inr out) \<Rightarrow> (a\<lparr>ap_runner := rn\<rparr>, json_response 200 (ok_field ''output'' out))
          | (rn, Inl err) \<Rightarrow>
              (count_invocation_failure (a\<lparr>ap_runner := rn\<rparr>),
               if str_contains err ''not found'' then json_response 404 (ok_err ''function not found'')
               else json_response 502 (ok_err ''function invocation failed''))))))"

definition reports_failure :: "string \<Rightarrow> bool" where
  \<open>reports_failure out \<longleftrightarrow> str_contains out ''"ok":false''\<close>

definition http_check :: "backend \<Rightarrow> request \<Rightarrow> app \<Rightarrow> app \<times> response" where
  "http_check b rq = with_auth b rq (with_utf8 rq (\<lambda>payload a.
     (case check_definition (child_host b) DEFAULT_NODEJS_HOST_COMMAND payload
             (cf_child_timeout_ms (bk_config b)) (ap_runner a) of
        (rn, Inr out) \<Rightarrow>
          (a\<lparr>ap_runner := rn\<rparr>, json_response (if reports_failure out then 422 else 200) out)
      | (rn, Inl err) \<Rightarrow> (a\<lparr>ap_runner := rn\<rparr>, json_response 502 (ok_err err)))))"

definition http_destroy :: "backend \<Rightarrow> string \<Rightarrow> request \<Rightarrow> app \<Rightarrow> app \<times> response" where
  "http_destroy b reuse_key rq = with_auth b rq (\<lambda>a.
     (case destroy reuse_key (ap_runner a) of
        (rn, Inr message) \<Rightarrow> (a\<lparr>ap_runner := rn\<rparr>, json_response 200 (ok_field ''message'' message))
      | (rn, Inl err) \<Rightarrow> (a\<lparr>ap_runner := rn\<rparr>, json_response 502 (ok_err err))))"

subsection \<open>Function definitions\<close>

text \<open>The derived \<open>Serialize\<close> of \<open>FunctionDefinitionRecord\<close>.\<close>

definition record_json :: "function_record \<Rightarrow> json" where
  "record_json r = JObj (obj_of
     [(''id'', JStr (fr_id r)), (''slug'', JStr (fr_slug r)),
      (''displayName'', JStr (fr_display_name r)), (''description'', JStr (fr_description r)),
      (''runtime'', JStr (fr_runtime r)), (''entryCommand'', JStr (fr_entry_command r)),
      (''functionBody'', JStr (fr_function_body r)), (''reuseKey'', j_opt JStr (fr_reuse_key r)),
      (''idleTimeoutSeconds'', j_nat (fr_idle_timeout_seconds r)), (''maxRunMs'', j_nat (fr_max_run_ms r)),
      (''containerized'', JBool (fr_containerized r)),
      (''containerImage'', j_opt JStr (fr_container_image r)),
      (''containerBuildStatus'', JStr (fr_container_build_status r)), (''status'', JStr (fr_status r)),
      (''labels'', JArr (map JStr (fr_labels r))), (''metaData'', JObj (fr_meta_data r)),
      (''createdAt'', j_opt JStr (fr_created_at r)), (''updatedAt'', j_opt JStr (fr_updated_at r))])"

definition function_response :: "backend \<Rightarrow> nat \<Rightarrow> function_record \<Rightarrow> response" where
  "function_response b status r = sensitive_json_response status
     (sj_print (bk_serde b) (JObj (obj_of [(''ok'', JBool True), (''function'', record_json r)])))"

definition parse_function_input :: "backend \<Rightarrow> request \<Rightarrow> response + function_input" where
  "parse_function_input b rq =
     (case cd_input (bk_codec b) (rq_body rq) of
        Inl _ \<Rightarrow> Inl (json_response 400 (ok_err ''invalid function definition JSON''))
      | Inr i \<Rightarrow> Inr i)"

definition function_list :: "backend \<Rightarrow> nat option \<Rightarrow> request \<Rightarrow> app \<Rightarrow> app \<times> response" where
  "function_list b limit rq = with_tenant b rq (\<lambda>org_id a.
     (case fc_list (bk_codec b) (h_psql (bk_host b)) (cf_database_url (bk_config b)) org_id limit of
        (sts, Inr fs) \<Rightarrow> (issued sts a, sensitive_json_response 200 (sj_print (bk_serde b) (JObj (obj_of
                        [(''ok'', JBool True), (''functions'', JArr (map record_json fs))]))))
      | (sts, Inl e) \<Rightarrow> (issued sts a, function_control_error e)))"

definition function_get :: "backend \<Rightarrow> string \<Rightarrow> request \<Rightarrow> app \<Rightarrow> app \<times> response" where
  "function_get b function_id rq = with_tenant b rq (\<lambda>org_id. with_id b function_id (\<lambda>i a.
     (case fc_get (bk_codec b) (h_psql (bk_host b)) (cf_database_url (bk_config b)) org_id i of
        (sts, Inr f) \<Rightarrow> (issued sts a, function_response b 200 f)
      | (sts, Inl e) \<Rightarrow> (issued sts a, function_control_error e))))"

definition function_create :: "backend \<Rightarrow> request \<Rightarrow> app \<Rightarrow> app \<times> response" where
  "function_create b rq = with_tenant b rq (\<lambda>org_id a.
     (case parse_function_input b rq of
        Inl r \<Rightarrow> (a, r)
      | Inr inp \<Rightarrow>
          (case fc_create (bk_serde b) (h_env (bk_host b)) (bk_codec b) (h_psql (bk_host b))
                  (cf_database_url (bk_config b)) (bk_new_id b) org_id inp of
             (sts, Inr f) \<Rightarrow>
               (count (\<lambda>m. m\<lparr>mt_function_definitions_created_total :=
                   mt_function_definitions_created_total m + 1\<rparr>) (issued sts a),
                function_response b 201 f)
           | (sts, Inl e) \<Rightarrow> (issued sts a, function_control_error e))))"

definition function_update :: "backend \<Rightarrow> string \<Rightarrow> request \<Rightarrow> app \<Rightarrow> app \<times> response" where
  "function_update b function_id rq = with_tenant b rq (\<lambda>org_id. with_id b function_id (\<lambda>i a.
     (case parse_function_input b rq of
        Inl r \<Rightarrow> (a, r)
      | Inr inp \<Rightarrow>
          (case fc_update (bk_serde b) (h_env (bk_host b)) (bk_codec b) (h_psql (bk_host b))
                  (cf_database_url (bk_config b)) org_id i inp of
             (sts, Inr f) \<Rightarrow>
               (count (\<lambda>m. m\<lparr>mt_function_definitions_updated_total :=
                   mt_function_definitions_updated_total m + 1\<rparr>) (issued sts a),
                function_response b 200 f)
           | (sts, Inl e) \<Rightarrow> (issued sts a, function_control_error e)))))"

definition function_delete :: "backend \<Rightarrow> string \<Rightarrow> request \<Rightarrow> app \<Rightarrow> app \<times> response" where
  "function_delete b function_id rq = with_tenant b rq (\<lambda>org_id. with_id b function_id (\<lambda>i a.
     (case fc_delete (h_psql (bk_host b)) (cf_database_url (bk_config b)) org_id i of
        (sts, Inr _) \<Rightarrow>
          (count (\<lambda>m. m\<lparr>mt_function_definitions_deleted_total :=
              mt_function_definitions_deleted_total m + 1\<rparr>) (issued sts a),
           sensitive_json_response 200 (sj_print (bk_serde b) (JObj (obj_of
             [(''ok'', JBool True), (''deleted'', JBool True)]))))
      | (sts, Inl e) \<Rightarrow> (issued sts a, function_control_error e))))"

definition function_pause :: "backend \<Rightarrow> string \<Rightarrow> request \<Rightarrow> app \<Rightarrow> app \<times> response" where
  "function_pause b function_id rq = with_tenant b rq (\<lambda>org_id. with_id b function_id (\<lambda>i a.
     (case fc_pause (bk_codec b) (h_psql (bk_host b)) (cf_database_url (bk_config b)) org_id i of
        (sts, Inr f) \<Rightarrow>
          (count (\<lambda>m. m\<lparr>mt_function_definitions_paused_total :=
              mt_function_definitions_paused_total m + 1\<rparr>) (issued sts a),
           function_response b 200 f)
      | (sts, Inl e) \<Rightarrow> (issued sts a, function_control_error e))))"

definition check_value :: "backend \<Rightarrow> string \<Rightarrow> json" where
  "check_value b out =
     (case sj_parse (bk_serde b) out of
        Inr v \<Rightarrow> v
      | Inl _ \<Rightarrow> JObj (obj_of [(''output'', JStr out)]))"

definition activate_response ::
    "backend \<Rightarrow> string \<Rightarrow> string \<Rightarrow> function_record \<Rightarrow> app \<Rightarrow> app \<times> response" where
  "activate_response b org_id out record a =
     (case activate_checked (bk_serde b) (bk_codec b) (h_psql (bk_host b))
             (cf_database_url (bk_config b)) org_id record of
        (sts, Inr f) \<Rightarrow> (issued sts a, sensitive_json_response 200 (sj_print (bk_serde b) (JObj (obj_of
            [(''ok'', JBool True), (''check'', check_value b out), (''function'', record_json f)]))))
      | (sts, Inl e) \<Rightarrow> (issued sts a, function_control_error e))"

definition function_check :: "backend \<Rightarrow> string \<Rightarrow> request \<Rightarrow> app \<Rightarrow> app \<times> response" where
  "function_check b function_id rq = with_tenant b rq (\<lambda>org_id. with_id b function_id (\<lambda>i a.
     (case fc_get (bk_codec b) (h_psql (bk_host b)) (cf_database_url (bk_config b)) org_id i of
        (sts, Inl e) \<Rightarrow> (issued sts a, function_control_error e)
      | (sts, Inr record) \<Rightarrow>
          (let a1 = count (\<lambda>m. m\<lparr>mt_function_definition_checks_total :=
                 mt_function_definition_checks_total m + 1\<rparr>) (issued sts a);
               def = sj_print (bk_serde b) (invocation_definition record)
           in (case check_definition (child_host b) DEFAULT_NODEJS_HOST_COMMAND def
                      (cf_child_timeout_ms (bk_config b)) (ap_runner a1) of
                 (rn, res) \<Rightarrow>
                   (let a2 = checked def res (a1\<lparr>ap_runner := rn\<rparr>)
                    in (case res of
                          Inr out \<Rightarrow>
                            (if reports_failure out then
                               (count_check_failure a2, sensitive_json_response 422 out)
                             else activate_response b org_id out record a2)
                        | Inl _ \<Rightarrow>
                            (count_check_failure a2,
                             json_response 502 (ok_err ''function check failed'')))))))))"

subsection \<open>Workflows\<close>

definition run_response :: "nat \<Rightarrow> string + string \<Rightarrow> response" where
  "run_response status r =
     (case r of Inr run \<Rightarrow> json_response status (ok_raw ''run'' run)
      | Inl err \<Rightarrow> workflow_error_response err)"

definition workflow_start :: "backend \<Rightarrow> request \<Rightarrow> app \<Rightarrow> app \<times> response" where
  "workflow_start b rq = with_auth b rq (with_utf8 rq (\<lambda>payload a.
     (case start_run_from_body (bk_world b) (bk_client b) (bk_coord b) (h_psql (bk_host b))
             (cf_database_url (bk_config b)) payload (ap_engine a) of
        (e, r) \<Rightarrow> (a\<lparr>ap_engine := e\<rparr>, run_response 201 r))))"

definition workflow_signal :: "backend \<Rightarrow> string \<Rightarrow> request \<Rightarrow> app \<Rightarrow> app \<times> response" where
  "workflow_signal b run_id rq = with_auth b rq (with_utf8 rq (\<lambda>payload a.
     (case signal_from_body (bk_world b) run_id payload (ap_engine a) of
        (e, r) \<Rightarrow> (a\<lparr>ap_engine := e\<rparr>, run_response 200 r))))"

definition workflow_cancel :: "backend \<Rightarrow> string \<Rightarrow> request \<Rightarrow> app \<Rightarrow> app \<times> response" where
  "workflow_cancel b run_id rq = with_auth b rq (\<lambda>a.
     (case engine_cancel_run (bk_world b) run_id (ap_engine a) of
        (e, r) \<Rightarrow> (a\<lparr>ap_engine := e\<rparr>, run_response 200 r)))"

definition workflow_get :: "backend \<Rightarrow> string \<Rightarrow> request \<Rightarrow> app \<Rightarrow> app \<times> response" where
  "workflow_get b run_id rq = with_auth b rq (\<lambda>a.
     (a, (case get_run_with_steps (bk_serde b) (e_store (ap_engine a)) run_id of
            Inr body \<Rightarrow> json_response 200 body
          | Inl err \<Rightarrow> workflow_error_response err)))"

definition workflow_list ::
    "backend \<Rightarrow> string option \<Rightarrow> int option \<Rightarrow> request \<Rightarrow> app \<Rightarrow> app \<times> response" where
  "workflow_list b def_ref limit rq = with_auth b rq (\<lambda>a.
     (a, (case list_runs (bk_serde b) (e_store (ap_engine a)) (unwrap_or [] def_ref)
                 (unwrap_or 100 limit) of
            Inr runs \<Rightarrow> json_response 200 (ok_raw ''runs'' runs)
          | Inl err \<Rightarrow> workflow_error_response err)))"

subsection \<open>Pages\<close>

definition ROUTES :: "(string \<times> string \<times> string) list" where
  "ROUTES =
     [(''GET'', ''/'', ''Home redirect.''),
      (''GET'', ''/home'', ''Service home page.''),
      (''GET'', ''/healthz'', ''Health check.''),
      (''GET'', ''/metrics'', ''Prometheus metrics.''),
      (''GET'', ''/docs/api'', ''Human-readable API docs.''),
      (''GET'', ''/api/docs'', ''Human-readable API docs.''),
      (''GET'', ''/api/docs.json'', ''Machine-readable route metadata.''),
      (''POST'', ''/invoke/:function_id'', ''Invoke a stored function by id or slug.''),
      (''POST'', ''/check'', ''Validate a function definition (check-only run).''),
      (''POST'', ''/destroy/:reuse_key'', ''Tear down a warm child worker.''),
      (''POST'', ''/workflows/start'', ''Start a workflow run.''),
      (''GET'', ''/workflows/runs'', ''List workflow runs.''),
      (''GET'', ''/workflows/runs/:run_id'', ''Get a run with its steps.''),
      (''POST'', ''/workflows/runs/:run_id/signal'', ''Deliver a signal to a run.''),
      (''POST'', ''/workflows/runs/:run_id/cancel'', ''Cancel a run.'')]"

definition route_row :: "string \<times> string \<times> string \<Rightarrow> string" where
  \<open>route_row r =
     (case r of (method, path, purpose) \<Rightarrow>
        ''<tr><td><code>'' @ method @ ''</code></td><td><code>'' @ path @ ''</code></td><td>'' @
        purpose @ ''</td></tr>'')\<close>

definition api_docs_html :: response where
  \<open>api_docs_html = html_response (concat
     [''<!doctype html><html lang="en"><head><meta charset="utf-8"><meta name="viewport" '',
      ''content="width=device-width, initial-scale=1"><title>fiducia-lambda-service API '',
      ''docs</title><style>body{font:14px/1.5 '',
      ''system-ui;margin:24px;color:#17202a}table{border-collapse:collapse;width:100%}th,td{'',
      ''padding:8px 10px;border-bottom:1px solid '',
      ''#d8dee6;text-align:left}code{background:#eef2f6;padding:2px '',
      ''5px;border-radius:5px}</style></head><body><h1>fiducia-lambda-service '',
      ''API</h1><table><thead><tr><th>Method</th><th>Path</th><th>Purpose</th></tr></thead><'',
      ''tbody>''] @
     concat (map route_row ROUTES) @ ''</tbody></table></body></html>'')\<close>

definition api_docs_json :: "serde \<Rightarrow> response" where
  "api_docs_json sj =
     \<lparr> rp_status = 200, rp_headers = [(''content-type'', ''application/json; charset=utf-8'')],
       rp_body = sj_print sj (JObj (obj_of
         [(''ok'', JBool True), (''service'', JStr ''fiducia-lambda-service''),
          (''language'', JStr ''rust''), (''routeCount'', j_nat (length ROUTES)),
          (''routes'', JArr (map (\<lambda>r. JObj (obj_of
             [(''method'', JStr (fst r)), (''path'', JStr (fst (snd r))),
              (''purpose'', JStr (snd (snd r)))])) ROUTES))])) \<rparr>"

definition HOME_HTML :: string where
  \<open>HOME_HTML = concat
     [''<!doctype html><html><head><meta charset="utf-8"/><title>fiducia lambda '',
      ''service</title><style>body{font-family:system-ui;margin:24px;line-height:1.45}code{b'',
      ''ackground:#f1f5f9;padding:2px '',
      ''5px;border-radius:4px}</style></head><body><h1>fiducia lambda '',
      ''service</h1><p>Health: <code>/healthz</code></p><p>Metrics: '',
      ''<code>/metrics</code></p><p>Invocation endpoint: <code>POST '',
      ''/invoke/:function_id</code>. The child runner loads the active function definition '',
      ''from Postgres and manages reusable child processes; workflows run on the durable '',
      ''engine.</p></body></html>'']\<close>

definition home_redirect :: response where
  "home_redirect = \<lparr> rp_status = 307, rp_headers = [(''location'', ''/home'')], rp_body = [] \<rparr>"

subsection \<open>Routing\<close>

datatype endpoint =
    RootRedirect | HomePage | Healthz | MetricsPage | ApiHtml | ApiJson
  | FunctionList | FunctionCreate | FunctionGet string | FunctionUpdate string
  | FunctionDelete string | FunctionCheck string | FunctionPause string
  | InvokeFunction string | CheckDefinition | DestroyWorker string
  | WorkflowStart | WorkflowList | WorkflowGet string | WorkflowSignal string | WorkflowCancel string

definition router_routes :: "(string \<times> string \<times> (string \<Rightarrow> endpoint)) list" where
  "router_routes =
     [(''GET'', ''/'', \<lambda>_. RootRedirect),
      (''GET'', ''/home'', \<lambda>_. HomePage),
      (''GET'', ''/healthz'', \<lambda>_. Healthz),
      (''GET'', ''/readyz'', \<lambda>_. Healthz),
      (''GET'', ''/metrics'', \<lambda>_. MetricsPage),
      (''GET'', ''/docs/api'', \<lambda>_. ApiHtml),
      (''GET'', ''/api/docs'', \<lambda>_. ApiHtml),
      (''GET'', ''/api/docs.json'', \<lambda>_. ApiJson),
      (''GET'', ''/v1/functions'', \<lambda>_. FunctionList),
      (''POST'', ''/v1/functions'', \<lambda>_. FunctionCreate),
      (''GET'', ''/v1/functions/{function_id}'', FunctionGet),
      (''PUT'', ''/v1/functions/{function_id}'', FunctionUpdate),
      (''DELETE'', ''/v1/functions/{function_id}'', FunctionDelete),
      (''POST'', ''/v1/functions/{function_id}/check'', FunctionCheck),
      (''POST'', ''/v1/functions/{function_id}/pause'', FunctionPause),
      (''POST'', ''/invoke/{function_id}'', InvokeFunction),
      (''POST'', ''/check'', \<lambda>_. CheckDefinition),
      (''POST'', ''/destroy/{reuse_key}'', DestroyWorker),
      (''POST'', ''/workflows/start'', \<lambda>_. WorkflowStart),
      (''GET'', ''/workflows/runs'', \<lambda>_. WorkflowList),
      (''GET'', ''/workflows/runs/{run_id}'', WorkflowGet),
      (''POST'', ''/workflows/runs/{run_id}/signal'', WorkflowSignal),
      (''POST'', ''/workflows/runs/{run_id}/cancel'', WorkflowCancel)]"

text \<open>
  A pattern against the decoded segments of a path: a segment in braces matches any non-empty
  text. The result is the parameter, empty when the pattern has none.
\<close>

definition is_param :: "string \<Rightarrow> bool" where
  "is_param p \<longleftrightarrow> (case p of [] \<Rightarrow> False | c # _ \<Rightarrow> c = CHR 0x7B)"

fun match_segments :: "string list \<Rightarrow> string list \<Rightarrow> string \<Rightarrow> string option" where
  "match_segments [] [] param = Some param"
| "match_segments (p # ps) (s # ss) param =
     (if is_param p then (if s = [] then None else match_segments ps ss s)
      else if p = s then match_segments ps ss param else None)"
| "match_segments _ _ _ = None"

definition match_path :: "string \<Rightarrow> string list \<Rightarrow> string option" where
  "match_path pat segments = match_segments (drop 1 (split_on (CHR ''/'') pat)) segments []"

datatype routed = Found endpoint | WrongMethod | NoRoute

text \<open>The handlers of GET serve_endpoint HEAD too.\<close>

definition method_matches :: "string \<Rightarrow> string \<Rightarrow> bool" where
  "method_matches allowed method \<longleftrightarrow> method = allowed \<or> allowed = ''GET'' \<and> method = ''HEAD''"

definition route :: "string \<Rightarrow> string list \<Rightarrow> routed" where
  "route method segments =
     (let hits = List.map_filter (\<lambda>(m, pat, h). map_option (\<lambda>param. (m, h param)) (match_path pat segments))
            router_routes
      in if hits = [] then NoRoute
         else (case find (\<lambda>(m, _). method_matches m method) hits of
                 Some (_, e) \<Rightarrow> Found e
               | None \<Rightarrow> WrongMethod))"

text \<open>The query strings of the two lists as the framework decodes them; \<open>None\<close> does not decode.\<close>

record url_query =
  uq_limit :: "nat option option"
  uq_runs :: "(string option \<times> int option) option"

definition takes_body :: "endpoint \<Rightarrow> bool" where
  "takes_body e \<longleftrightarrow>
     (case e of FunctionCreate \<Rightarrow> True | FunctionUpdate _ \<Rightarrow> True | InvokeFunction _ \<Rightarrow> True
      | CheckDefinition \<Rightarrow> True | WorkflowStart \<Rightarrow> True | WorkflowSignal _ \<Rightarrow> True | _ \<Rightarrow> False)"

definition serve_endpoint :: "backend \<Rightarrow> url_query \<Rightarrow> request \<Rightarrow> endpoint \<Rightarrow> app \<Rightarrow> app \<times> response" where
  "serve_endpoint b q rq e a =
     (if takes_body e \<and> cf_max_body_bytes (bk_config b) < length (rq_body rq) then (a, bk_reject b 413)
      else
        (case e of
           RootRedirect \<Rightarrow> (a, home_redirect)
         | HomePage \<Rightarrow> (a, html_response HOME_HTML)
         | Healthz \<Rightarrow> (a, healthz b)
         | MetricsPage \<Rightarrow> (a, metrics_text b a)
         | ApiHtml \<Rightarrow> (a, api_docs_html)
         | ApiJson \<Rightarrow> (a, api_docs_json (bk_serde b))
         | FunctionList \<Rightarrow>
             (case uq_limit q of Some limit \<Rightarrow> function_list b limit rq a | None \<Rightarrow> (a, bk_reject b 400))
         | FunctionCreate \<Rightarrow> function_create b rq a
         | FunctionGet i \<Rightarrow> function_get b i rq a
         | FunctionUpdate i \<Rightarrow> function_update b i rq a
         | FunctionDelete i \<Rightarrow> function_delete b i rq a
         | FunctionCheck i \<Rightarrow> function_check b i rq a
         | FunctionPause i \<Rightarrow> function_pause b i rq a
         | InvokeFunction i \<Rightarrow> http_invoke b i rq a
         | CheckDefinition \<Rightarrow> http_check b rq a
         | DestroyWorker k \<Rightarrow> http_destroy b k rq a
         | WorkflowStart \<Rightarrow> workflow_start b rq a
         | WorkflowList \<Rightarrow>
             (case uq_runs q of
                Some (def_ref, limit) \<Rightarrow> workflow_list b def_ref limit rq a
              | None \<Rightarrow> (a, bk_reject b 400))
         | WorkflowGet i \<Rightarrow> workflow_get b i rq a
         | WorkflowSignal i \<Rightarrow> workflow_signal b i rq a
         | WorkflowCancel i \<Rightarrow> workflow_cancel b i rq a))"

definition router ::
    "backend \<Rightarrow> string \<Rightarrow> string list \<Rightarrow> url_query \<Rightarrow> request \<Rightarrow> app \<Rightarrow> app \<times> response" where
  "router b method segments q rq a =
     (case route method segments of
        Found e \<Rightarrow>
          (case serve_endpoint b q rq e a of
             (a', r) \<Rightarrow> (a', if method = ''HEAD'' then r\<lparr>rp_body := []\<rparr> else r))
      | WrongMethod \<Rightarrow> (a, bk_reject b 405)
      | NoRoute \<Rightarrow> (a, not_found))"

subsection \<open>Start-up and shutdown\<close>

text \<open>
  \<open>run\<close> of \<open>src/main.rs\<close>: configuration, coordinator, listener, registration, and only then the
  components and the first request. The engine is empty: the store is in memory.
\<close>

definition startup ::
    "string \<Rightarrow> environ \<Rightarrow> string \<Rightarrow> (ip_addr \<Rightarrow> nat \<Rightarrow> string + unit) \<Rightarrow> (config \<Rightarrow> client) \<Rightarrow> (config_error \<Rightarrow> string) \<Rightarrow>
     string + (config \<times> coordinator \<times> app)" where
  "startup events_subject env instance_id bind connect describe =
     (case from_env events_subject env of
        Inl e \<Rightarrow> Inl (describe e)
      | Inr cfg \<Rightarrow>
          (case coordinator_new (cf_fiducia_base_url cfg) (cf_fiducia_node_internal_secret cfg)
                  (cf_fiducia_node_org_id cfg) (cf_fiducia_service_address cfg) instance_id
                  (cf_allow_local_coordination cfg) of
             Inl e \<Rightarrow> Inl e
           | Inr c \<Rightarrow>
               (case bind (cf_host cfg) (cf_port cfg) of
                  Inl e \<Rightarrow> Inl e
                | Inr _ \<Rightarrow>
                    (case register_service (connect cfg) c of
                       (_, Inl e) \<Rightarrow> Inl e
                     | (c', Inr _) \<Rightarrow>
                         Inr (cfg, c', \<lparr> ap_runner = runner_new zero_metrics, ap_engine = fresh_engine, ap_log = [] \<rparr>)))))"

text \<open>
  The end of \<open>run\<close>, after the server has stopped: the registration supervisor, spawned only with
  a node, is told to stop and awaited; then the instance is deregistered, a failure of which is
  only logged; the exit status is the server's. The state is kept in a \<open>supervisor\<close>. \<open>pending\<close>
  is what the supervisor still meets before it sees the flag, \<open>late\<close> what would reach it after the
  deregistration.
\<close>

definition serving :: "coordinator \<Rightarrow> supervisor" where
  "serving c = supervisor_start False c"

definition shutdown ::
    "client \<Rightarrow> string + unit \<Rightarrow> sup_event list \<Rightarrow> sup_event list \<Rightarrow> supervisor \<Rightarrow>
     supervisor \<times> (string + unit)" where
  "shutdown cl serve_result pending late s =
     (let s1 = (if enabled (s_coord s) then supervise s (pending @ [ShutdownValue True]) else s);
          (c', _) = deregister_service cl (s_coord s1)
      in (supervise (s1\<lparr>s_coord := c'\<rparr>) late, serve_result))"

end
