(* ===== verification/Http_Props.thy ===== *)
theory Http_Props
  imports Http Function_Props Child_Props Engine_Props Coord_Props
begin

section \<open>Properties of the HTTP surface\<close>

text \<open>
  The claims on \<open>src/http.rs\<close>, \<open>src/util.rs\<close>, \<open>src/api_docs.rs\<close> and \<open>src/main.rs\<close>: who is let
  in, what a tenant's request can read, what an error discloses, what is listed and served.
\<close>

subsection \<open>Authentication\<close>

lemma u8_inject: "u8 x = u8 y \<longleftrightarrow> x = y"
proof -
  have byte: "byte c < 256" for c by (simp add: byte_def)
  then have "unat (u8 c) = byte c" for c by (simp add: u8_def unat_of_nat)
  then show ?thesis by (metis byte_def of_char_eq_iff)
qed

lemma xor_zero: "xor (x :: 8 word) y = 0 \<longleftrightarrow> x = y"
  by (auto simp: bit_eq_iff bit_simps)

lemma diff_loop_zero:
  "length a = length b \<Longrightarrow> diff_loop diff a b = 0 \<longleftrightarrow> diff = 0 \<and> a = b"
proof (induction diff a b rule: diff_loop.induct)
  case (1 diff x a y b)
  then show ?case by (auto simp: or_eq_0_iff xor_zero u8_inject)
qed auto

lemma constant_time_eq_iff: "constant_time_eq a b \<longleftrightarrow> a = b"
  using diff_loop_zero [of a b 0] by (auto simp: constant_time_eq_def)

text \<open>
  Who is let in. A request is authorized exactly when a secret is configured and one of the
  three authentication headers is visible ASCII and equal to it, byte by byte. Without a secret
  nobody is: the answer is 503; with one it is 401.
\<close>

theorem authorization_exact:
  "(authorization_error cfg rq = None \<longleftrightarrow>
      (\<exists>secret. cf_server_auth_secret cfg = Some secret \<and> list_all header_char secret \<and>
        Some secret \<in> rq_headers rq ` {''x-server-auth'', ''x-lambda-runner-auth'', ''x-agent-auth''})) \<and>
   (case authorization_error cfg rq of
      None \<Rightarrow> True
    | Some r \<Rightarrow> rp_status r = (if cf_server_auth_secret cfg = None then 503 else 401))"
  by (auto simp: authorization_error_def AUTH_HEADERS_def header_str_def constant_time_eq_iff
      List.map_filter_def json_response_def image_def list_ex_iff
      split: option.splits if_splits)

definition open_endpoint :: "endpoint \<Rightarrow> bool" where
  "open_endpoint e \<longleftrightarrow> e \<in> {RootRedirect, HomePage, Healthz, MetricsPage, ApiHtml, ApiJson}"

definition tenant_endpoint :: "endpoint \<Rightarrow> bool" where
  "tenant_endpoint e \<longleftrightarrow>
     (case e of FunctionList \<Rightarrow> True | FunctionCreate \<Rightarrow> True | FunctionGet _ \<Rightarrow> True
      | FunctionUpdate _ \<Rightarrow> True | FunctionDelete _ \<Rightarrow> True | FunctionCheck _ \<Rightarrow> True
      | FunctionPause _ \<Rightarrow> True | InvokeFunction _ \<Rightarrow> True | _ \<Rightarrow> False)"

lemmas handler_defs = function_list_def function_create_def function_get_def function_update_def
  function_delete_def function_check_def function_pause_def http_invoke_def http_check_def
  http_destroy_def workflow_start_def workflow_list_def workflow_get_def workflow_signal_def
  workflow_cancel_def

lemma with_tenant_rejects:
  "authorization_error (bk_config b) rq = Some r \<Longrightarrow> with_tenant b rq k a = (count_rejection a, r)"
  by (simp add: with_tenant_def)

lemma with_auth_rejects:
  "authorization_error (bk_config b) rq = Some r \<Longrightarrow> with_auth b rq k a = (a, r)"
  by (simp add: with_auth_def)

lemma serve_rejects:
  assumes "authorization_error (bk_config b) rq = Some r" "\<not> open_endpoint e"
  shows "fst (serve_endpoint b q rq e a) \<in> {a, count_rejection a} \<and>
    snd (serve_endpoint b q rq e a) \<in> {r, bk_reject b 413, bk_reject b 400}"
  using assms(2)
  by (cases e) (auto simp: serve_endpoint_def open_endpoint_def handler_defs with_tenant_rejects [OF assms(1)]
      with_auth_rejects [OF assms(1)] split: option.splits)

lemma serve_open: "open_endpoint e \<Longrightarrow> fst (serve_endpoint b q rq e a) = a"
  by (auto simp: serve_endpoint_def open_endpoint_def takes_body_def)

text \<open>
  C13: Without the secret nothing happens. Whatever the method, path, query and body, a request
  that is not authorized leaves the runner's workers, the engine and every stored run as they
  are (the rejection counter apart), and unless it is for one of the public pages it gets the
  401 or 503 of the authentication or a rejection of the framework itself.
\<close>

theorem unauthorized_changes_nothing:
  assumes "authorization_error (bk_config b) rq = Some r"
  shows "fst (router b method segments q rq a) \<in> {a, count_rejection a} \<and>
    (case route method segments of
       Found e \<Rightarrow> open_endpoint e \<or>
         rp_status (snd (router b method segments q rq a)) \<in>
           {rp_status r, rp_status (bk_reject b 413), rp_status (bk_reject b 400)}
     | WrongMethod \<Rightarrow> snd (router b method segments q rq a) = bk_reject b 405
     | NoRoute \<Rightarrow> snd (router b method segments q rq a) = not_found)"
proof (cases "route method segments")
  case (Found e)
  obtain a' rp where s: "serve_endpoint b q rq e a = (a', rp)" by fastforce
  show ?thesis
  proof (cases "open_endpoint e")
    case True
    then show ?thesis using serve_open [OF True, of b q rq a] Found s by (simp add: router_def)
  next
    case False
    then show ?thesis
      using serve_rejects [OF assms False, of q a] Found s by (auto simp: router_def)
  qed
qed (simp_all add: router_def)

definition bare_config :: config where
  "bare_config =
     \<lparr> cf_host = V4 [0, 0, 0, 0], cf_port = 8083, cf_max_body_bytes = 16,
       cf_database_url = Some ''db'', cf_server_auth_secret = Some ''s'', cf_nats_url = None,
       cf_workflow_event_subject = ''e'', cf_fiducia_base_url = None,
       cf_fiducia_node_internal_secret = None, cf_fiducia_node_org_id = ''o'',
       cf_fiducia_service_address = None, cf_allow_local_coordination = True,
       cf_child_idle_ms = 1000, cf_child_timeout_ms = 1000 \<rparr>"

definition bare_backend :: backend where
  "bare_backend =
     \<lparr> bk_config = bare_config, bk_host = sample_host, bk_world = plain_world, bk_client = down_client,
       bk_coord = sample_coordinator, bk_codec = plain_codec, bk_new_id = ''7'',
       bk_reject = (\<lambda>status. \<lparr> rp_status = status, rp_headers = [], rp_body = [] \<rparr>) \<rparr>"

definition bare_app :: app where
  "bare_app = \<lparr> ap_runner = runner_new zero_metrics, ap_engine = idle_engine, ap_log = [] \<rparr>"

text \<open>A request of the organization \<open>o\<close> with the secret or without.\<close>

definition bare_request :: "bool \<Rightarrow> request" where
  "bare_request auth =
     \<lparr> rq_headers = (\<lambda>h. if h = ''x-fiducia-org-id'' then Some ''o''
         else if h = ''x-agent-auth'' \<and> auth then Some ''s'' else None), rq_body = [] \<rparr>"

lemma bare_authorized: "authorization_error bare_config (bare_request True) = None"
  using authorization_exact [of bare_config "bare_request True"]
  by (auto simp: bare_config_def bare_request_def header_char_def byte_def image_def)

lemma unauthorized_changes_nothing_witness:
  "fst (router bare_backend ''POST'' [''workflows'', ''runs'', ''r1'', ''cancel''] \<lparr> uq_limit = None, uq_runs = None \<rparr>
     (bare_request False) bare_app) \<in> {bare_app, count_rejection bare_app}"
proof -
  have "authorization_error (bk_config bare_backend) (bare_request False) =
      Some (json_response 401 (ok_err ''unauthorized''))"
    using authorization_exact [of bare_config "bare_request False"]
    by (simp add: bare_backend_def authorization_error_def bare_config_def bare_request_def
        AUTH_HEADERS_def header_str_def List.map_filter_def)
  from unauthorized_changes_nothing [OF this] show ?thesis by blast
qed

subsection \<open>Tenants\<close>

text \<open>The condition on the organization, and the statements that carry it (or insert for it).\<close>

definition org_clause :: "string \<Rightarrow> string" where
  "org_clause org_id = ''meta_data->>'' @ sql_lit ''fiduciaOrgId'' @ '' = '' @ sql_text org_id"

definition in_scope :: "string \<Rightarrow> string \<Rightarrow> bool" where
  "in_scope org_id sql \<longleftrightarrow> sublist (org_clause org_id) sql \<or> (\<exists>sj i c. sql = create_sql sj org_id i c)"

lemma in_scope_concat: "in_scope org_id (concat (a @ tenant_scope org_id @ b))"
proof -
  have "concat (a @ tenant_scope org_id @ b) =
      (concat a @ ''is_soft_deleted = false and '') @ org_clause org_id @ concat b"
    by (simp add: tenant_scope_def org_clause_def ORG_META_KEY_def)
  then show ?thesis unfolding in_scope_def by (metis sublist_appendI)
qed

lemma create_in_scope: "in_scope org_id (create_sql sj org_id i c)"
  unfolding in_scope_def by blast

lemma statements_in_scope:
  "in_scope org_id (list_sql org_id n)" "in_scope org_id (get_sql org_id i)"
  "in_scope org_id (create_sql sj org_id i c)" "in_scope org_id (update_sql sj org_id i c)"
  "in_scope org_id (delete_sql org_id i)" "in_scope org_id (pause_sql org_id i)"
  "in_scope org_id (activate_sql sj org_id r)"
  unfolding list_sql_def get_sql_def update_sql_def delete_sql_def pause_sql_def activate_sql_def
  by (rule create_in_scope in_scope_concat)+

lemma definition_in_scope:
  assumes "lambda_definition_sql kind i (Some org_id) = Some sql"
  shows "in_scope org_id sql"
proof -
  have "\<exists>pre post. sql = pre @ org_clause org_id @ post"
  proof (cases kind)
    case Uuid
    with assms show ?thesis
      by (intro exI [of _ "''select jsonb_build_object('' @ projection @
            '')::text from lambda_functions as lambda_function_row where '' @ ''id = '' @ sql_lit i @
            '' and is_soft_deleted = false and ''"] exI [of _ "'' and status = '' @ sql_lit ''active'' @ '' limit 1''"])
        (auto simp: lambda_definition_sql_def org_clause_def Let_def)
  next
    case Slug
    with assms show ?thesis
      by (intro exI [of _ "''select jsonb_build_object('' @ projection @
            '')::text from lambda_functions as lambda_function_row where '' @ ''slug = '' @ sql_lit i @
            '' and is_soft_deleted = false and ''"] exI [of _ "'' and status = '' @ sql_lit ''active'' @ '' limit 1''"])
        (auto simp: lambda_definition_sql_def org_clause_def Let_def)
  qed (use assms in \<open>simp add: lambda_definition_sql_def Let_def\<close>)
  then show ?thesis unfolding in_scope_def by (metis sublist_appendI)
qed

definition agree :: "string \<Rightarrow> psql \<Rightarrow> psql \<Rightarrow> bool" where
  "agree org_id ps ps' \<longleftrightarrow> (\<forall>url sql. in_scope org_id sql \<longrightarrow> ps url sql = ps' url sql)"

lemma run_psql_agree:
  "agree org_id ps ps' \<Longrightarrow> in_scope org_id sql \<Longrightarrow> run_psql ps url sql n = run_psql ps' url sql n"
  by (simp add: agree_def run_psql_def)

lemma query_agree:
  "agree org_id ps ps' \<Longrightarrow> in_scope org_id sql \<Longrightarrow> query ps url sql n = query ps' url sql n"
  by (simp add: query_def run_psql_agree split: option.splits)

lemma fc_agree:
  assumes "agree org_id ps ps'"
  shows "fc_list cd ps url org_id n = fc_list cd ps' url org_id n"
    "fc_get cd ps url org_id i = fc_get cd ps' url org_id i"
    "fc_create sj env cd ps url new_id org_id inp = fc_create sj env cd ps' url new_id org_id inp"
    "fc_update sj env cd ps url org_id i inp = fc_update sj env cd ps' url org_id i inp"
    "fc_delete ps url org_id i = fc_delete ps' url org_id i"
    "fc_pause cd ps url org_id i = fc_pause cd ps' url org_id i"
    "activate_checked sj cd ps url org_id r = activate_checked sj cd ps' url org_id r"
  unfolding fc_list_def fc_get_def fc_create_def fc_update_def fc_delete_def fc_pause_def
    activate_checked_def parse_record_def Let_def
  by (simp_all only: query_agree [OF assms statements_in_scope(1)]
      query_agree [OF assms statements_in_scope(2)] query_agree [OF assms statements_in_scope(3)]
      query_agree [OF assms statements_in_scope(4)] query_agree [OF assms statements_in_scope(5)]
      query_agree [OF assms statements_in_scope(6)] query_agree [OF assms statements_in_scope(7)])

lemma load_agree:
  assumes "agree org_id ps ps'"
  shows "load_function_definition_for_org ps url i org_id = load_function_definition_for_org ps' url i org_id"
  using run_psql_agree [OF assms definition_in_scope]
  by (auto simp: load_function_definition_for_org_def load_function_definition_inner_def split: option.splits)

lemma host_psql:
  fixes h :: host and ps :: psql
  shows "h_env (h\<lparr>h_psql := ps\<rparr>) = h_env h" "h_reap_now (h\<lparr>h_psql := ps\<rparr>) = h_reap_now h"
    "h_ensure_now (h\<lparr>h_psql := ps\<rparr>) = h_ensure_now h" "h_done_now (h\<lparr>h_psql := ps\<rparr>) = h_done_now h"
    "h_spawn (h\<lparr>h_psql := ps\<rparr>) = h_spawn h" "h_send_ok (h\<lparr>h_psql := ps\<rparr>) = h_send_ok h"
    "h_reply (h\<lparr>h_psql := ps\<rparr>) = h_reply h" "h_pool (h\<lparr>h_psql := ps\<rparr>) = h_pool h"
    "h_database_url (h\<lparr>h_psql := ps\<rparr>) = h_database_url h"
  by simp_all

lemma worker_host:
  fixes h :: host
  shows "invoke_worker (h\<lparr>h_psql := ps\<rparr>) = invoke_worker h"
    "invoke_loaded_definition_local (h\<lparr>h_psql := ps\<rparr>) = invoke_loaded_definition_local h"
proof -
  show "invoke_worker (h\<lparr>h_psql := ps\<rparr>) = invoke_worker h"
    by (intro ext) (unfold invoke_worker_def ensure_worker_def host_psql, rule refl)
  then show "invoke_loaded_definition_local (h\<lparr>h_psql := ps\<rparr>) = invoke_loaded_definition_local h"
    by (intro ext) (unfold invoke_loaded_definition_local_def host_psql, simp only:)
qed

lemma loaded_host:
  fixes h :: host
  shows "invoke_loaded_definition (h\<lparr>h_psql := ps\<rparr>) = invoke_loaded_definition h"
    "check_definition (h\<lparr>h_psql := ps\<rparr>) = check_definition h"
  by (unfold invoke_loaded_definition_def dispatch_via_pool_def check_definition_def
      host_psql worker_host) (rule refl)+

definition with_psql :: "psql \<Rightarrow> backend \<Rightarrow> backend" where
  "with_psql ps b = b\<lparr>bk_host := (bk_host b)\<lparr>h_psql := ps\<rparr>\<rparr>"

lemma child_host_psql: "child_host (with_psql ps b) = (child_host b)\<lparr>h_psql := ps\<rparr>"
  by (simp add: child_host_def with_psql_def)

lemma invoke_agree:
  assumes "agree org_id ps ps'"
  shows "invoke_for_org (h\<lparr>h_psql := ps\<rparr>) fb i org_id p idle tm rn =
    invoke_for_org (h\<lparr>h_psql := ps'\<rparr>) fb i org_id p idle tm rn"
  unfolding invoke_for_org_def host_psql loaded_host
  by (simp add: load_agree [OF assms])


lemma backend_psql:
  "bk_config (with_psql ps b) = bk_config b" "bk_codec (with_psql ps b) = bk_codec b"
  "bk_serde (with_psql ps b) = bk_serde b" "bk_new_id (with_psql ps b) = bk_new_id b"
  "h_env (bk_host (with_psql ps b)) = h_env (bk_host b)" "h_psql (bk_host (with_psql ps b)) = ps"
  "bk_reject (with_psql ps b) = bk_reject b"
  by (simp_all add: with_psql_def bk_serde_def)

lemma helpers_psql:
  "with_tenant (with_psql ps b) = with_tenant b" "with_id (with_psql ps b) = with_id b"
  "parse_function_input (with_psql ps b) = parse_function_input b"
  "function_response (with_psql ps b) = function_response b" "check_value (with_psql ps b) = check_value b"
  by (unfold with_tenant_def with_id_def parse_function_input_def function_response_def
      check_value_def backend_psql) (rule refl)+

lemma with_tenant_cong:
  "(\<And>org_id. organization_id rq = Inr org_id \<Longrightarrow> k org_id a = k' org_id a) \<Longrightarrow>
    with_tenant b rq k a = with_tenant b rq k' a"
  by (simp add: with_tenant_def split: option.splits sum.splits)

text \<open>
  C12: A tenant's request depends on the tenant's rows only. For every endpoint of the function
  API and for invocations: let two databases answer alike every statement that carries the
  condition on the caller's organization (or inserts for it), and differ in everything else;
  then the response and the new state are the same.
\<close>

theorem tenant_noninterference:
  assumes "tenant_endpoint e" "organization_id rq = Inr org_id" "agree org_id ps ps'"
  shows "serve_endpoint (with_psql ps b) q rq e a = serve_endpoint (with_psql ps' b) q rq e a"
proof -
  have org: "org = org_id" if "organization_id rq = Inr org" for org using that assms(2) by simp
  note same = fc_agree [OF assms(3)] invoke_agree [OF assms(3)]
  note unfolds = backend_psql helpers_psql child_host_psql loaded_host
  have "function_list (with_psql ps b) n rq a = function_list (with_psql ps' b) n rq a"
    "function_create (with_psql ps b) rq a = function_create (with_psql ps' b) rq a"
    "function_get (with_psql ps b) i rq a = function_get (with_psql ps' b) i rq a"
    "function_update (with_psql ps b) i rq a = function_update (with_psql ps' b) i rq a"
    "function_delete (with_psql ps b) i rq a = function_delete (with_psql ps' b) i rq a"
    "function_pause (with_psql ps b) i rq a = function_pause (with_psql ps' b) i rq a"
    "function_check (with_psql ps b) i rq a = function_check (with_psql ps' b) i rq a"
    "http_invoke (with_psql ps b) i rq a = http_invoke (with_psql ps' b) i rq a" for n i
    unfolding handler_defs activate_response_def unfolds
    by (rule with_tenant_cong, drule org, simp only: same)+
  with assms(1) show ?thesis
    by (cases e) (simp_all add: tenant_endpoint_def serve_endpoint_def takes_body_def backend_psql split: option.splits)
qed

lemma bare_org: "organization_id (bare_request auth) = Inr ''o''"
proof -
  have "valid_org_id ''o''" by code_simp
  moreover have "trim ''o'' = ''o''" by (simp add: visible_trim edge_char_def byte_def)
  ultimately show ?thesis
    by (simp add: organization_id_def bare_request_def header_str_def ORG_HEADER_def trimmed_def
        header_char_def byte_def)
qed

text \<open>A database with rows of others, against one that only ever times out.\<close>

definition shared_psql :: psql where
  "shared_psql = (\<lambda>_ sql. if in_scope ''o'' sql then QueryTimedOut else Exited (Some 0) ''row'' [])"

lemma tenant_noninterference_witness:
  "serve_endpoint (with_psql shared_psql bare_backend) \<lparr> uq_limit = None, uq_runs = None \<rparr>
     (bare_request True) (FunctionDelete ''7'') bare_app =
   serve_endpoint (with_psql (\<lambda>_ _. QueryTimedOut) bare_backend) \<lparr> uq_limit = None, uq_runs = None \<rparr>
     (bare_request True) (FunctionDelete ''7'') bare_app"
  by (rule tenant_noninterference [OF _ bare_org])
    (simp_all add: tenant_endpoint_def agree_def shared_psql_def)

end
