(* ===== verification/Http_Claims.thy ===== *)
theory Http_Claims
  imports Http_Props
begin

section \<open>What the service answers\<close>

text \<open>
  Further claims on \<open>src/http.rs\<close>, \<open>src/api_docs.rs\<close> and \<open>src/main.rs\<close>: when a definition is
  activated, when an answer is JSON, which routes are documented, when a process serves at all.
\<close>

subsection \<open>Activation\<close>







lemma log_count [simp]:
  "ap_log (count f a) = ap_log a" "ap_log (count_check_failure a) = ap_log a"
  "ap_log (issued sts a) = ap_log a @ map Statement sts" "ap_log (checked def res a) = ap_log a @ [Checked def res]"
  by (simp_all add: count_def count_check_failure_def issued_def checked_def)





subsection \<open>A sample check\<close>






subsection \<open>Answers\<close>

text \<open>A JSON string after its opening quote, as RFC 8259 has it, without the numeric escapes.\<close>

definition unescape_char :: "char \<Rightarrow> char option" where
  "unescape_char d = map_of [(CHR 0x22, CHR 0x22), (CHR 0x5C, CHR 0x5C), (CHR ''/'', CHR ''/''),
     (CHR ''b'', CHR 0x08), (CHR ''f'', CHR 0x0C), (CHR ''n'', CHR 0x0A), (CHR ''r'', CHR 0x0D),
     (CHR ''t'', CHR 0x09)] d"

fun json_string :: "string \<Rightarrow> (string \<times> string) option" where
  "json_string [] = None"
| "json_string (c # s) =
     (if c = CHR 0x22 then Some ([], s)
      else if c = CHR 0x5C then
        (case s of [] \<Rightarrow> None
         | d # r \<Rightarrow> (case unescape_char d of None \<Rightarrow> None
                    | Some x \<Rightarrow> map_option (\<lambda>(v, t). (x # v, t)) (json_string r)))
      else if byte c < 32 then None
      else map_option (\<lambda>(v, t). (c # v, t)) (json_string s))"

definition escapable :: "char \<Rightarrow> bool" where
  "escapable c \<longleftrightarrow> 32 \<le> byte c \<or> c = CHR 0x09 \<or> c = CHR 0x0A \<or> c = CHR 0x0D"

lemma json_string_escape:
  "json_string (json_escape s @ CHR 0x22 # rest) = (if list_all escapable s then Some (s, rest) else None)"
proof (induction s)
  case Nil
  then show ?case by (simp add: json_escape_char)
next
  case (Cons c s)
  let ?t = "json_escape s @ CHR 0x22 # rest"
  have split: "json_escape (c # s) @ CHR 0x22 # rest = json_escape [c] @ ?t"
    by (subst json_escape_Cons) simp
  consider "c = CHR 0x5C" | "c = CHR 0x22" | "c = CHR 0x0A" | "c = CHR 0x0D" | "c = CHR 0x09"
    | "c \<notin> {CHR 0x5C, CHR 0x22, CHR 0x0A, CHR 0x0D, CHR 0x09}" by blast
  then show ?case
  proof cases
    case 6
    then have "json_escape [c] = [c]" "escapable c \<longleftrightarrow> 32 \<le> byte c"
      by (simp_all add: json_escape_char escapable_def)
    with 6 show ?thesis unfolding split using Cons.IH by simp
  qed (unfold split, use Cons.IH in \<open>simp_all add: json_escape_char [of "[_]"] unescape_char_def escapable_def byte_def\<close>)
qed

text \<open>
  When an answer is JSON. The body of a successful invocation holds the output as a JSON
  string, which reads back as exactly the output, if and only if the output has no control
  character besides tab, line feed and carriage return; with any other one the body is not JSON.
\<close>

theorem output_envelope:
  \<open>\<exists>body. ok_field ''output'' out = ''{"ok":true,"output":"'' @ body \<and>
     json_string body = (if list_all escapable out then Some (out, ''}'') else None)\<close>
  by (intro exI [of _ "json_escape out @ CHR 0x22 # ''}''"])
    (simp add: ok_field_def json_string_escape)

subsection \<open>Documented routes\<close>

text \<open>A pattern of the router in the notation of the documentation, \<open>:name\<close> for \<open>{name}\<close>.\<close>

definition doc_path :: "string \<Rightarrow> string" where
  "doc_path pat = concat (map (\<lambda>c. if c = CHR 0x7B then '':'' else if c = CHR 0x7D then [] else [c]) pat)"

definition served_routes :: "(string \<times> string) list" where
  "served_routes = map (\<lambda>(m, pat, _). (m, doc_path pat)) router_routes"

definition documented_routes :: "(string \<times> string) list" where
  "documented_routes = map (\<lambda>(m, path, _). (m, path)) ROUTES"

text \<open>
  The documentation is sound and not complete. Every documented route is served, in the
  order of the router; of the served ones the readiness probe and the whole function API are
  not listed.
\<close>

theorem documented_routes_served:
  "filter (\<lambda>r. r \<in> set documented_routes) served_routes = documented_routes \<and>
   filter (\<lambda>r. r \<notin> set documented_routes) served_routes =
     [(''GET'', ''/readyz''), (''GET'', ''/v1/functions''), (''POST'', ''/v1/functions''),
      (''GET'', ''/v1/functions/:function_id''), (''PUT'', ''/v1/functions/:function_id''),
      (''DELETE'', ''/v1/functions/:function_id''), (''POST'', ''/v1/functions/:function_id/check''),
      (''POST'', ''/v1/functions/:function_id/pause'')]"
  by code_simp

subsection \<open>Start-up\<close>


subsection \<open>Shutdown\<close>

lemma supervise_append: "supervise s (xs @ ys) = supervise (supervise s xs) ys"
  by (simp add: supervise_def)

lemma supervise_returned: "s_returned s \<Longrightarrow> supervise s evs = s"
  by (induction evs) (simp_all add: supervise_def)

text \<open>What the supervisor may send, and that it says nothing in another name.\<close>

definition own_calls :: "coordinator \<Rightarrow> node_call set" where
  "own_calls c = {SentHeartbeat (c_instance_id c), SentRegister (c_instance_id c) (c_service_address c)}"

definition continues :: "coordinator \<Rightarrow> coordinator \<Rightarrow> bool" where
  "continues c c' \<longleftrightarrow> enabled c' = enabled c \<and> c_instance_id c' = c_instance_id c \<and>
     c_service_address c' = c_service_address c \<and>
     (\<exists>calls. c_sent c' = c_sent c @ calls \<and> set calls \<subseteq> own_calls c)"

lemma continues_refl: "continues c c"
  by (simp add: continues_def)

lemma continues_trans: "continues a b \<Longrightarrow> continues b c \<Longrightarrow> continues a c"
  unfolding continues_def own_calls_def by auto

lemma supervisor_step_continues: "continues (s_coord s) (s_coord (supervisor_step s ev))"
  by (cases ev) (auto simp: supervisor_tick_def Let_def case_prod_beta continues_def own_calls_def enabled_def sends_def
      split: sum.splits)

lemma supervise_continues: "continues (s_coord s) (s_coord (supervise s evs))"
  unfolding supervise_def
proof (induction evs arbitrary: s)
  case (Cons ev evs)
  show ?case unfolding foldl_Cons
    using continues_trans [OF supervisor_step_continues Cons.IH] .
qed (simp add: continues_refl)

lemma supervise_local: "\<not> enabled c \<Longrightarrow> supervise (serving c) evs = serving c"
  by (rule supervise_returned) (simp add: serving_def supervisor_start_def)

lemma supervise_stops:
  "s_returned (supervise s (evs @ [ShutdownValue True]))"
  "s_coord (supervise s (evs @ [ShutdownValue True])) = s_coord (supervise s evs)"
  by (simp_all add: supervise_append) (simp_all add: supervise_def)

text \<open>
  C31: An orderly end. However long the service ran, whatever its supervisor still meets before it
  sees the flag, and whatever would reach it afterwards: shutting down sends the node the
  deregistration of this process's own instance, once and as the very last call about its
  registration; every call between start-up and that one is a heartbeat or a registration of the
  same instance. If the deregistration succeeded the process no longer reports itself registered.
  The exit status is the server's. Without a node nothing is sent or changed.
\<close>

theorem orderly_shutdown:
  "case shutdown cl serve_result pending late (supervise (serving c) evs) of (s', result) \<Rightarrow>
     result = serve_result \<and> s_returned s' \<and>
     (if enabled c then
        (let before = s_coord (supervise (serving c) (evs @ pending)) in
           (\<exists>calls. c_sent (s_coord s') = c_sent c @ calls @ [SentDeregister (c_instance_id c)] \<and>
              set calls \<subseteq> {SentHeartbeat (c_instance_id c), SentRegister (c_instance_id c) (c_service_address c)}) \<and>
           c_healthy (s_coord s') = (c_healthy before \<and> isl (snd (deregister_service cl before))))
      else s' = serving c)"
proof (cases "enabled c")
  case False
  then show ?thesis
    using supervise_local [OF False]
    by (simp add: shutdown_def deregister_service_def serving_def supervisor_start_def supervise_returned)
next
  case True
  let ?s = "supervise (serving c) (evs @ pending)"
  have start: "s_coord (serving c) = c" by (simp add: serving_def supervisor_start_def)
  have before: "continues c (s_coord ?s)" using supervise_continues [of "serving c"] unfolding start .
  then have on: "enabled (s_coord ?s)" "c_instance_id (s_coord ?s) = c_instance_id c"
    using True by (simp_all add: continues_def)
  have on': "enabled (s_coord (supervise (serving c) evs))"
    using supervise_continues [of "serving c" evs] True unfolding start by (simp add: continues_def)
  let ?c = "fst (deregister_service cl (s_coord ?s))"
  have dereg: "c_sent ?c = c_sent (s_coord ?s) @ [SentDeregister (c_instance_id c)]"
    "c_healthy ?c = (c_healthy (s_coord ?s) \<and> isl (snd (deregister_service cl (s_coord ?s))))"
    using on by (auto simp: deregister_service_def Let_def split: call.splits option.splits)
  have "supervise (supervise (serving c) evs) (pending @ [ShutdownValue True]) =
      supervise (serving c) ((evs @ pending) @ [ShutdownValue True])" by (simp add: supervise_append)
  with on' supervise_stops [of "serving c" "evs @ pending"]
  have "shutdown cl serve_result pending late (supervise (serving c) evs) =
    ((supervise (serving c) ((evs @ pending) @ [ShutdownValue True]))\<lparr>s_coord := ?c\<rparr>, serve_result)"
    by (simp add: shutdown_def Let_def case_prod_beta supervise_returned)
  with supervise_stops(1) [of "serving c" "evs @ pending"] True dereg before show ?thesis
    by (auto simp: continues_def own_calls_def Let_def)
qed

end
