(* ===== verification/Composition.thy ===== *)
theory Composition
  imports Engine Child_Props
begin

section \<open>The workflow engine on top of the child runner\<close>

text \<open>
  How the two halves of the service fit: what an activity of \<open>src/workflow/engine.rs\<close> hands to
  the line protocol of \<open>src/child_runner.rs\<close>. The JSON library is the parameter \<open>sj\<close>; it is used
  for what \<open>Value::to_string\<close> documents, compact output without line breaks.
\<close>








end
