(* ===== verification/Trace_Contract.thy ===== *)
theory Trace_Contract
  imports Rust_Text
begin

section \<open>The trace-marker contract checker\<close>

text \<open>
  The model of \<open>.github/ores-trace-contract.rs\<close>, a scanner of source lines. Lines are byte lists;
  every character the scanner tests is ASCII, so a test on a character is a test on a byte.
  \<open>to_lowercase\<close> is written on ASCII letters: the only other characters whose lower case has an
  ASCII letter are the Kelvin sign (a k, which no searched word has) and the dotted capital I
  (whose combining dot keeps it from matching), so no search tells the difference.
  The file system is a tree, whose nodes the walk visits in the order of their names.
\<close>

definition MIN_ID_WIDTH :: nat where "MIN_ID_WIDTH = 12"
definition CANONICAL_GENERATOR_WIDTH :: nat where "CANONICAL_GENERATOR_WIDTH = 21"
definition MAX_ID_WIDTH :: nat where "MAX_ID_WIDTH = 64"

definition EXTS :: "string list" where
  "EXTS = [''rs'', ''js'', ''jsx'', ''ts'', ''tsx'', ''mjs'', ''cjs'', ''mts'', ''cts'', ''dart'', ''go'',
     ''java'', ''ex'', ''exs'']"

definition SKIP_DIRS :: "string list" where
  "SKIP_DIRS = [''.git'', ''node_modules'', ''target'', ''dist'', ''build'', ''coverage'', ''vendor'',
     ''generated'', ''tests'', ''test'', ''testdata'', ''fixtures'', ''__tests__'', ''__mocks__'', ''.r2g'']"

definition TRACE_METHODS :: "string list" where
  "TRACE_METHODS = [''addTraceId'', ''addTrace'', ''add_trace_id'', ''add_trace'', ''AddTraceID'', ''AddTrace'']"

definition ROUTINE_METHODS :: "string list" where
  "ROUTINE_METHODS = [''addRoutineId'', ''add_routine_id'', ''AddRoutineID'']"

record finding =
  fi_file :: string
  fi_line :: nat
  fi_msg :: string

subsection \<open>Identifiers\<close>

definition is_id_char :: "char \<Rightarrow> bool" where
  "is_id_char c \<longleftrightarrow> is_ascii_alphanumeric c \<or> c = CHR ''_'' \<or> c = CHR ''-''"

definition marker_prefix :: "string \<Rightarrow> string" where
  "marker_prefix kind = ''ores-'' @ kind @ ''-''"

definition strip_prefix :: "string \<Rightarrow> string \<Rightarrow> string option" where
  "strip_prefix p s = (if prefix p s then Some (drop (length p) s) else None)"

definition id_ok :: "string \<Rightarrow> string \<Rightarrow> bool" where
  "id_ok i kind =
     (case strip_prefix (marker_prefix kind) i of
        Some rest \<Rightarrow> MIN_ID_WIDTH \<le> length rest \<and> length rest \<le> MAX_ID_WIDTH \<and> list_all is_id_char rest
      | None \<Rightarrow> False)"

definition canonical_generated_id :: "string \<Rightarrow> string \<Rightarrow> bool" where
  "canonical_generated_id i kind =
     (case strip_prefix (marker_prefix kind) i of
        Some rest \<Rightarrow> length rest = CANONICAL_GENERATOR_WIDTH \<and> list_all is_id_char rest
      | None \<Rightarrow> False)"

subsection \<open>Call sites\<close>

definition quote_chars :: string where
  "quote_chars = [CHR 0x27, CHR 0x22, CHR 0x60]"

text \<open>\<open>literal_arg\<close>, on the text after the method name.\<close>

definition literal_arg :: "string \<Rightarrow> string option option" where
  "literal_arg after =
     (case strip_prefix ''('' (trim_start after) of
        None \<Rightarrow> None
      | Some r \<Rightarrow>
          (case trim_start r of
             [] \<Rightarrow> None
           | q # s \<Rightarrow> (if q \<in> set quote_chars then Some (Some (takeWhile (\<lambda>c. c \<noteq> q) s)) else Some None)))"

definition method_at :: "string \<Rightarrow> string \<Rightarrow> bool" where
  "method_at s m \<longleftrightarrow> prefix m s \<and>
     (case drop (length m) s of
        [] \<Rightarrow> True
      | c # _ \<Rightarrow> \<not> (is_ascii_alphanumeric c \<or> c = CHR ''_''))"

text \<open>The loop over the positions of a line, with the character before the position.\<close>

fun scan_from :: "string list \<Rightarrow> char option \<Rightarrow> string \<Rightarrow> (string \<times> string option) list" where
  "scan_from methods prev [] = []"
| "scan_from methods prev (c # s) =
     (if c \<noteq> CHR ''.'' \<or> (case prev of Some q \<Rightarrow> q \<in> set quote_chars | None \<Rightarrow> False) then []
      else
        (case find (method_at s) methods of
           None \<Rightarrow> []
         | Some m \<Rightarrow>
             (case literal_arg (drop (length m) s) of None \<Rightarrow> [] | Some arg \<Rightarrow> [(m, arg)])))
     @ scan_from methods (Some c) s"

definition scan_calls :: "string \<Rightarrow> string list \<Rightarrow> (string \<times> string option) list" where
  "scan_calls line methods = scan_from (sort_key (\<lambda>m. - int (length m)) methods) None line"

subsection \<open>Classification of lines\<close>

definition is_comment :: "string \<Rightarrow> bool" where
  "is_comment line =
     (let t = trim_start line
      in list_ex (\<lambda>p. prefix p t) [''//'', ''/*'', ''*'', ''<!--'', ''--'', ''# ''] \<or> t = ''#'')"

definition is_pattern_decl :: "string \<Rightarrow> bool" where
  \<open>is_pattern_decl line =
     list_ex (str_contains line)
       [''@pattern'', ''"pattern"'', ''^ores-'', ''[A-Za-z0-9_-]{12,64}'', ''[A-Za-z0-9_-]{21}'']\<close>

definition is_matcher :: "string \<Rightarrow> bool" where
  "is_matcher line =
     list_ex (str_contains line)
       [''.contains('', ''.includes('', ''.matches('', ''.match('', ''.starts_with('', ''.startsWith('',
        ''.strip_prefix('', ''.test('', ''.replace('', ''assert!('', ''assert_eq!('', ''regex'', ''Regex'',
        ''RE ='', ''_RE'']"

subsection \<open>Marker literals\<close>

text \<open>\<open>str::find\<close>: the first position of a pattern.\<close>

fun str_find :: "string \<Rightarrow> string \<Rightarrow> nat option" where
  "str_find p [] = (if p = [] then Some 0 else None)"
| "str_find p (c # s) = (if prefix p (c # s) then Some 0 else map_option Suc (str_find p s))"

lemma str_find_Some: "str_find p s = Some n \<Longrightarrow> prefix p (drop n s) \<and> n + length p \<le> length s"
proof (induction p s arbitrary: n rule: str_find.induct)
  case (2 p c s)
  then show ?case by (auto split: if_splits dest: prefix_length_le)
qed (auto split: if_splits)

lemma marker_prefix_length: "0 < length (marker_prefix kind)"
  by (simp add: marker_prefix_def)

definition id_run :: "string \<Rightarrow> string" where
  "id_run s = takeWhile is_id_char s"

definition before :: "string \<Rightarrow> nat \<Rightarrow> char option" where
  "before line n = (if n = 0 then None else Some (line ! (n - 1)))"

function marker_loop :: "string \<Rightarrow> string \<Rightarrow> nat \<Rightarrow> string list" where
  "marker_loop kind line pos =
     (case str_find (marker_prefix kind) (drop pos line) of
        None \<Rightarrow> []
      | Some rel \<Rightarrow>
          (let start = pos + rel; tag = length (marker_prefix kind)
           in if (case before line start of Some c \<Rightarrow> is_id_char c | None \<Rightarrow> False) then
                marker_loop kind line (start + tag)
              else
                (let i = id_run (drop start line)
                 in (if tag < length i then [i] else []) @ marker_loop kind line (start + max (length i) tag))))"
  by pat_completeness auto
termination
proof (relation "measure (\<lambda>(kind, line, pos). length line - pos)", goal_cases)
  case (2 kind line pos rel start tag)
  have "rel + tag \<le> length line - pos" "0 < tag"
    using str_find_Some [OF 2(1)] marker_prefix_length [of kind] 2(3) by simp_all
  then have "length line - (start + tag) < length line - pos" unfolding 2(2) by arith
  then show ?case by simp
next
  case (3 kind line pos rel start tag i)
  have "rel + tag \<le> length line - pos" "0 < tag"
    using str_find_Some [OF 3(1)] marker_prefix_length [of kind] 3(3) by simp_all
  then have "length line - (start + max (length i) tag) < length line - pos" unfolding 3(2) by arith
  then show ?case by simp
qed simp

declare marker_loop.simps [simp del]

definition marker_literals :: "string \<Rightarrow> (string \<times> string) list" where
  "marker_literals line =
     concat (map (\<lambda>kind. map (Pair kind) (marker_loop kind line 0)) [''trace'', ''routine''])"

subsection \<open>Hoisted declarations\<close>

definition MODIFIERS :: "string list" where
  "MODIFIERS = [''pub(crate) '', ''pub(super) '', ''pub '', ''export '', ''public '', ''private '',
     ''protected '', ''declare '']"

definition BINDERS :: "string list" where
  "BINDERS = [''const '', ''let '', ''var '', ''static '', ''final '', ''val '']"

lemma length_trim_start: "length (trim_start s) \<le> length s"
  unfolding trim_start_def by (rule suffix_length_le [OF strip_all_suffix])

function strip_modifiers :: "string \<Rightarrow> string" where
  "strip_modifiers l =
     (case find (\<lambda>k. prefix k (to_ascii_lowercase l)) MODIFIERS of
        Some k \<Rightarrow> strip_modifiers (trim_start (drop (length k) l))
      | None \<Rightarrow> l)"
  by pat_completeness auto
termination
proof (relation "measure length", goal_cases)
  case (2 l k)
  then have k: "k \<in> set MODIFIERS" "prefix k (to_ascii_lowercase l)" by (auto simp: find_Some_iff)
  then have "length k \<le> length l" "0 < length k"
    using prefix_length_le [OF k(2)] by (auto simp: to_ascii_lowercase_def MODIFIERS_def)
  with length_trim_start [of "drop (length k) l"] show ?case by (simp del: length_greater_0_conv)
qed simp

declare strip_modifiers.simps [simp del]

definition hoisted_trace_decl :: "string \<Rightarrow> string option" where
  \<open>hoisted_trace_decl line =
     (let l = strip_modifiers (trim line);
          lower = to_ascii_lowercase l
      in if \<not> list_ex (\<lambda>k. prefix k lower) BINDERS \<or> \<not> str_contains lower ''trace'' then None
         else if CHR ''='' \<notin> set l then None
         else
           (let name = takeWhile (\<lambda>c. c \<noteq> CHR ''='') l;
                val = dropWhile (\<lambda>c. c \<noteq> CHR ''='') l
            in if \<not> str_contains (to_ascii_lowercase name) ''trace'' then None
               else if list_ex (\<lambda>q. str_contains val (q # ''ores-trace-'')) [CHR 0x22, CHR 0x27, CHR 0x60] \<and>
                       list_ex (\<lambda>ki. fst ki = ''trace'') (marker_literals val)
               then Some (trim name) else None))\<close>

subsection \<open>Checking a line\<close>

definition call_message :: "string \<Rightarrow> string \<Rightarrow> string \<Rightarrow> string" where
  \<open>call_message kind m i =
     ''.'' @ m @ ''("'' @ i @
     (if kind = ''trace''
      then ''") is not a compatible static marker; expected ^ores-trace-[A-Za-z0-9_-]{12,64}$''
      else ''") is not a compatible routine id; expected ^ores-routine-[A-Za-z0-9_-]{12,64}$'')\<close>

definition call_messages :: "string \<Rightarrow> string \<Rightarrow> string list" where
  "call_messages kind line =
     concat (map (\<lambda>(m, arg). case arg of
         Some i \<Rightarrow> (if id_ok i kind then [] else [call_message kind m i])
       | None \<Rightarrow> [])
       (scan_calls line (if kind = ''trace'' then TRACE_METHODS else ROUTINE_METHODS)))"

definition literal_messages :: "string list \<Rightarrow> string \<Rightarrow> string list" where
  \<open>literal_messages already line =
     concat (map (\<lambda>(kind, i).
         if list_ex (\<lambda>m. str_contains m (CHR 0x22 # i @ [CHR 0x22])) already \<or> id_ok i kind then []
         else [CHR 0x22 # i @ ''" does not match ^ores-'' @ kind @ ''-[A-Za-z0-9_-]{12,64}$''])
       (marker_literals line))\<close>

definition check_line :: "string \<Rightarrow> nat \<Rightarrow> string \<Rightarrow> finding list \<Rightarrow> finding list" where
  \<open>check_line file no line findings =
     (if is_comment line then findings
      else
        (let matcher = is_matcher line;
             push = (\<lambda>msgs fs. fs @ map (\<lambda>msg. \<lparr> fi_file = file, fi_line = no, fi_msg = msg \<rparr>) msgs);
             f1 = push (if \<not> matcher \<and> str_contains line ''dd-trace-''
                        then [''legacy dd-trace-* marker; use ores-trace-*''] else []) findings;
             f2 = push (if str_contains line ''.addRoutine('' \<or> str_contains line ''.add_routine(''
                        then [''use addRoutineId()/add_routine_id(), not addRoutine()''] else []) f1;
             f3 = push (call_messages ''trace'' line) f2;
             f4 = push (call_messages ''routine'' line) f3;
             f5 = push (case hoisted_trace_decl line of
                    Some rest \<Rightarrow> (if matcher then [] else
                      [''static ores-trace-* id must stay inline at the call site, not in `'' @ rest @ ''`''])
                  | None \<Rightarrow> []) f4
         in if \<not> matcher \<and> \<not> is_pattern_decl line then
              push (literal_messages
                (map fi_msg (filter (\<lambda>x. fi_line x = no \<and> fi_file x = file) f5)) line) f5
            else f5))\<close>

subsection \<open>Checking a file\<close>

text \<open>\<open>str::lines\<close>: a carriage return goes with its line feed, an empty last line is none.\<close>

definition strip_cr :: "string \<Rightarrow> string" where
  "strip_cr l = (if l \<noteq> [] \<and> last l = CHR 0x0D then butlast l else l)"

definition rust_lines :: "string \<Rightarrow> string list" where
  "rust_lines text =
     (let ps = split_on (CHR 0x0A) text
      in map strip_cr (butlast ps) @ (if last ps = [] then [] else [last ps]))"

fun next_is_mod :: "string list \<Rightarrow> bool" where
  "next_is_mod [] = False"
| "next_is_mod (l # ls) =
     (let t = trim_start l
      in if t = [] \<or> prefix ''#['' t \<or> prefix ''//'' t then next_is_mod ls
         else prefix ''mod '' t \<or> prefix ''pub mod '' t)"

fun check_lines ::
    "string \<Rightarrow> string \<Rightarrow> nat \<Rightarrow> string list \<Rightarrow> nat \<times> finding list \<Rightarrow> nat \<times> finding list" where
  "check_lines ext rel no [] st = st"
| "check_lines ext rel no (line # ls) (markers, findings) =
     (if ext = ''rs'' \<and> prefix ''#[cfg(test)]'' (trim_start line) \<and> next_is_mod ls
      then (markers, findings)
      else check_lines ext rel (no + 1) ls
        (if str_contains line ''ores-trace-'' \<or> str_contains line ''ores-routine-'' then markers + 1 else markers,
         check_line rel no line findings))"

subsection \<open>Checking a tree\<close>

text \<open>A file holds its text when it can be read as UTF-8. A path is the list of its names.\<close>

datatype node = File "string option" | Symlink | Dir "(string \<times> node) list"

function walk :: "string list \<Rightarrow> node \<Rightarrow> (string list \<times> string option) list" where
  "walk path (Dir es) = concat (map (\<lambda>(n, d).
     case d of
       Symlink \<Rightarrow> []
     | File text \<Rightarrow> [(path @ [n], text)]
     | Dir _ \<Rightarrow> (if n \<in> set SKIP_DIRS then [] else walk (path @ [n]) d)) (sort_key fst es))"
| "walk path (File text) = []"
| "walk path Symlink = []"
  by pat_completeness auto
termination
proof (relation "measure (size \<circ> snd)", goal_cases)
  case (2 path es e n d es')
  then have "(n, d) \<in> set es" by simp
  then have "size d < size (Dir es)"
    by (induction es) auto
  then show ?case by simp
qed simp

definition extension :: "string \<Rightarrow> string option" where
  "extension n =
     (let r = rev n; rest = dropWhile (\<lambda>c. c \<noteq> CHR ''.'') r
      in if length rest \<le> 1 then None else Some (rev (takeWhile (\<lambda>c. c \<noteq> CHR ''.'') r)))"

definition skip_path :: "string list \<Rightarrow> bool" where
  "skip_path path \<longleftrightarrow> list_ex (\<lambda>n. n \<in> set SKIP_DIRS) path"

definition is_test_file :: "string list \<Rightarrow> bool" where
  "is_test_file path =
     (let n = (if path = [] then [] else to_ascii_lowercase (last path))
      in str_contains n ''.test.'' \<or> str_contains n ''.spec.'' \<or> suffix ''_test.go'' n \<or>
         suffix ''_test.rs'' n \<or> suffix ''_test.exs'' n \<or> prefix ''test_'' n)"

fun join_path :: "string list \<Rightarrow> string" where
  "join_path [] = []"
| "join_path [n] = n"
| "join_path (n # ns) = n @ ''/'' @ join_path ns"

record tally =
  ta_checked :: nat
  ta_markers :: nat
  ta_findings :: "finding list"

text \<open>The body of the loop of \<open>main\<close> over the files.\<close>

definition check_file :: "string list \<Rightarrow> string list \<times> string option \<Rightarrow> tally \<Rightarrow> tally" where
  "check_file base f t =
     (case f of (path, text) \<Rightarrow>
        (case (if path = [] then None else extension (last path)) of
           None \<Rightarrow> t
         | Some ext0 \<Rightarrow>
             (let ext = to_ascii_lowercase ext0
              in if ext \<notin> set EXTS \<or> skip_path path \<or> is_test_file path then t
                 else
                   (let rel = join_path (drop (length base) path)
                    in (case text of
                          None \<Rightarrow> t\<lparr>ta_findings := ta_findings t @
                            [\<lparr> fi_file = rel, fi_line = 0,
                               fi_msg = ''source file could not be read as UTF-8, so it was not checked'' \<rparr>]\<rparr>
                        | Some s \<Rightarrow>
                            (if str_contains s ''ores-trace-contract:ignore-file'' then t
                             else
                               (case check_lines ext rel 1 (rust_lines s) (ta_markers t, ta_findings t) of
                                  (markers, findings) \<Rightarrow>
                                    \<lparr> ta_checked = ta_checked t + 1, ta_markers = markers,
                                      ta_findings = findings \<rparr>)))))))"

definition vacuous_scan :: "string \<Rightarrow> bool \<Rightarrow> nat \<Rightarrow> string option" where
  "vacuous_scan base is_dir checked =
     (if \<not> is_dir then Some (''root '' @ base @ '' is not a directory'')
      else if checked = 0 then
        Some (''no source files were checked under '' @ base @
              ''; refusing to report a scan that covered nothing'')
      else None)"

datatype verdict = Refused string | Passed nat nat | Violations "finding list"

definition run_checker :: "string list \<Rightarrow> node \<Rightarrow> verdict" where
  "run_checker base tree =
     (let t = fold (check_file base) (walk base tree)
                \<lparr> ta_checked = 0, ta_markers = 0, ta_findings = [] \<rparr>;
          is_dir = (case tree of Dir _ \<Rightarrow> True | _ \<Rightarrow> False)
      in (case vacuous_scan (join_path base) is_dir (ta_checked t) of
            Some reason \<Rightarrow> Refused reason
          | None \<Rightarrow>
              (if ta_findings t = [] then Passed (ta_checked t) (ta_markers t)
               else Violations (ta_findings t))))"

end
