(* ===== verification/Trace_Props.thy ===== *)
theory Trace_Props
  imports Trace_Contract
begin

section \<open>Properties of the trace-marker checker\<close>

text \<open>
  The claims on \<open>.github/ores-trace-contract.rs\<close>: no marker of a line is overlooked, no bad call
  site is hidden, what a passed scan says of the tree, and which lines the scanner never reads.
\<close>

subsection \<open>Searching\<close>

lemma str_find_first:
  assumes "prefix p (drop n s)" "n \<le> length s"
  shows "\<exists>m \<le> n. str_find p s = Some m"
  using assms
proof (induction p s arbitrary: n rule: str_find.induct)
  case (2 p c s)
  then show ?case by (cases n) fastforce+
qed auto

lemma str_find_None: "str_find p s = None \<Longrightarrow> \<not> (n \<le> length s \<and> prefix p (drop n s))"
  using str_find_first [of p n s] by auto

subsection \<open>Markers\<close>

text \<open>The maximal run of identifier characters that starts at a position.\<close>

definition run_at :: "string \<Rightarrow> nat \<Rightarrow> string \<Rightarrow> bool" where
  "run_at line p i \<longleftrightarrow> p \<le> length line \<and> i = id_run (drop p line) \<and>
     (case before line p of Some c \<Rightarrow> \<not> is_id_char c | None \<Rightarrow> True)"

definition marker_at :: "string \<Rightarrow> string \<Rightarrow> nat \<Rightarrow> string \<Rightarrow> bool" where
  "marker_at kind line p i \<longleftrightarrow> run_at line p i \<and> strict_prefix (marker_prefix kind) i"

lemma id_run_prefix: "prefix (id_run s) s"
  unfolding id_run_def by (rule takeWhile_is_prefix)

lemma id_run_nth: "k < length (id_run (drop n s)) \<Longrightarrow> is_id_char (s ! (n + k)) \<and> n + k < length s"
proof -
  assume k: "k < length (id_run (drop n s))"
  then have len: "k < length (drop n s)" using prefix_length_le [OF id_run_prefix [of "drop n s"]] by simp
  have "is_id_char (id_run (drop n s) ! k)"
    using set_takeWhileD [of "id_run (drop n s) ! k" is_id_char "drop n s"] k
    by (metis id_run_def nth_mem)
  moreover have "id_run (drop n s) ! k = s ! (n + k)"
    using k len by (simp add: id_run_def takeWhile_nth)
  ultimately show ?thesis using len by simp
qed

lemma run_length:
  assumes "prefix t (drop n s)" "list_all is_id_char t"
  shows "length t \<le> length (id_run (drop n s))"
proof -
  obtain u where "drop n s = t @ u" using assms(1) by (auto simp: prefix_def)
  with assms(2) show ?thesis by (simp add: id_run_def list_all_iff takeWhile_append)
qed

text \<open>No run starts inside another one.\<close>

lemma run_not_inside:
  assumes "run_at line p i" "n < p" "p \<le> n + length (id_run (drop n line))"
  shows False
proof -
  have "is_id_char (line ! (n + (p - 1 - n)))"
    using id_run_nth [of "p - 1 - n" n line] assms(2,3) by simp
  then have "is_id_char (line ! (p - 1))" using assms(2) by simp
  with assms show ?thesis by (simp add: run_at_def before_def)
qed

lemma marker_at_prefix:
  assumes "marker_at kind line p i"
  shows "prefix (marker_prefix kind) (drop p line)" "length (marker_prefix kind) < length i"
    "i = id_run (drop p line)" "p \<le> length line"
  using assms prefix_order.trans [OF _ id_run_prefix, of "marker_prefix kind" "drop p line"]
  by (auto simp: marker_at_def run_at_def strict_prefix_def dest: prefix_length_less)
    (metis prefix_length_less strict_prefix_def)

lemma marker_loop_complete:
  assumes "list_all is_id_char (marker_prefix kind)" "marker_at kind line p i" "pos \<le> p"
  shows "i \<in> set (marker_loop kind line pos)"
  using assms
proof (induction kind line pos rule: marker_loop.induct)
  case (1 kind line pos)
  note m = marker_at_prefix [OF "1.prems"(2)]
  have run: "run_at line p i" using "1.prems"(2) by (simp add: marker_at_def)
  have "prefix (marker_prefix kind) (drop (p - pos) (drop pos line))" using m(1) "1.prems"(3) by simp
  moreover have "p - pos \<le> length (drop pos line)" using m(4) by simp
  ultimately obtain rel where "rel \<le> p - pos" and found: "str_find (marker_prefix kind) (drop pos line) = Some rel"
    using str_find_first by blast
  then have rel: "str_find (marker_prefix kind) (drop pos line) = Some rel" "pos + rel \<le> p"
    using "1.prems"(3) by simp_all
  let ?start = "pos + rel" and ?tag = "length (marker_prefix kind)"
  let ?len = "length (id_run (drop ?start line))"
  have "prefix (marker_prefix kind) (drop ?start line)"
    using str_find_Some [OF rel(1)] by (simp add: add.commute)
  then have tag: "?tag \<le> ?len" by (rule run_length [OF _ "1.prems"(1)])
  have past: "?start + ?len < p" if "?start \<noteq> p"
    using run_not_inside [OF run, of ?start] rel(2) that by (meson le_neq_implies_less not_le)
  show ?case
  proof (cases "case before line ?start of Some c \<Rightarrow> is_id_char c | None \<Rightarrow> False")
    case True
    then have "?start \<noteq> p" using run by (auto simp: run_at_def split: option.splits)
    then have "i \<in> set (marker_loop kind line (?start + ?tag))"
      using "1.IH"(1) [OF rel(1) refl refl True "1.prems"(1,2)] past tag by linarith
    with True rel(1) show ?thesis by (subst marker_loop.simps) simp
  next
    case False
    show ?thesis
    proof (cases "?start = p")
      case True
      with False rel(1) m(2,3) show ?thesis by (subst marker_loop.simps) (simp add: Let_def)
    next
      case far: False
      then have "i \<in> set (marker_loop kind line (?start + max ?len ?tag))"
        using "1.IH"(2) [OF rel(1) refl refl False refl "1.prems"(1,2)] past tag by linarith
      with False rel(1) show ?thesis by (subst marker_loop.simps) (simp add: Let_def)
    qed
  qed
qed

lemma kind_id_chars:
  "kind \<in> {''trace'', ''routine''} \<Longrightarrow> list_all is_id_char (marker_prefix kind)"
  by (auto simp: marker_prefix_def is_id_char_def ascii_class_defs)

lemma marker_literals_complete:
  assumes "kind \<in> {''trace'', ''routine''}" "marker_at kind line p i"
  shows "(kind, i) \<in> set (marker_literals line)"
  using marker_loop_complete [OF kind_id_chars [OF assms(1)] assms(2), of 0] assms(1)
  by (auto simp: marker_literals_def)

subsection \<open>Lines\<close>

definition line_findings :: "string \<Rightarrow> nat \<Rightarrow> string \<Rightarrow> finding list" where
  "line_findings file no line = check_line file no line []"

definition fresh_line :: "string \<Rightarrow> nat \<Rightarrow> finding list \<Rightarrow> bool" where
  "fresh_line file no fs \<longleftrightarrow> filter (\<lambda>x. fi_line x = no \<and> fi_file x = file) fs = []"

lemma check_line_grows: "\<exists>new. check_line file no line fs = fs @ new"
  by (auto simp: check_line_def Let_def)

lemma check_line_fresh:
  "fresh_line file no fs \<Longrightarrow> check_line file no line fs = fs @ line_findings file no line"
  unfolding line_findings_def check_line_def Let_def fresh_line_def
  by (simp cong: if_cong option.case_cong)

lemma clean_line_literals:
  assumes "line_findings file no line = []" "\<not> is_comment line" "\<not> is_matcher line" "\<not> is_pattern_decl line"
  shows "literal_messages [] line = []"
  using assms unfolding line_findings_def check_line_def Let_def by (auto split: option.splits if_splits)

lemma no_marker_missed:
  assumes "line_findings file no line = []" "\<not> is_comment line" "\<not> is_matcher line" "\<not> is_pattern_decl line"
    and "kind \<in> {''trace'', ''routine''}" "marker_at kind line p i"
  shows "id_ok i kind"
proof (rule ccontr)
  assume "\<not> id_ok i kind"
  then have "literal_messages [] line \<noteq> []"
    using marker_literals_complete [OF assms(5,6)] by (force simp: literal_messages_def)
  with clean_line_literals [OF assms(1-4)] show False by simp
qed

subsection \<open>Call sites\<close>






lemma trim_start_edge: "edge_char c \<Longrightarrow> trim_start (c # r) = c # r"
  by (rule trim_start_other [OF edge_char_whitespace(1)])






text \<open>
  Lines the scanner never reads. Any line that starts with an asterisk, or with two dashes,
  counts as a comment: whatever follows, a statement through a dereferenced pointer for example,
  adds no finding.
\<close>

theorem starred_lines_unchecked:
  "check_line file no (CHR ''*'' # rest) findings = findings \<and>
   check_line file no (''--'' @ rest) findings = findings"
  by (simp add: check_line_def is_comment_def trim_start_edge edge_char_def byte_def)

subsection \<open>Trees\<close>

definition source_file :: "string list \<Rightarrow> bool" where
  "source_file path \<longleftrightarrow> path \<noteq> [] \<and> (\<exists>e. extension (last path) = Some e \<and> to_ascii_lowercase e \<in> set EXTS) \<and>
     \<not> skip_path path \<and> \<not> is_test_file path"

text \<open>The lines in front of a Rust test module.\<close>

fun live_lines :: "string \<Rightarrow> string list \<Rightarrow> string list" where
  "live_lines ext [] = []"
| "live_lines ext (l # ls) =
     (if ext = ''rs'' \<and> prefix ''#[cfg(test)]'' (trim_start l) \<and> next_is_mod ls then []
      else l # live_lines ext ls)"

definition live_text :: "string list \<Rightarrow> string \<Rightarrow> string list" where
  "live_text path s =
     (case extension (last path) of
        Some e \<Rightarrow> live_lines (to_ascii_lowercase e) (rust_lines s)
      | None \<Rightarrow> [])"

lemma check_lines_clean:
  assumes "snd (check_lines ext rel no ls (mk, fs)) = []"
  shows "fs = [] \<and> (\<forall>l \<in> set (live_lines ext ls). \<exists>n. line_findings rel n l = [])"
  using assms
proof (induction ls arbitrary: no mk fs)
  case (Cons l ls)
  show ?case
  proof (cases "ext = ''rs'' \<and> prefix ''#[cfg(test)]'' (trim_start l) \<and> next_is_mod ls")
    case True
    with Cons.prems show ?thesis by simp
  next
    case False
    have tail: "check_line rel no l fs = [] \<and>
        (\<forall>x \<in> set (live_lines ext ls). \<exists>n. line_findings rel n x = [])"
      using Cons.prems False by (intro Cons.IH) (simp split: if_splits)
    then have "fs = []" using check_line_grows [of rel no l fs] by auto
    with tail False show ?thesis by (auto simp: line_findings_def)
  qed
qed simp

definition clean_file :: "string list \<Rightarrow> string list \<times> string option \<Rightarrow> bool" where
  "clean_file base f \<longleftrightarrow> source_file (fst f) \<longrightarrow>
     (\<exists>s. snd f = Some s \<and> (str_contains s ''ores-trace-contract:ignore-file'' \<or>
       (\<forall>l \<in> set (live_text (fst f) s). \<exists>file no. line_findings file no l = [])))"

lemma check_file_clean:
  assumes "ta_findings (check_file base f t) = []"
  shows "ta_findings t = [] \<and> clean_file base f"
proof (cases "source_file (fst f)")
  case False
  then have "check_file base f t = t"
    by (cases f) (auto simp: check_file_def source_file_def Let_def split: option.splits)
  with assms False show ?thesis by (simp add: clean_file_def)
next
  case True
  then obtain e where e: "extension (last (fst f)) = Some e" "to_ascii_lowercase e \<in> set EXTS"
    "fst f \<noteq> []" "\<not> skip_path (fst f)" "\<not> is_test_file (fst f)"
    by (auto simp: source_file_def)
  obtain path content where f: "f = (path, content)" by (cases f)
  obtain s where s: "content = Some s"
    using assms e f by (cases content) (auto simp: check_file_def Let_def)
  show ?thesis
  proof (cases "str_contains s ''ores-trace-contract:ignore-file''")
    case True
    with assms e f s show ?thesis by (simp add: check_file_def clean_file_def Let_def)
  next
    case False
    obtain mk fs where lines: "check_lines (to_ascii_lowercase e) (join_path (drop (length base) path)) 1
        (rust_lines s) (ta_markers t, ta_findings t) = (mk, fs)" by fastforce
    with assms e f s False have "fs = []" by (simp add: check_file_def Let_def)
    with lines have "snd (check_lines (to_ascii_lowercase e) (join_path (drop (length base) path)) 1
        (rust_lines s) (ta_markers t, ta_findings t)) = []" by simp
    then have "ta_findings t = [] \<and> (\<forall>l \<in> set (live_lines (to_ascii_lowercase e) (rust_lines s)).
           \<exists>n. line_findings (join_path (drop (length base) path)) n l = [])"
      by (rule check_lines_clean)
    with e f s show ?thesis by (simp add: clean_file_def live_text_def) blast
  qed
qed

lemma fold_check_clean:
  "ta_findings (fold (check_file base) fs t) = [] \<Longrightarrow>
     ta_findings t = [] \<and> (\<forall>f \<in> set fs. clean_file base f)"
proof (induction fs arbitrary: t)
  case (Cons f fs)
  from Cons.prems have "ta_findings (fold (check_file base) fs (check_file base f t)) = []" by simp
  from Cons.IH [OF this] check_file_clean [of base f t] show ?case by auto
qed simp

text \<open>
  C40: What a passed scan says of the tree. When the checker passes, at least one file was
  checked, every source file of the walk could be read, and in each one that does not opt out,
  every line in front of a test module is free of bad markers: each maximal marker in it, of
  either kind and at any position, is a well-formed identifier (unless the line is a comment, a
  matcher or a pattern declaration).
\<close>

theorem passed_tree_is_clean:
  assumes "run_checker base tree = Passed n m" "(path, text) \<in> set (walk base tree)" "source_file path"
  shows "0 < n \<and> (\<exists>s. text = Some s \<and>
    (str_contains s ''ores-trace-contract:ignore-file'' \<or>
     (\<forall>l \<in> set (live_text path s). \<forall>kind \<in> {''trace'', ''routine''}. \<forall>p i.
        is_comment l \<or> is_matcher l \<or> is_pattern_decl l \<or> \<not> marker_at kind l p i \<or> id_ok i kind)))"
proof -
  let ?t = "fold (check_file base) (walk base tree) \<lparr> ta_checked = 0, ta_markers = 0, ta_findings = [] \<rparr>"
  from assms(1) have t: "ta_findings ?t = []" "n = ta_checked ?t" "ta_checked ?t \<noteq> 0"
    by (auto simp: run_checker_def vacuous_scan_def Let_def split: option.splits if_splits)
  with fold_check_clean [of base "walk base tree"] assms(2) have "clean_file base (path, text)" by blast
  with assms(3) obtain s where s: "text = Some s" and clean: "str_contains s ''ores-trace-contract:ignore-file'' \<or>
      (\<forall>l \<in> set (live_text path s). \<exists>file no. line_findings file no l = [])"
    by (auto simp: clean_file_def)
  have ok: "is_comment l \<or> is_matcher l \<or> is_pattern_decl l \<or> \<not> marker_at kind l p i \<or> id_ok i kind"
    if "line_findings rel no l = []" "kind \<in> {''trace'', ''routine''}" for rel no l kind p i
    using no_marker_missed [OF that(1) _ _ _ that(2)] by metis
  have "0 < n" using t by simp
  moreover from clean have "str_contains s ''ores-trace-contract:ignore-file'' \<or>
     (\<forall>l \<in> set (live_text path s). \<forall>kind \<in> {''trace'', ''routine''}. \<forall>p i.
        is_comment l \<or> is_matcher l \<or> is_pattern_decl l \<or> \<not> marker_at kind l p i \<or> id_ok i kind)"
    (is ?clean)
  proof
    assume lines: "\<forall>l \<in> set (live_text path s). \<exists>file no. line_findings file no l = []"
    show ?clean
    proof (rule disjI2, intro ballI allI)
      fix l kind p i
      assume "l \<in> set (live_text path s)" and kind: "kind \<in> {''trace'', ''routine''}"
      with lines obtain rel no where "line_findings rel no l = []" by blast
      then show "is_comment l \<or> is_matcher l \<or> is_pattern_decl l \<or> \<not> marker_at kind l p i \<or> id_ok i kind"
        using kind by (rule ok)
    qed
  qed (rule disjI1)
  ultimately show ?thesis using s by simp
qed

definition small_id :: string where
  "small_id = ''ores-trace-AAAAAAAAAAAAAAAAAAAAA''"

definition small_line :: string where
  "small_line = ''l.add_trace('' @ CHR 0x22 # small_id @ CHR 0x22 # '');''"

definition small_tree :: node where
  "small_tree = Dir [(''b.rs'', Symlink), (''a.rs'', File (Some small_line))]"

lemma passed_tree_is_clean_witness:
  "run_checker [] small_tree = Passed 1 1 \<and> marker_at ''trace'' small_line 13 small_id \<and> id_ok small_id ''trace''"
proof -
  have run: "run_checker [] small_tree = Passed 1 1" by code_simp
  have walked: "([''a.rs''], Some small_line) \<in> set (walk [] small_tree)" by code_simp
  have "extension ''a.rs'' = Some ''rs''" "to_ascii_lowercase ''rs'' = ''rs''" "''rs'' \<in> set EXTS"
    "\<not> skip_path [''a.rs'']" "\<not> is_test_file [''a.rs'']" by code_simp+
  then have source: "source_file [''a.rs'']" by (simp add: source_file_def)
  have line: "small_line \<in> set (live_text [''a.rs''] small_line)" by code_simp
  have plain: "\<not> str_contains small_line ''ores-trace-contract:ignore-file''" "\<not> is_comment small_line"
    "\<not> is_matcher small_line" "\<not> is_pattern_decl small_line" by code_simp+
  have mark: "marker_at ''trace'' small_line 13 small_id" by code_simp
  from passed_tree_is_clean [OF run walked source] plain line mark
  have "id_ok small_id ''trace''" by (metis insertI1 option.inject)
  with run mark show ?thesis by simp
qed

end
