(* ===== verification/Spec2Isabelle.thy ===== *)
theory Spec2Isabelle
  imports Workflow_Props Workflow_Progress Workflow_Data Creation Store_Props Policy_Props Coord_Props Engine_Props
    Child_System Nats_Props Function_Props Http_Props Http_Claims Composition Trace_Props
begin

text \<open>
  Verification library of \<open>fiducia-lambda-service\<close>.

  \<^bold>\<open>The program.\<close> One process serves three things over HTTP (\<open>src/http.rs\<close>): the invocation of
  functions, whose definitions are rows of a database reached through \<open>psql\<close>; the administration
  of those definitions, separated by organization (\<open>src/function_control.rs\<close>); and workflows,
  runs of a list of steps (\<open>activity\<close>, \<open>sleep\<close>, \<open>waitSignal\<close>) that live in memory
  (\<open>src/workflow/store.rs\<close>) and are driven by a scheduler and its workers
  (\<open>src/workflow/engine.rs\<close>). A function runs in a reusable child process that answers one line
  with one line (\<open>src/child_runner.rs\<close>, the command line by \<open>src/runtime.rs\<close>), or in a pool behind
  NATS (\<open>src/nats.rs\<close>). \<open>src/coord.rs\<close> is the client of the external node that grants the
  authority to advance a run. An activity of a workflow is an invocation; events go to NATS.

  \<^bold>\<open>Theories and sources.\<close>
  \<^item> \<open>Prelude\<close>: Rust integers (\<open>u64\<close> is a 64-bit word, \<open>i64\<close> an \<open>int\<close> with the wrap-around of the
    release build written out), the hash map \<open>hmap\<close>, list lemmas. \<open>Rust_Text\<close>: \<open>str\<close> as its UTF-8
    bytes, trimming, splitting, replacing, decimal numbers. \<open>Json\<close>: \<open>serde_json::Value\<close>, its
    accessors, \<open>f64\<close>. \<open>Net_Addr\<close>: the parser of IP addresses of the standard library.
  \<^item> \<open>Runtime\<close>, \<open>Command\<close>: \<open>src/runtime.rs\<close> (field extraction, validators, command lines).
    \<open>Definition\<close>: \<open>src/definition.rs\<close>. \<open>Function_Control\<close>: \<open>src/function_control.rs\<close>.
  \<^item> \<open>Store\<close>: \<open>src/workflow/store.rs\<close>, one function per method (each holds the mutex for its whole
    body). \<open>Coord\<close>: \<open>src/coord.rs\<close>. \<open>Engine\<close>: \<open>src/workflow/engine.rs\<close>, its handlers,
    \<open>process_run\<close>, \<open>claim_and_dispatch\<close>, the schedule of its loops, its public operations.
  \<^item> \<open>Step_Machine\<close>: the specification of one run; \<open>Step_Refinement\<close>: every handler refines it;
    \<open>Workflow\<close>: all interleavings of the operations as a step relation, with its invariant;
    \<open>Creation\<close>: the replicas, their creations and the claims of the node as a step relation.
  \<^item> \<open>Metrics\<close>: \<open>src/metrics.rs\<close>. \<open>Child_Runner\<close>: \<open>src/child_runner.rs\<close>. \<open>Child_System\<close>: callers,
    drivers and children of the runner as a step relation.
  \<^item> \<open>Nats\<close>: \<open>src/nats.rs\<close>. \<open>Config\<close>: \<open>src/config.rs\<close>. \<open>Http\<close>: \<open>src/http.rs\<close>, \<open>src/api_docs.rs\<close>,
    \<open>src/util.rs\<close> and \<open>run\<close> of \<open>src/main.rs\<close> (start-up and shutdown).
  \<^item> \<open>Trace_Contract\<close>: the build-time checker \<open>.github/ores-trace-contract.rs\<close>.

  A definition has the name of the function, method or type it translates, with a prefix where two
  modules share a name. A struct is a record, an enum a datatype, \<open>Result\<close> a sum with the error on
  the left. A stateful operation takes the state and returns the new one. What it reads outside
  (clock, generated identifiers, answers of the node, of \<open>psql\<close>, of the broker, of a child) is an
  argument, gathered in the records \<open>world\<close>, \<open>client\<close>, \<open>host\<close>, \<open>broker\<close>, \<open>codec\<close> and \<open>backend\<close>.

  \<^bold>\<open>What is shown.\<close>
  \<^item> Workflows (\<open>Workflow_Props\<close>, \<open>Workflow_Progress\<close>): in every interleaving each run refines
    the step machine; terminal runs do not change; steps succeed once and in order; a snapshot
    commits at most once; attempts are bounded; cancellation wins; a worker with authority makes
    progress, a run without waits terminates, and the scheduler never idles while a run is due.
    \<open>Workflow_Data\<close>: signals are neither lost nor used twice, and the context of a run is the
    replay of its history as long as its JSON text can be read back (and empty when it cannot).
    \<open>Creation\<close>: creations that overlap on any number of replicas store at most one run for a key
    while the node's claim of it lasts, and what happens when it has expired or there is no node.
    \<open>Store_Props\<close>, \<open>Engine_Props\<close>, \<open>Coord_Props\<close>: the exact outcome of the single operations, no
    work without the node's lease, fail-closed authority, idempotent creation.
  \<^item> Invocation (\<open>Child_Props\<close>, \<open>Child_System\<close>, \<open>Composition\<close>): the line protocol pairs answers
    with requests when requests are single lines, under concurrency too; activities always are, a
    raw request body need not be. \<open>Policy_Props\<close>: shell quoting is exact, container invocations
    are confined, statements and keys are safe against the text spliced into them.
  \<^item> Functions (\<open>Function_Props\<close>): input cleaning, statements free of injection and restricted to
    the organization, the guard of the activation. \<open>Http_Props\<close>, \<open>Http_Claims\<close>: authentication,
    non-interference between organizations, what activation needs, start-up and shutdown.
  \<^item> \<open>Nats_Props\<close>: when plaintext is possible. \<open>Trace_Props\<close>: what a passed check guarantees.

  The interfaces are locales: \<open>step_machine\<close> (a run and its attempt limits, interpreted on stored
  runs), the optimistic commit of a store (interpreted on each commit operation) and the
  validators of spliced text (interpreted on each of the validators).

  \<^bold>\<open>Bounds.\<close> Versions and counters are 64-bit words that wrap; the invariants of the workflow hold
  for executions of fewer than \<open>2 ^ 64\<close> steps, in which no version can wrap. No fuel is used:
  every loop is structural or has a measure, and the loops that never end are step relations.

  \<^bold>\<open>Not modelled.\<close> Log output and tracing spans, the telemetry guard, signal handlers, the module
  files \<open>src/lib.rs\<close>, \<open>src/messaging.rs\<close>, \<open>src/workflow/mod.rs\<close> and the logger set-up
  \<open>src/ores_log.rs\<close> have no logic of the service. The HTTP framework's decoding of paths, queries
  and bodies and its own rejections, \<open>serde\<close> and \<open>serde_json\<close>, \<open>psql\<close>, the generated client of
  the node, the NATS libraries, the operating system's processes and the child runtimes are other
  programs: parameters. Tests in the source files are not modelled.
\<close>

end
